theory Spec2Isabelle
  imports Complex_Main
begin

section \<open>Memory of one element\<close>

text \<open>
  The kernel \<open>compute_and_apply_rhs\<close> of the two Kokkos variants under
  \<open>cxx/kokkos_scratch\<close> and \<open>cxx/kokkos_basic\<close> works on the fields of one element of
  the \<open>Region\<close>, on the scratch views of the team, and on arrays local to a kernel. All
  of them live in one memory here, addressed by a field, a level and a point
  \<open>(igp, jgp)\<close>; a field without levels is kept at level 0.

  \<^item> The fields of the \<open>Region\<close> carry the names of its accessors in the source
    (\<open>m_region.U_current(ie)\<close>, \<open>m_region.PHI(ie)\<close>, \<open>m_region.QDP(ie, 0, qn0)\<close>, ...).
    The accessors \<open>X(ie)\<close> and \<open>X_update(ie)\<close> give a read-only and a writable view of
    the same field, so they are one field. kokkos_basic indexes the prognostic fields
    with the time levels \<open>nm1\<close>, \<open>n0\<close> and \<open>np1\<close>, which are the slots \<open>previous\<close>,
    \<open>current\<close> and \<open>future\<close>.
  \<^item> \<open>pressure\<close>, \<open>T_v\<close>, \<open>div_vdp\<close>, \<open>omega_p\<close>, \<open>vector_buf\<close> and \<open>c_dinv\<close> are the
    scratch views of kokkos_scratch; \<open>Ephi\<close>, \<open>vort\<close>, \<open>suml\<close> and \<open>grad_p\<close> are its
    local views.
  \<^item> \<open>PHII\<close>, \<open>vgrad_p_buf\<close>, \<open>vdp\<close>, \<open>kappa_star\<close>, \<open>eta_dot_dpdn_ie\<close>, \<open>grad_tmp\<close>,
    \<open>vgrad_T\<close>, \<open>ttens_buf\<close>, \<open>T_vadv\<close>, \<open>v_vadv\<close>, \<open>vtens1_buf\<close> and \<open>vtens2_buf\<close> are
    the local arrays of kokkos_basic (\<open>phii\<close>, \<open>vgrad_p\<close>, \<open>ttens\<close>, \<open>vtens1\<close>,
    \<open>vtens2\<close>, ...). What a local array holds before its first write is whatever the
    memory holds there.

  \<open>Real\<close> is the type of the real numbers: rounding is not part of the model. What
  is proved of a computed value is proved of the value before rounding; a strict
  order between two computed values, which rounding can turn into an equality when a
  small term is absorbed, is not stated.

  The state records every store, in order, in \<open>writes\<close>. A quotient of the source is
  preceded by \<open>divide_check\<close> of its divisor, which raises the flag \<open>div_by_zero\<close>
  when the divisor is zero: there the source computes an infinity or a NaN, and the
  value that the model goes on with is not the value of the source.
\<close>

datatype field =
    U_previous | U_current | U_future
  | V_previous | V_current | V_future
  | T_previous | T_current | T_future
  | DP3D_previous | DP3D_current | DP3D_future
  | PHI | PECND | OMEGA_P | DERIVED_UN0 | DERIVED_VN0 | ETA_DPDN
  | QDP nat int
  | PHIS | FCOR | SPHEREMP | METDET | DINV nat nat | D nat nat
  | pressure | T_v | div_vdp | omega_p | vector_buf nat | c_dinv nat nat
  | Ephi | vort | suml | grad_p nat
  | PHII | vgrad_p_buf | vdp nat | kappa_star | eta_dot_dpdn_ie | grad_tmp nat
  | vgrad_T | ttens_buf | T_vadv | v_vadv nat | vtens1_buf | vtens2_buf

type_synonym addr = "field \<times> nat \<times> nat \<times> nat"

record machine =
  mem :: "addr \<Rightarrow> real"
  writes :: "addr list"
  div_by_zero :: bool

definition load :: "machine \<Rightarrow> field \<Rightarrow> nat \<Rightarrow> nat \<Rightarrow> nat \<Rightarrow> real" where
  "load s f ilev igp jgp = mem s (f, ilev, igp, jgp)"

definition store :: "field \<Rightarrow> nat \<Rightarrow> nat \<Rightarrow> nat \<Rightarrow> real \<Rightarrow> machine \<Rightarrow> machine" where
  "store f ilev igp jgp x s =
     s\<lparr>mem := (mem s)((f, ilev, igp, jgp) := x), writes := writes s @ [(f, ilev, igp, jgp)]\<rparr>"

definition divide_check :: "real \<Rightarrow> machine \<Rightarrow> machine" where
  "divide_check d s = (if d = 0 then s\<lparr>div_by_zero := True\<rparr> else s)"

type_synonym view2 = "nat \<Rightarrow> nat \<Rightarrow> real"
type_synonym vector2 = "nat \<Rightarrow> nat \<Rightarrow> nat \<Rightarrow> real"
type_synonym tensor2 = "nat \<Rightarrow> nat \<Rightarrow> nat \<Rightarrow> nat \<Rightarrow> real"

definition subview :: "machine \<Rightarrow> field \<Rightarrow> nat \<Rightarrow> view2" where
  "subview s f ilev = (\<lambda>igp jgp. load s f ilev igp jgp)"

definition subvector :: "machine \<Rightarrow> (nat \<Rightarrow> field) \<Rightarrow> nat \<Rightarrow> vector2" where
  "subvector s F ilev = (\<lambda>h igp jgp. load s (F h) ilev igp jgp)"

definition subtensor :: "machine \<Rightarrow> (nat \<Rightarrow> nat \<Rightarrow> field) \<Rightarrow> tensor2" where
  "subtensor s F = (\<lambda>a b igp jgp. load s (F a b) 0 igp jgp)"

text \<open>
  The configuration. \<open>NP\<close> and \<open>NUM_LEV\<close> are the dimensions of \<open>Types.hpp\<close>,
  \<open>Rgas\<close>, \<open>Rwater_vapor\<close> and \<open>kappa\<close> the constants of \<open>PhysicalConstants\<close>, and
  \<open>num_elems\<close>, \<open>eta_ave_w\<close>, \<open>dt2\<close>, \<open>ps0\<close>, \<open>hybrid_a\<close> and \<open>qn0\<close> the values that
  the kernel reads from \<open>Control\<close>. The operators of \<open>sphere_operators.hpp\<close> are
  parameters too: each is a function from the views that it reads to the view that
  it writes (\<open>gradient_sphere_upd\<close>, the operator \<open>gradient_sphere_update\<close>, also reads
  the old contents of its output). These headers are not among the sources that are
  modelled here, so nothing is assumed about what an operator computes.

  \<open>quotient_by_zero x\<close> stands for what the source has for \<open>x / 0\<close>, an infinity or a
  NaN: it is a parameter about which nothing is assumed, so that the model derives
  nothing from the value of such a quotient.
\<close>

record params =
  NP :: nat
  NUM_LEV :: nat
  num_elems :: nat
  Rgas :: real
  Rwater_vapor :: real
  kappa :: real
  eta_ave_w :: real
  dt2 :: real
  ps0 :: real
  hybrid_a :: "nat \<Rightarrow> real"
  qn0 :: int
  quotient_by_zero :: "real \<Rightarrow> real"
  gradient_sphere :: "view2 \<Rightarrow> tensor2 \<Rightarrow> vector2"
  gradient_sphere_upd :: "view2 \<Rightarrow> tensor2 \<Rightarrow> vector2 \<Rightarrow> vector2"
  divergence_sphere :: "vector2 \<Rightarrow> view2 \<Rightarrow> tensor2 \<Rightarrow> view2"
  vorticity_sphere :: "view2 \<Rightarrow> view2 \<Rightarrow> view2 \<Rightarrow> tensor2 \<Rightarrow> view2"

definition NUM_LEV_P :: "params \<Rightarrow> nat" where
  "NUM_LEV_P e = NUM_LEV e + 1"

definition quotient :: "params \<Rightarrow> real \<Rightarrow> real \<Rightarrow> real" where
  "quotient e x y = (if y = 0 then quotient_by_zero e x else x / y)"

section \<open>Loops\<close>

text \<open>
  A \<open>Kokkos::parallel_for\<close> over a team, thread or vector range runs its body for the
  indices of the range in increasing order, as the Serial backend does; a team barrier
  then does nothing. (The one loop here whose iterations depend on each other without
  an order between them, the level loop of the pressure in kokkos_basic, gets its
  order as an argument.) \<open>for_points\<close> is the loop over \<open>NP * NP\<close> indices \<open>idx\<close> whose
  body gets \<open>idx / NP\<close> and \<open>idx % NP\<close>; \<open>for_down a b\<close> is
  \<open>for (ilev = a - 1; ilev >= b; --ilev)\<close>. \<open>store_view\<close> and \<open>store_vector\<close> write
  the result of an operator into its output view.
\<close>

definition parallel_for :: "nat \<Rightarrow> (nat \<Rightarrow> 's \<Rightarrow> 's) \<Rightarrow> 's \<Rightarrow> 's" where
  "parallel_for n body = fold body [0..<n]"

definition for_range :: "nat \<Rightarrow> nat \<Rightarrow> (nat \<Rightarrow> 's \<Rightarrow> 's) \<Rightarrow> 's \<Rightarrow> 's" where
  "for_range a b body = fold body [a..<b]"

definition for_down :: "nat \<Rightarrow> nat \<Rightarrow> (nat \<Rightarrow> 's \<Rightarrow> 's) \<Rightarrow> 's \<Rightarrow> 's" where
  "for_down a b body = fold body (rev [b..<a])"

definition for_points :: "nat \<Rightarrow> (nat \<Rightarrow> nat \<Rightarrow> 's \<Rightarrow> 's) \<Rightarrow> 's \<Rightarrow> 's" where
  "for_points n body = parallel_for (n * n) (\<lambda>idx. body (idx div n) (idx mod n))"

definition store_view :: "nat \<Rightarrow> field \<Rightarrow> nat \<Rightarrow> view2 \<Rightarrow> machine \<Rightarrow> machine" where
  "store_view n f ilev out = for_points n (\<lambda>igp jgp. store f ilev igp jgp (out igp jgp))"

definition store_vector :: "nat \<Rightarrow> (nat \<Rightarrow> field) \<Rightarrow> nat \<Rightarrow> vector2 \<Rightarrow> machine \<Rightarrow> machine" where
  "store_vector n F ilev out = for_range 0 2 (\<lambda>h. store_view n (F h) ilev (out h))"

section \<open>kokkos_scratch: update_state\<close>

text \<open>
  The functor \<open>update_state\<close> of \<open>kokkos_scratch/compute_and_apply_rhs.cpp\<close>, one
  definition for each member function, and one (\<open>..._point\<close>, \<open>..._level\<close>) for each
  lambda that a loop runs. \<open>compute_and_apply_rhs\<close> runs the functor once for each
  element of the region.
\<close>

definition init_const_cache :: "params \<Rightarrow> machine \<Rightarrow> machine" where
  "init_const_cache e =
     for_points (NP e) (\<lambda>hgp igp.
       for_range 0 2 (\<lambda>jgp.
         for_range 0 2 (\<lambda>kgp s.
           store (c_dinv jgp kgp) 0 hgp igp (load s (DINV jgp kgp) 0 hgp igp) s)))"

definition temperature_no_tracers_point :: "nat \<Rightarrow> nat \<Rightarrow> nat \<Rightarrow> machine \<Rightarrow> machine" where
  "temperature_no_tracers_point ilev igp jgp s =
     store T_v ilev igp jgp (load s T_current ilev igp jgp) s"

definition compute_temperature_no_tracers_helper :: "params \<Rightarrow> nat \<Rightarrow> machine \<Rightarrow> machine" where
  "compute_temperature_no_tracers_helper e ilev =
     for_points (NP e) (temperature_no_tracers_point ilev)"

definition temperature_tracers_point :: "params \<Rightarrow> nat \<Rightarrow> nat \<Rightarrow> nat \<Rightarrow> machine \<Rightarrow> machine" where
  "temperature_tracers_point e ilev igp jgp s =
     (let s = divide_check (load s DP3D_current ilev igp jgp) s;
          Qt = quotient e (load s (QDP 0 (qn0 e)) ilev igp jgp)
                 (load s DP3D_current ilev igp jgp);
          s = divide_check (Rgas e) s
      in store T_v ilev igp jgp
           (load s T_current ilev igp jgp
            * (1.0 + (quotient e (Rwater_vapor e) (Rgas e) - 1.0) * Qt)) s)"

definition compute_temperature_tracers_helper :: "params \<Rightarrow> nat \<Rightarrow> machine \<Rightarrow> machine" where
  "compute_temperature_tracers_helper e ilev =
     for_points (NP e) (temperature_tracers_point e ilev)"

definition div_vdp_point :: "params \<Rightarrow> nat \<Rightarrow> nat \<Rightarrow> nat \<Rightarrow> machine \<Rightarrow> machine" where
  "div_vdp_point e ilev igp jgp s =
     (let v1 = load s U_current ilev igp jgp;
          v2 = load s V_current ilev igp jgp;
          s = store (vector_buf 0) ilev igp jgp (v1 * load s DP3D_current ilev igp jgp) s;
          s = store (vector_buf 1) ilev igp jgp (v2 * load s DP3D_current ilev igp jgp) s;
          s = store DERIVED_UN0 ilev igp jgp
                (load s DERIVED_UN0 ilev igp jgp
                 + eta_ave_w e * load s (vector_buf 0) ilev igp jgp) s
      in store DERIVED_VN0 ilev igp jgp
           (load s DERIVED_VN0 ilev igp jgp
            + eta_ave_w e * load s (vector_buf 1) ilev igp jgp) s)"

definition compute_div_vdp :: "params \<Rightarrow> nat \<Rightarrow> machine \<Rightarrow> machine" where
  "compute_div_vdp e ilev s =
     (let s = for_points (NP e) (div_vdp_point e ilev) s
      in store_view (NP e) div_vdp ilev
           (divergence_sphere e (subvector s vector_buf ilev) (subview s METDET 0)
              (subtensor s c_dinv)) s)"

definition compute_temperature_div_vdp :: "params \<Rightarrow> machine \<Rightarrow> machine" where
  "compute_temperature_div_vdp e =
     (if qn0 e = -1
      then parallel_for (NUM_LEV e) (\<lambda>ilev s.
             compute_div_vdp e ilev (compute_temperature_no_tracers_helper e ilev s))
      else parallel_for (NUM_LEV e) (\<lambda>ilev s.
             compute_div_vdp e ilev (compute_temperature_tracers_helper e ilev s)))"

definition compute_pressure :: "params \<Rightarrow> machine \<Rightarrow> machine" where
  "compute_pressure e s =
     (let s = for_points (NP e) (\<lambda>igp jgp s.
                store pressure 0 igp jgp
                  (hybrid_a e 0 * ps0 e + 0.5 * load s DP3D_current 0 igp jgp) s) s
      in for_range 1 (NUM_LEV e) (\<lambda>ilev.
           for_points (NP e) (\<lambda>igp jgp s.
             store pressure ilev igp jgp
               (load s pressure (ilev - 1) igp jgp
                + 0.5 * (load s DP3D_current (ilev - 1) igp jgp
                         + load s DP3D_current ilev igp jgp)) s)) s)"

definition hydrostatic_bottom :: "params \<Rightarrow> nat \<Rightarrow> nat \<Rightarrow> machine \<Rightarrow> real \<times> machine" where
  "hydrostatic_bottom e igp jgp s =
     (let s = divide_check (load s pressure (NUM_LEV e - 1) igp jgp) s;
          hk = load s DP3D_current (NUM_LEV e - 1) igp jgp
               / load s pressure (NUM_LEV e - 1) igp jgp;
          phii = Rgas e * load s T_v (NUM_LEV e - 1) igp jgp * hk
      in (phii, store PHI (NUM_LEV e - 1) igp jgp (load s PHIS 0 igp jgp + phii * 0.5) s))"

definition hydrostatic_level :: "params \<Rightarrow> nat \<Rightarrow> nat \<Rightarrow> nat \<Rightarrow> real \<times> machine \<Rightarrow> real \<times> machine" where
  "hydrostatic_level e igp jgp ilev = (\<lambda>(phii, s).
     let s = divide_check (load s pressure ilev igp jgp) s;
         hk = load s DP3D_current ilev igp jgp / load s pressure ilev igp jgp;
         lev_term = Rgas e * load s T_v ilev igp jgp * hk;
         s = store PHI ilev igp jgp (load s PHIS 0 igp jgp + phii + lev_term * 0.5) s
     in (phii + lev_term, s))"

definition hydrostatic_top :: "params \<Rightarrow> nat \<Rightarrow> nat \<Rightarrow> real \<times> machine \<Rightarrow> machine" where
  "hydrostatic_top e igp jgp = (\<lambda>(phii, s).
     let s = divide_check (load s pressure 0 igp jgp) s;
         hk = 0.5 * load s DP3D_current 0 igp jgp / load s pressure 0 igp jgp
     in store PHI 0 igp jgp
          (load s PHIS 0 igp jgp + phii + Rgas e * load s T_v 0 igp jgp * hk) s)"

definition hydrostatic_point :: "params \<Rightarrow> nat \<Rightarrow> nat \<Rightarrow> machine \<Rightarrow> machine" where
  "hydrostatic_point e igp jgp s =
     hydrostatic_top e igp jgp
       (for_down (NUM_LEV e - 1) 1 (hydrostatic_level e igp jgp)
          (hydrostatic_bottom e igp jgp s))"

definition preq_hydrostatic :: "params \<Rightarrow> machine \<Rightarrow> machine" where
  "preq_hydrostatic e =
     for_range 0 (NP e) (\<lambda>igp. for_range 0 (NP e) (\<lambda>jgp. hydrostatic_point e igp jgp))"

definition vgrad_p :: "nat \<Rightarrow> nat \<Rightarrow> nat \<Rightarrow> machine \<Rightarrow> real" where
  "vgrad_p ilev igp jgp s =
     load s U_current ilev igp jgp * load s (grad_p 0) 0 igp jgp
     + load s V_current ilev igp jgp * load s (grad_p 1) 0 igp jgp"

definition omega_ps_init_point :: "nat \<Rightarrow> nat \<Rightarrow> machine \<Rightarrow> machine" where
  "omega_ps_init_point igp jgp s =
     (let vgrad = vgrad_p 0 igp jgp s;
          s = divide_check (load s pressure 0 igp jgp) s;
          ckk = 0.5 / load s pressure 0 igp jgp;
          term = load s div_vdp 0 igp jgp;
          s = store omega_p 0 igp jgp (vgrad / load s pressure 0 igp jgp - ckk * term) s
      in store suml 0 igp jgp term s)"

definition preq_omega_ps_init :: "params \<Rightarrow> machine \<Rightarrow> machine" where
  "preq_omega_ps_init e s =
     (let s = store_vector (NP e) grad_p 0
                (gradient_sphere e (subview s pressure 0) (subtensor s c_dinv)) s
      in for_points (NP e) (\<lambda>jgp igp. omega_ps_init_point igp jgp) s)"

definition omega_ps_loop_point :: "nat \<Rightarrow> nat \<Rightarrow> nat \<Rightarrow> machine \<Rightarrow> machine" where
  "omega_ps_loop_point ilev igp jgp s =
     (let vgrad = vgrad_p ilev igp jgp s;
          s = divide_check (load s pressure ilev igp jgp) s;
          ckk = 0.5 / load s pressure ilev igp jgp;
          ckl = 2.0 * ckk;
          term = load s div_vdp ilev igp jgp;
          s = store omega_p ilev igp jgp
                (vgrad / load s pressure ilev igp jgp
                 - ckl * load s suml 0 igp jgp - ckk * term) s
      in store suml 0 igp jgp (load s suml 0 igp jgp + term) s)"

definition omega_ps_level :: "params \<Rightarrow> nat \<Rightarrow> machine \<Rightarrow> machine" where
  "omega_ps_level e ilev s =
     (let s = store_vector (NP e) grad_p 0
                (gradient_sphere e (subview s pressure ilev) (subtensor s c_dinv)) s
      in for_points (NP e) (\<lambda>jgp igp. omega_ps_loop_point ilev igp jgp) s)"

definition preq_omega_ps_loop :: "params \<Rightarrow> machine \<Rightarrow> machine" where
  "preq_omega_ps_loop e = for_range 1 (NUM_LEV e - 1) (omega_ps_level e)"

definition omega_ps_tail_point :: "params \<Rightarrow> nat \<Rightarrow> nat \<Rightarrow> machine \<Rightarrow> machine" where
  "omega_ps_tail_point e igp jgp s =
     (let vgrad = vgrad_p (NUM_LEV e - 1) igp jgp s;
          s = divide_check (load s pressure (NUM_LEV e - 1) igp jgp) s;
          ckk = 0.5 / load s pressure (NUM_LEV e - 1) igp jgp;
          ckl = 2.0 * ckk;
          term = load s div_vdp (NUM_LEV e - 1) igp jgp
      in store omega_p (NUM_LEV e - 1) igp jgp
           (vgrad / load s pressure (NUM_LEV e - 1) igp jgp
            - ckl * load s suml 0 igp jgp - ckk * term) s)"

definition preq_omega_ps_tail :: "params \<Rightarrow> machine \<Rightarrow> machine" where
  "preq_omega_ps_tail e s =
     (let s = store_vector (NP e) grad_p 0
                (gradient_sphere e (subview s pressure (NUM_LEV e - 1)) (subtensor s c_dinv)) s
      in for_points (NP e) (\<lambda>jgp igp. omega_ps_tail_point e igp jgp) s)"

definition preq_omega_ps :: "params \<Rightarrow> machine \<Rightarrow> machine" where
  "preq_omega_ps e s =
     preq_omega_ps_tail e (preq_omega_ps_loop e (preq_omega_ps_init e s))"

definition compute_scan_properties :: "params \<Rightarrow> machine \<Rightarrow> machine" where
  "compute_scan_properties e s =
     preq_omega_ps e (preq_hydrostatic e (compute_pressure e s))"

definition energy_point :: "nat \<Rightarrow> nat \<Rightarrow> nat \<Rightarrow> machine \<Rightarrow> machine" where
  "energy_point ilev igp jgp s =
     (let s = store Ephi 0 0 0 (load s U_current ilev igp jgp) s;
          s = store Ephi 0 0 1 (load s V_current ilev igp jgp) s
      in store Ephi 0 igp jgp
           (0.5 * (load s Ephi 0 0 0 * load s Ephi 0 0 0
                   + load s Ephi 0 0 1 * load s Ephi 0 0 1)
            + load s PHI ilev igp jgp + load s PECND ilev igp jgp) s)"

definition compute_energy_grad :: "params \<Rightarrow> nat \<Rightarrow> machine \<Rightarrow> machine" where
  "compute_energy_grad e ilev s =
     (let s = for_points (NP e) (energy_point ilev) s
      in store_vector (NP e) vector_buf ilev
           (gradient_sphere_upd e (subview s Ephi 0) (subtensor s c_dinv)
              (subvector s vector_buf ilev)) s)"

definition gpterm_point :: "params \<Rightarrow> nat \<Rightarrow> nat \<Rightarrow> machine \<Rightarrow> machine" where
  "gpterm_point e ilev idx s =
     (let hgp = (idx div NP e) div NP e;
          igp = (idx div NP e) mod NP e;
          jgp = idx mod NP e;
          s = divide_check (load s pressure ilev igp jgp) s;
          gpterm = load s T_v ilev igp jgp / load s pressure ilev igp jgp
      in store (vector_buf hgp) ilev igp jgp
           (load s (vector_buf hgp) ilev igp jgp * (Rgas e * gpterm)) s)"

definition vtens1 :: "nat \<Rightarrow> nat \<Rightarrow> nat \<Rightarrow> machine \<Rightarrow> real" where
  "vtens1 ilev igp jgp s =
     load s V_current ilev igp jgp * load s vort 0 igp jgp - load s (vector_buf 0) ilev igp jgp"

definition vtens2 :: "nat \<Rightarrow> nat \<Rightarrow> nat \<Rightarrow> machine \<Rightarrow> real" where
  "vtens2 ilev igp jgp s =
     - load s U_current ilev igp jgp * load s vort 0 igp jgp - load s (vector_buf 1) ilev igp jgp"

definition velocity_point :: "params \<Rightarrow> nat \<Rightarrow> nat \<Rightarrow> nat \<Rightarrow> machine \<Rightarrow> machine" where
  "velocity_point e ilev igp jgp s =
     (let s = store vort 0 igp jgp (load s vort 0 igp jgp + load s FCOR 0 igp jgp) s;
          s = store U_future ilev igp jgp
                (load s SPHEREMP 0 igp jgp
                 * (load s U_previous ilev igp jgp + dt2 e * vtens1 ilev igp jgp s)) s
      in store V_future ilev igp jgp
           (load s SPHEREMP 0 igp jgp
            * (load s V_previous ilev igp jgp + dt2 e * vtens2 ilev igp jgp s)) s)"

definition compute_velocity :: "params \<Rightarrow> nat \<Rightarrow> machine \<Rightarrow> machine" where
  "compute_velocity e ilev s =
     (let s = store_vector (NP e) vector_buf ilev
                (gradient_sphere e (subview s pressure ilev) (subtensor s c_dinv)) s;
          s = parallel_for (2 * NP e * NP e) (gpterm_point e ilev) s;
          s = compute_energy_grad e ilev s;
          s = store_view (NP e) vort 0
                (vorticity_sphere e (subview s U_current ilev) (subview s V_current ilev)
                   (subview s METDET 0) (subtensor s D)) s
      in for_points (NP e) (velocity_point e ilev) s)"

definition eta_dpdn_point :: "params \<Rightarrow> nat \<Rightarrow> nat \<Rightarrow> nat \<Rightarrow> machine \<Rightarrow> machine" where
  "eta_dpdn_point e ilev igp jgp s =
     (let eta_dot_dpdn_ie = 0.0
      in store ETA_DPDN ilev igp jgp
           (load s ETA_DPDN ilev igp jgp + eta_ave_w e * eta_dot_dpdn_ie) s)"

definition compute_eta_dpdn :: "params \<Rightarrow> nat \<Rightarrow> machine \<Rightarrow> machine" where
  "compute_eta_dpdn e ilev = for_points (NP e) (eta_dpdn_point e ilev)"

definition compute_velocity_eta_dpdn :: "params \<Rightarrow> machine \<Rightarrow> machine" where
  "compute_velocity_eta_dpdn e =
     parallel_for (NUM_LEV e) (\<lambda>ilev s. compute_eta_dpdn e ilev (compute_velocity e ilev s))"

definition ttens :: "params \<Rightarrow> nat \<Rightarrow> nat \<Rightarrow> nat \<Rightarrow> machine \<Rightarrow> real" where
  "ttens e ilev igp jgp s =
     0.0 - (load s U_current ilev igp jgp * load s (vector_buf 0) ilev igp jgp
            + load s V_current ilev igp jgp * load s (vector_buf 1) ilev igp jgp)
     + kappa e * load s T_v ilev igp jgp * load s omega_p ilev igp jgp"

definition stuff_point :: "params \<Rightarrow> nat \<Rightarrow> nat \<Rightarrow> nat \<Rightarrow> machine \<Rightarrow> machine" where
  "stuff_point e ilev igp jgp s =
     (let s = store OMEGA_P ilev igp jgp
                (load s OMEGA_P ilev igp jgp + eta_ave_w e * load s omega_p ilev igp jgp) s;
          s = store T_future ilev igp jgp
                (load s SPHEREMP 0 igp jgp
                 * (load s T_previous ilev igp jgp + dt2 e * ttens e ilev igp jgp s)) s
      in store DP3D_future ilev igp jgp
           (load s SPHEREMP 0 igp jgp
            * (load s DP3D_previous ilev igp jgp - dt2 e * load s div_vdp ilev igp jgp)) s)"

definition compute_stuff :: "params \<Rightarrow> machine \<Rightarrow> machine" where
  "compute_stuff e =
     parallel_for (NUM_LEV e) (\<lambda>ilev s.
       let s = store_vector (NP e) vector_buf ilev
                 (gradient_sphere e (subview s T_current ilev) (subtensor s c_dinv)) s
       in for_points (NP e) (stuff_point e ilev) s)"

definition update_state :: "params \<Rightarrow> machine \<Rightarrow> machine" where
  "update_state e s =
     compute_stuff e
       (compute_velocity_eta_dpdn e
          (compute_scan_properties e
             (compute_temperature_div_vdp e
                (init_const_cache e s))))"

definition compute_and_apply_rhs :: "params \<Rightarrow> (nat \<Rightarrow> machine) \<Rightarrow> nat \<Rightarrow> machine" where
  "compute_and_apply_rhs e =
     parallel_for (num_elems e) (\<lambda>ie region. region(ie := update_state e (region ie)))"

section \<open>kokkos_basic: compute_and_apply_rhs\<close>

text \<open>
  The loops of \<open>kokkos_basic/compute_and_apply_rhs.cpp\<close> that the properties below are
  about, named \<open>basic_...\<close>: the pressure loop, \<open>preq_hydrostatic\<close> (the overload for a
  team and the serial one), the two loops over \<open>NUM_LEV_P\<close> levels and the leapfrog
  loop at the end of the kernel. The views \<open>p\<close>, \<open>T_v\<close>, \<open>omega_p\<close>, ... of this
  variant are allocated once, before the loop over the elements, and are the same
  for every team; one element is modelled here.
\<close>

text \<open>
  The pressure loop of kokkos_basic. Level 0 is written by two plain loops over the
  points. The loop over the levels is a \<open>Kokkos::parallel_for\<close> over a
  \<open>TeamThreadRange\<close> whose iteration \<open>ilev\<close> writes \<open>p(ilev + 1)\<close> from \<open>p(ilev)\<close>, which
  is what iteration \<open>ilev - 1\<close> writes; the iterations are handed to the threads of
  the team and nothing orders them. So the order in which they take effect is an
  argument of \<open>basic_pressure\<close>: a list \<open>order\<close> with \<open>level_schedule e order\<close>. (Each
  iteration is taken as a whole here; iterations that overlap in time are not
  modelled.)
\<close>

definition basic_pressure_top :: "params \<Rightarrow> machine \<Rightarrow> machine" where
  "basic_pressure_top e =
     for_range 0 (NP e) (\<lambda>igp.
       for_range 0 (NP e) (\<lambda>jgp s.
         store pressure 0 igp jgp
           (hybrid_a e 0 * ps0 e + 0.5 * load s DP3D_current 0 igp jgp) s))"

definition basic_pressure_level :: "params \<Rightarrow> nat \<Rightarrow> machine \<Rightarrow> machine" where
  "basic_pressure_level e ilev =
     for_points (NP e) (\<lambda>igp jgp s.
       store pressure (ilev + 1) igp jgp
         (load s pressure ilev igp jgp
          + 0.5 * load s DP3D_current ilev igp jgp
          + 0.5 * load s DP3D_current (ilev + 1) igp jgp) s)"

definition level_schedule :: "params \<Rightarrow> nat list \<Rightarrow> bool" where
  "level_schedule e order \<longleftrightarrow> distinct order \<and> set order = {0..<NUM_LEV e - 1}"

definition basic_pressure :: "params \<Rightarrow> nat list \<Rightarrow> machine \<Rightarrow> machine" where
  "basic_pressure e order s = fold (basic_pressure_level e) order (basic_pressure_top e s)"

section \<open>Columns\<close>

definition pressure_obs :: "nat \<Rightarrow> nat \<Rightarrow> machine \<Rightarrow> (nat \<Rightarrow> real) \<times> (nat \<Rightarrow> real)" where
  "pressure_obs i j s = (\<lambda>l. load s pressure l i j, \<lambda>l. load s DP3D_current l i j)"

definition pressure_top :: "real \<Rightarrow> (nat \<Rightarrow> real) \<times> (nat \<Rightarrow> real) \<Rightarrow> (nat \<Rightarrow> real) \<times> (nat \<Rightarrow> real)" where
  "pressure_top a = (\<lambda>(p, d). (p(0 := a + 0.5 * d 0), d))"

definition pressure_next :: "nat \<Rightarrow> (nat \<Rightarrow> real) \<times> (nat \<Rightarrow> real) \<Rightarrow> (nat \<Rightarrow> real) \<times> (nat \<Rightarrow> real)" where
  "pressure_next l = (\<lambda>(p, d). (p(l := p (l - 1) + 0.5 * (d (l - 1) + d l)), d))"

section \<open>A small configuration\<close>

text \<open>
  One point, three levels, two elements, and operators that are easy to compute by
  hand. The memory holds 2.0 everywhere, but for 1000.0 in the local array \<open>phii\<close> of
  kokkos_basic and 3.0 in its \<open>vtens2\<close>.
\<close>

definition example_params :: params where
  "example_params = \<lparr>NP = 1, NUM_LEV = 3, num_elems = 2, Rgas = 2, Rwater_vapor = 3, kappa = 1/4,
     eta_ave_w = 1, dt2 = 1/2, ps0 = 4, hybrid_a = (\<lambda>k. 1/4), qn0 = -1,
     quotient_by_zero = (\<lambda>x. 1),
     gradient_sphere = (\<lambda>v dinv h i j. real (h + 1) * v i j),
     gradient_sphere_upd = (\<lambda>v dinv old h i j. old h i j + v i j),
     divergence_sphere = (\<lambda>v metdet dinv i j. v 0 i j + v 1 i j),
     vorticity_sphere = (\<lambda>u v metdet d i j. v i j - u i j)\<rparr>"

definition example_state :: machine where
  "example_state = \<lparr>mem = (\<lambda>a. if fst a = PHII then 1000
                                 else if fst a = vtens2_buf then 3 else 2),
                     writes = [], div_by_zero = False\<rparr>"

section \<open>Columns and the hydrostatic increment\<close>

definition in_column :: "nat \<Rightarrow> nat \<Rightarrow> addr \<Rightarrow> bool" where
  "in_column i j a = (case a of (f, l, i', j') \<Rightarrow> i' = i \<and> j' = j)"

definition column :: "nat \<Rightarrow> nat \<Rightarrow> machine \<Rightarrow> machine" where
  "column i j s = \<lparr>mem = (\<lambda>a. if in_column i j a then mem s a else 0),
                   writes = filter (in_column i j) (writes s),
                   div_by_zero = False\<rparr>"

definition hydrostatic_increment :: "params \<Rightarrow> machine \<Rightarrow> nat \<Rightarrow> nat \<Rightarrow> nat \<Rightarrow> real" where
  "hydrostatic_increment e s l i j =
     Rgas e * load s T_v l i j * (load s DP3D_current l i j / load s pressure l i j)"

definition hydrostatic_done :: "params \<Rightarrow> nat \<Rightarrow> nat \<Rightarrow> machine \<Rightarrow> nat \<Rightarrow> real \<times> machine \<Rightarrow> bool" where
  "hydrostatic_done e i j s l ps \<longleftrightarrow>
     fst ps = (\<Sum>k = l..<NUM_LEV e. hydrostatic_increment e s k i j)
     \<and> (\<forall>k. l \<le> k \<and> k < NUM_LEV e \<longrightarrow>
           load (snd ps) PHI k i j
             = load s PHIS 0 i j + (\<Sum>m = Suc k..<NUM_LEV e. hydrostatic_increment e s m i j)
               + 0.5 * hydrostatic_increment e s k i j)
     \<and> (\<forall>a. (\<forall>k. l \<le> k \<and> k < NUM_LEV e \<longrightarrow> a \<noteq> (PHI, k, i, j)) \<longrightarrow> mem (snd ps) a = mem s a)
     \<and> writes (snd ps) = writes s @ map (\<lambda>k. (PHI, k, i, j)) (rev [l..<NUM_LEV e])"

section \<open>kokkos_basic: preq_hydrostatic\<close>

definition basic_hydrostatic_bottom :: "params \<Rightarrow> nat \<Rightarrow> nat \<Rightarrow> machine \<Rightarrow> machine" where
  "basic_hydrostatic_bottom e igp jgp s =
     (let s = divide_check (load s pressure (NUM_LEV e - 1) igp jgp) s;
          hkk = 0.5 * load s DP3D_current (NUM_LEV e - 1) igp jgp
                / load s pressure (NUM_LEV e - 1) igp jgp;
          hkl = 2.0 * hkk;
          s = store PHII (NUM_LEV e - 1) igp jgp
                (Rgas e * load s T_v (NUM_LEV e - 1) igp jgp * hkl) s
      in store PHI (NUM_LEV e - 1) igp jgp
           (load s PHIS 0 igp jgp + Rgas e * load s T_v (NUM_LEV e - 1) igp jgp * hkk) s)"

definition basic_hydrostatic_level :: "params \<Rightarrow> nat \<Rightarrow> nat \<Rightarrow> nat \<Rightarrow> machine \<Rightarrow> machine" where
  "basic_hydrostatic_level e igp jgp ilev s =
     (let s = divide_check (load s pressure ilev igp jgp) s;
          hkk = 0.5 * load s DP3D_current ilev igp jgp / load s pressure ilev igp jgp;
          hkl = 2.0 * hkk;
          s = store PHII ilev igp jgp
                (load s PHII (ilev + 1) igp jgp + Rgas e * load s T_v ilev igp jgp * hkl) s
      in store PHI ilev igp jgp
           (load s PHIS 0 igp jgp + load s PHII (ilev + 1) igp jgp
            + Rgas e * load s T_v ilev igp jgp * hkk) s)"

definition basic_hydrostatic_top :: "params \<Rightarrow> nat \<Rightarrow> nat \<Rightarrow> machine \<Rightarrow> machine" where
  "basic_hydrostatic_top e igp jgp s =
     (let s = divide_check (load s pressure 0 igp jgp) s;
          hkk = 0.5 * load s DP3D_current 0 igp jgp / load s pressure 0 igp jgp
      in store PHI 0 igp jgp
           (load s PHIS 0 igp jgp + load s PHII 1 igp jgp
            + Rgas e * load s T_v 0 igp jgp * hkk) s)"

definition basic_hydrostatic_point :: "params \<Rightarrow> nat \<Rightarrow> nat \<Rightarrow> machine \<Rightarrow> machine" where
  "basic_hydrostatic_point e igp jgp s =
     basic_hydrostatic_top e igp jgp
       (for_down (NUM_LEV e - 1) 2 (basic_hydrostatic_level e igp jgp)
          (basic_hydrostatic_bottom e igp jgp s))"

definition basic_preq_hydrostatic_team :: "params \<Rightarrow> machine \<Rightarrow> machine" where
  "basic_preq_hydrostatic_team e =
     for_points (NP e) (\<lambda>jgp igp. basic_hydrostatic_point e igp jgp)"

definition basic_preq_hydrostatic :: "params \<Rightarrow> machine \<Rightarrow> machine" where
  "basic_preq_hydrostatic e =
     for_range 0 (NP e) (\<lambda>jgp s.
       let s = for_range 0 (NP e) (\<lambda>igp. basic_hydrostatic_bottom e igp jgp) s;
           s = for_down (NUM_LEV e - 1) 2 (\<lambda>ilev.
                 for_range 0 (NP e) (\<lambda>igp. basic_hydrostatic_level e igp jgp ilev)) s
       in for_range 0 (NP e) (\<lambda>igp. basic_hydrostatic_top e igp jgp) s)"

definition levels_written :: "field \<Rightarrow> nat \<Rightarrow> nat \<Rightarrow> machine \<Rightarrow> nat list" where
  "levels_written f i j s =
     map (\<lambda>a. fst (snd a)) (filter (\<lambda>a. fst a = f \<and> in_column i j a) (writes s))"

definition basic_hydrostatic_done :: "params \<Rightarrow> nat \<Rightarrow> nat \<Rightarrow> machine \<Rightarrow> nat \<Rightarrow> machine \<Rightarrow> bool" where
  "basic_hydrostatic_done e i j s l s' \<longleftrightarrow>
     (\<forall>a. (\<forall>k. l \<le> k \<and> k < NUM_LEV e \<longrightarrow> a \<noteq> (PHI, k, i, j) \<and> a \<noteq> (PHII, k, i, j))
          \<longrightarrow> mem s' a = mem s a)
     \<and> writes s' = writes s
          @ concat (map (\<lambda>k. [(PHII, k, i, j), (PHI, k, i, j)]) (rev [l..<NUM_LEV e]))"

section \<open>The omega-ps scan in closed form\<close>

definition unchanged_except :: "field set \<Rightarrow> machine \<Rightarrow> machine \<Rightarrow> bool" where
  "unchanged_except F s s' \<longleftrightarrow> (\<forall>a. fst a \<notin> F \<longrightarrow> mem s' a = mem s a)"

definition omega_fields :: "field set" where
  "omega_fields = {omega_p, suml, grad_p 0, grad_p 1}"

definition omega_vgrad :: "params \<Rightarrow> machine \<Rightarrow> nat \<Rightarrow> nat \<Rightarrow> nat \<Rightarrow> real" where
  "omega_vgrad e s l i j =
     load s U_current l i j
       * gradient_sphere e (subview s pressure l) (subtensor s c_dinv) 0 i j
     + load s V_current l i j
       * gradient_sphere e (subview s pressure l) (subtensor s c_dinv) 1 i j"

definition omega_ps_value :: "params \<Rightarrow> machine \<Rightarrow> nat \<Rightarrow> nat \<Rightarrow> nat \<Rightarrow> real" where
  "omega_ps_value e s l i j =
     omega_vgrad e s l i j / load s pressure l i j
     - 2.0 * (0.5 / load s pressure l i j) * (\<Sum>m<l. load s div_vdp m i j)
     - 0.5 / load s pressure l i j * load s div_vdp l i j"

definition omega_done :: "params \<Rightarrow> machine \<Rightarrow> nat \<Rightarrow> machine \<Rightarrow> bool" where
  "omega_done e s k s' \<longleftrightarrow>
     unchanged_except omega_fields s s'
     \<and> (\<forall>i<NP e. \<forall>j<NP e.
           load s' suml 0 i j = (\<Sum>m<k. load s div_vdp m i j)
           \<and> (\<forall>l<k. load s' omega_p l i j = omega_ps_value e s l i j))"

section \<open>kokkos_basic: the leapfrog loop\<close>

definition basic_leapfrog_point :: "params \<Rightarrow> nat \<Rightarrow> nat \<Rightarrow> nat \<Rightarrow> machine \<Rightarrow> machine" where
  "basic_leapfrog_point e ilev igp jgp s =
     (let s = store U_future ilev igp jgp
                (load s SPHEREMP 0 igp jgp
                 * (load s U_previous ilev igp jgp + dt2 e * load s vtens1_buf ilev igp jgp)) s;
          s = store V_future ilev igp jgp
                (load s SPHEREMP 0 igp jgp
                 * (load s V_previous ilev igp jgp + dt2 e * load s vtens1_buf ilev igp jgp)) s;
          s = store T_future ilev igp jgp
                (load s SPHEREMP 0 igp jgp
                 * (load s T_previous ilev igp jgp + dt2 e * load s ttens_buf ilev igp jgp)) s
      in store DP3D_future ilev igp jgp
           (load s SPHEREMP 0 igp jgp
            * (load s DP3D_previous ilev igp jgp + dt2 e * load s div_vdp ilev igp jgp)) s)"

definition basic_leapfrog :: "params \<Rightarrow> machine \<Rightarrow> machine" where
  "basic_leapfrog e =
     parallel_for (NUM_LEV e) (\<lambda>ilev. for_points (NP e) (basic_leapfrog_point e ilev))"

definition at_point :: "nat \<Rightarrow> nat \<Rightarrow> nat \<Rightarrow> machine \<Rightarrow> field \<Rightarrow> real" where
  "at_point l i j s f = (if f = SPHEREMP then load s f 0 i j else load s f l i j)"

definition dp3d_obs :: "nat \<Rightarrow> nat \<Rightarrow> nat \<Rightarrow> machine \<Rightarrow> real \<times> real \<times> real \<times> real" where
  "dp3d_obs l i j s =
     (load s DP3D_future l i j, load s SPHEREMP 0 i j, load s DP3D_previous l i j,
      load s div_vdp l i j)"

section \<open>Fields written by the stages of update_state\<close>

definition stable :: "field set \<Rightarrow> (machine \<Rightarrow> bool) \<Rightarrow> bool" where
  "stable F P \<longleftrightarrow>
     (\<forall>f l i j x s. f \<in> F \<longrightarrow> P s \<longrightarrow> P (store f l i j x s))
     \<and> (\<forall>d s. P s \<longrightarrow> P (divide_check d s))"

definition cache_fields :: "field set" where
  "cache_fields = {f. \<exists>a b. f = c_dinv a b}"

definition div_vdp_fields :: "field set" where
  "div_vdp_fields = {DERIVED_UN0, DERIVED_VN0, div_vdp} \<union> range vector_buf"

definition velocity_fields :: "field set" where
  "velocity_fields = {Ephi, vort, U_future, V_future} \<union> range vector_buf"

definition stuff_fields :: "field set" where
  "stuff_fields = {OMEGA_P, T_future, DP3D_future} \<union> range vector_buf"

definition update_state_fields :: "field set" where
  "update_state_fields =
     cache_fields \<union> {T_v} \<union> div_vdp_fields \<union> {pressure} \<union> {PHI} \<union> omega_fields
     \<union> velocity_fields \<union> {ETA_DPDN} \<union> stuff_fields"

section \<open>kokkos_basic: the loops over NUM_LEV_P\<close>

definition basic_eta_omega_point :: "params \<Rightarrow> nat \<Rightarrow> nat \<Rightarrow> nat \<Rightarrow> machine \<Rightarrow> machine" where
  "basic_eta_omega_point e ilev igp jgp s =
     (let s = store ETA_DPDN ilev igp jgp
                (load s ETA_DPDN ilev igp jgp
                 + eta_ave_w e * load s eta_dot_dpdn_ie ilev igp jgp) s
      in store OMEGA_P ilev igp jgp
           (load s OMEGA_P ilev igp jgp + eta_ave_w e * load s omega_p ilev igp jgp) s)"

definition basic_eta_omega :: "params \<Rightarrow> machine \<Rightarrow> machine" where
  "basic_eta_omega e =
     parallel_for (NUM_LEV_P e) (\<lambda>ilev. for_points (NP e) (basic_eta_omega_point e ilev))"

definition basic_tendency_point :: "params \<Rightarrow> nat \<Rightarrow> nat \<Rightarrow> nat \<Rightarrow> machine \<Rightarrow> machine" where
  "basic_tendency_point e ilev igp jgp s =
     (let s = divide_check (load s pressure ilev igp jgp) s;
          gpterm = load s T_v ilev igp jgp / load s pressure ilev igp jgp;
          glnps1 = Rgas e * gpterm * load s (grad_p 0) ilev igp jgp;
          glnps2 = Rgas e * gpterm * load s (grad_p 1) ilev igp jgp;
          v1 = load s U_current ilev igp jgp;
          v2 = load s V_current ilev igp jgp;
          s = store vtens1_buf ilev igp jgp
                (load s (v_vadv 0) ilev igp jgp
                 + v2 * (load s FCOR 0 igp jgp + load s vort ilev igp jgp)
                 - load s (grad_tmp 0) 0 igp jgp - glnps1) s;
          s = store vtens2_buf ilev igp jgp
                (load s (v_vadv 1) ilev igp jgp
                 - v1 * (load s FCOR 0 igp jgp + load s vort ilev igp jgp)
                 - load s (grad_tmp 0) 0 igp jgp - glnps2) s
      in store ttens_buf ilev igp jgp
           (load s T_vadv ilev igp jgp - load s vgrad_T 0 igp jgp
            + load s kappa_star ilev igp jgp * load s T_v ilev igp jgp
              * load s omega_p ilev igp jgp) s)"

definition basic_tendency_level :: "params \<Rightarrow> nat \<Rightarrow> machine \<Rightarrow> machine" where
  "basic_tendency_level e ilev s =
     (let s = for_points (NP e) (\<lambda>igp jgp s.
                let v1 = load s U_current ilev igp jgp;
                    v2 = load s V_current ilev igp jgp
                in store Ephi 0 igp jgp
                     (0.5 * (v1 * v1 + v2 * v2) + load s PHI ilev igp jgp
                      + load s PECND ilev igp jgp) s) s;
          s = store_vector (NP e) grad_tmp 0
                (gradient_sphere e (subview s T_current ilev) (subtensor s DINV)) s;
          s = for_points (NP e) (\<lambda>igp jgp s.
                let v1 = load s U_current ilev igp jgp;
                    v2 = load s V_current ilev igp jgp
                in store vgrad_T 0 igp jgp
                     (v1 * load s (grad_tmp 0) 0 igp jgp + v2 * load s (grad_tmp 1) 0 igp jgp) s) s;
          s = store_vector (NP e) grad_tmp 0
                (gradient_sphere e (subview s Ephi 0) (subtensor s DINV)) s
      in for_points (NP e) (basic_tendency_point e ilev) s)"

definition basic_tendency :: "params \<Rightarrow> machine \<Rightarrow> machine" where
  "basic_tendency e = parallel_for (NUM_LEV_P e) (basic_tendency_level e)"

definition vertical_extent :: "params \<Rightarrow> field \<Rightarrow> nat" where
  "vertical_extent e f =
     (if f \<in> {ETA_DPDN, eta_dot_dpdn_ie} then NUM_LEV_P e
      else if f \<in> {PHIS, FCOR, SPHEREMP, METDET, Ephi, suml, vgrad_T}
                \<union> {g. \<exists>a b. g = DINV a b \<or> g = D a b \<or> g = c_dinv a b} \<union> range grad_tmp
      then 1 else NUM_LEV e)"

section \<open>Fields of the state and the frame of one invocation\<close>

definition future_fields :: "field set" where
  "future_fields = {U_future, V_future, T_future, DP3D_future}"

definition accumulator_fields :: "field set" where
  "accumulator_fields = {DERIVED_UN0, DERIVED_VN0, OMEGA_P, ETA_DPDN}"

definition scratch_fields :: "field set" where
  "scratch_fields = {pressure, T_v, div_vdp, omega_p} \<union> range vector_buf \<union> cache_fields"

definition local_fields :: "field set" where
  "local_fields = {Ephi, vort, suml, grad_p 0, grad_p 1}"

definition input_fields :: "field set" where
  "input_fields =
     {U_previous, U_current, V_previous, V_current, T_previous, T_current,
      DP3D_previous, DP3D_current, PECND, PHIS, FCOR, SPHEREMP, METDET}
     \<union> {f. \<exists>a b. f = DINV a b \<or> f = D a b} \<union> {f. \<exists>q t. f = QDP q t}"

definition writes_within :: "field set \<Rightarrow> machine \<Rightarrow> machine \<Rightarrow> bool" where
  "writes_within F s s' \<longleftrightarrow> (\<forall>a\<in>set (writes s'). a \<in> set (writes s) \<or> fst a \<in> F)"

section \<open>Tracer-free inputs\<close>

text \<open>
  \<open>dry_inputs\<close>: the tracer that the moisture correction reads is zero and the
  current pressure thickness is not zero, at every level and point of the element.
  \<open>dry_state\<close> holds 0.0 in every tracer and 2.0 elsewhere. \<open>wide_params\<close> is the
  small configuration with four points in each direction.
\<close>

definition dry_inputs :: "params \<Rightarrow> machine \<Rightarrow> bool" where
  "dry_inputs e s \<longleftrightarrow>
     (\<forall>l<NUM_LEV e. \<forall>i<NP e. \<forall>j<NP e.
        load s (QDP 0 (qn0 e)) l i j = 0 \<and> load s DP3D_current l i j \<noteq> 0)"

definition dry_state :: machine where
  "dry_state =
     \<lparr>mem = (\<lambda>a. case fst a of QDP m q \<Rightarrow> 0 | _ \<Rightarrow> 2), writes = [], div_by_zero = False\<rparr>"

section \<open>kokkos_basic: preq_omega_ps\<close>

text \<open>
  The serial overload of \<open>preq_omega_ps\<close>, the one that the kernel calls: for each
  \<open>jgp\<close>, a loop over \<open>igp\<close> for level 0, the loops over the levels
  \<open>1 .. NUM_LEV - 2\<close> and over \<open>igp\<close>, and a loop over \<open>igp\<close> for the last level. Its
  arguments are the views \<open>p\<close>, \<open>vgrad_p\<close>, \<open>div_vdp\<close> and \<open>omega_p\<close> of the caller
  (\<open>pressure\<close>, \<open>vgrad_p_buf\<close>, \<open>div_vdp\<close>, \<open>omega_p\<close> here). \<open>values_at i j\<close> reads
  the memory at one point, and \<open>omega_init_values\<close>, \<open>omega_level_values\<close> and
  \<open>omega_tail_values\<close> are what the three loop bodies do to these values.
\<close>

definition basic_omega_ps_init_point :: "nat \<Rightarrow> nat \<Rightarrow> machine \<Rightarrow> machine" where
  "basic_omega_ps_init_point igp jgp s =
     (let s = divide_check (load s pressure 0 igp jgp) s;
          ckk = 0.5 / load s pressure 0 igp jgp;
          term = load s div_vdp 0 igp jgp;
          s = store omega_p 0 igp jgp
                (load s vgrad_p_buf 0 igp jgp / load s pressure 0 igp jgp - ckk * term) s
      in store suml 0 igp jgp term s)"

definition basic_omega_ps_level_point :: "nat \<Rightarrow> nat \<Rightarrow> nat \<Rightarrow> machine \<Rightarrow> machine" where
  "basic_omega_ps_level_point ilev igp jgp s =
     (let s = divide_check (load s pressure ilev igp jgp) s;
          ckk = 0.5 / load s pressure ilev igp jgp;
          ckl = 2.0 * ckk;
          term = load s div_vdp ilev igp jgp;
          s = store omega_p ilev igp jgp
                (load s vgrad_p_buf ilev igp jgp / load s pressure ilev igp jgp
                 - ckl * load s suml 0 igp jgp - ckk * term) s
      in store suml 0 igp jgp (load s suml 0 igp jgp + term) s)"

definition basic_omega_ps_tail_point :: "params \<Rightarrow> nat \<Rightarrow> nat \<Rightarrow> machine \<Rightarrow> machine" where
  "basic_omega_ps_tail_point e igp jgp s =
     (let s = divide_check (load s pressure (NUM_LEV e - 1) igp jgp) s;
          ckk = 0.5 / load s pressure (NUM_LEV e - 1) igp jgp;
          ckl = 2.0 * ckk;
          term = load s div_vdp (NUM_LEV e - 1) igp jgp
      in store omega_p (NUM_LEV e - 1) igp jgp
           (load s vgrad_p_buf (NUM_LEV e - 1) igp jgp / load s pressure (NUM_LEV e - 1) igp jgp
            - ckl * load s suml 0 igp jgp - ckk * term) s)"

definition basic_omega_ps_column :: "params \<Rightarrow> nat \<Rightarrow> machine \<Rightarrow> machine" where
  "basic_omega_ps_column e jgp s =
     (let s = for_range 0 (NP e) (\<lambda>igp. basic_omega_ps_init_point igp jgp) s;
          s = for_range 1 (NUM_LEV e - 1) (\<lambda>ilev.
                for_range 0 (NP e) (\<lambda>igp. basic_omega_ps_level_point ilev igp jgp)) s
      in for_range 0 (NP e) (\<lambda>igp. basic_omega_ps_tail_point e igp jgp) s)"

definition basic_preq_omega_ps :: "params \<Rightarrow> machine \<Rightarrow> machine" where
  "basic_preq_omega_ps e = for_range 0 (NP e) (basic_omega_ps_column e)"

type_synonym column_values = "field \<Rightarrow> nat \<Rightarrow> real"

definition values_at :: "nat \<Rightarrow> nat \<Rightarrow> machine \<Rightarrow> column_values" where
  "values_at i j s = (\<lambda>f l. load s f l i j)"

definition omega_ps_formula :: "column_values \<Rightarrow> real \<Rightarrow> nat \<Rightarrow> real" where
  "omega_ps_formula c sm l =
     c vgrad_p_buf l / c pressure l - 2.0 * (0.5 / c pressure l) * sm - 0.5 / c pressure l * c div_vdp l"

definition omega_init_values :: "column_values \<Rightarrow> column_values" where
  "omega_init_values c =
     c(omega_p := (c omega_p)(0 := c vgrad_p_buf 0 / c pressure 0 - 0.5 / c pressure 0 * c div_vdp 0),
       suml := (c suml)(0 := c div_vdp 0))"

definition omega_level_values :: "nat \<Rightarrow> column_values \<Rightarrow> column_values" where
  "omega_level_values l c =
     c(omega_p := (c omega_p)(l := omega_ps_formula c (c suml 0) l),
       suml := (c suml)(0 := c suml 0 + c div_vdp l))"

definition omega_tail_values :: "nat \<Rightarrow> column_values \<Rightarrow> column_values" where
  "omega_tail_values l c = c(omega_p := (c omega_p)(l := omega_ps_formula c (c suml 0) l))"

definition wide_params :: params where
  "wide_params = example_params\<lparr>NP := 4\<rparr>"

lemma fold_obs_hom:
  "(\<And>x s. x \<in> set xs \<Longrightarrow> f (body x s) = G x (f s)) \<Longrightarrow> f (fold body xs s) = fold G xs (f s)"
  by (induction xs arbitrary: s) auto

lemma fold_obs_none:
  "(\<And>x s. x \<in> set xs \<Longrightarrow> f (body x s) = f s) \<Longrightarrow> f (fold body xs s) = f s"
  by (induction xs arbitrary: s) auto

lemma fold_obs_one:
  assumes "distinct xs" "k \<in> set xs"
    and other: "\<And>x s. x \<in> set xs \<Longrightarrow> x \<noteq> k \<Longrightarrow> f (body x s) = f s"
    and here: "\<And>s. f (body k s) = g (f s)"
  shows "f (fold body xs s) = g (f s)"
  using assms(1,2) other
proof (induction xs arbitrary: s)
  case Nil
  then show ?case by simp
next
  case (Cons x xs)
  show ?case
  proof (cases "x = k")
    case True
    then have "k \<notin> set xs" using Cons.prems(1) by simp
    then have "f (fold body xs (body k s)) = f (body k s)"
      using Cons.prems(3) by (intro fold_obs_none) auto
    then show ?thesis using True here by simp
  next
    case False
    then have "k \<in> set xs" using Cons.prems(2) by simp
    moreover have "distinct xs" using Cons.prems(1) by simp
    ultimately have "f (fold body xs (body x s)) = g (f (body x s))"
      using Cons.prems(3) by (intro Cons.IH) auto
    then show ?thesis using False Cons.prems(3)[of x s] by simp
  qed
qed

lemma point_index:
  assumes "i < n" "j < (n::nat)"
  shows "i * n + j < n * n" "(i * n + j) div n = i" "(i * n + j) mod n = j"
proof -
  have "i * n + j < i * n + n" using assms by simp
  also have "\<dots> = (Suc i) * n" by simp
  also have "\<dots> \<le> n * n" using assms(1) Suc_leI mult_le_mono1 by blast
  finally show "i * n + j < n * n" .
  show "(i * n + j) div n = i" using assms by simp
  show "(i * n + j) mod n = j" using assms by simp
qed

lemma point_index_other:
  assumes "j < (n::nat)" "x \<noteq> i * n + j"
  shows "x div n \<noteq> i \<or> x mod n \<noteq> j"
  using assms by (metis div_mult_mod_eq)

lemma for_points_obs:
  assumes "i < n" "j < (n::nat)"
    and other: "\<And>i' j' s. i' \<noteq> i \<or> j' \<noteq> j \<Longrightarrow> f (body i' j' s) = f s"
    and here: "\<And>s. f (body i j s) = g (f s)"
  shows "f (for_points n body s) = g (f s)"
  unfolding for_points_def parallel_for_def
proof (rule fold_obs_one[where k = "i * n + j"])
  show "distinct [0..<n * n]" by simp
  show "i * n + j \<in> set [0..<n * n]" using point_index(1)[OF assms(1,2)] by simp
  fix x s assume "x \<in> set [0..<n * n]" "x \<noteq> i * n + j"
  then show "f (body (x div n) (x mod n) s) = f s"
    using point_index_other[OF assms(2)] other by blast
next
  fix s show "f (body ((i * n + j) div n) ((i * n + j) mod n) s) = g (f s)"
    using point_index(2,3)[OF assms(1,2)] here by simp
qed

lemma for_points_obs_none:
  "(\<And>i' j' s. f (body i' j' s) = f s) \<Longrightarrow> f (for_points n body s) = f s"
  unfolding for_points_def parallel_for_def by (rule fold_obs_none) simp

lemma load_store:
  "load (store f l i j x s) f' l' i' j' = (if (f', l', i', j') = (f, l, i, j) then x else load s f' l' i' j')"
  by (simp add: load_def store_def)


lemma compute_pressure_column:
  assumes "i < NP e" "j < NP e"
  shows "pressure_obs i j (compute_pressure e s)
         = fold pressure_next [1..<NUM_LEV e] (pressure_top (hybrid_a e 0 * ps0 e) (pressure_obs i j s))"
proof -
  have top: "pressure_obs i j (for_points (NP e) (\<lambda>igp jgp s.
                store pressure 0 igp jgp
                  (hybrid_a e 0 * ps0 e + 0.5 * load s DP3D_current 0 igp jgp) s) s)
             = pressure_top (hybrid_a e 0 * ps0 e) (pressure_obs i j s)" for s
    by (rule for_points_obs[OF assms])
       (auto simp: pressure_obs_def pressure_top_def load_store)
  have lev: "pressure_obs i j (for_points (NP e) (\<lambda>igp jgp s.
             store pressure ilev igp jgp
               (load s pressure (ilev - 1) igp jgp
                + 0.5 * (load s DP3D_current (ilev - 1) igp jgp
                         + load s DP3D_current ilev igp jgp)) s) s)
             = pressure_next ilev (pressure_obs i j s)" for ilev s
    by (rule for_points_obs[OF assms])
       (auto simp: pressure_obs_def pressure_next_def load_store)
  show ?thesis
    unfolding compute_pressure_def Let_def for_range_def
    by (subst fold_obs_hom[where G = pressure_next and f = "pressure_obs i j"], rule lev)
       (simp only: top)
qed

lemma pressure_scan_snd:
  "snd (fold pressure_next xs c) = snd c"
  by (induction xs arbitrary: c) (auto simp: pressure_next_def split: prod.splits)

lemma pressure_scan_above:
  "\<forall>x\<in>set xs. x \<noteq> l \<Longrightarrow> fst (fold pressure_next xs c) l = fst c l"
  by (induction xs arbitrary: c) (auto simp: pressure_next_def split: prod.splits)

lemma pressure_scan_rec:
  assumes "1 \<le> l" "l < n"
  shows "fst (fold pressure_next [1..<n] c) l
         = fst (fold pressure_next [1..<n] c) (l - 1) + 0.5 * (snd c (l - 1) + snd c l)"
  using assms
proof (induction n)
  case 0
  then show ?case by simp
next
  case (Suc n)
  have n1: "1 \<le> n" using Suc.prems by simp
  then have unf: "fold pressure_next [1..<Suc n] c = pressure_next n (fold pressure_next [1..<n] c)"
    by simp
  obtain p d where pd: "fold pressure_next [1..<n] c = (p, d)" by (cases "fold pressure_next [1..<n] c")
  have d: "d = snd c" using pressure_scan_snd[of "[1..<n]" c] pd by simp
  show ?case
  proof (cases "l = n")
    case True
    then show ?thesis unfolding unf pd using n1 d by (auto simp add: pressure_next_def)
  next
    case False
    then have "l < n" using Suc.prems by simp
    then have "p l = p (l - 1) + 0.5 * (snd c (l - 1) + snd c l)"
      using Suc.IH[OF Suc.prems(1)] pd by simp
    then show ?thesis unfolding unf pd using False \<open>l < n\<close> by (auto simp add: pressure_next_def)
  qed
qed


lemma for_nested_obs:
  assumes "i < n" "j < (n::nat)"
    and other: "\<And>i' j' s. i' \<noteq> i \<or> j' \<noteq> j \<Longrightarrow> f (body i' j' s) = f s"
    and here: "\<And>s. f (body i j s) = g (f s)"
  shows "f (for_range 0 n (\<lambda>igp. for_range 0 n (\<lambda>jgp. body igp jgp)) s) = g (f s)"
  unfolding for_range_def
proof (rule fold_obs_one[where k = i])
  show "distinct [0..<n]" by simp
  show "i \<in> set [0..<n]" using assms(1) by simp
  fix x s assume "x \<in> set [0..<n]" "x \<noteq> i"
  then show "f (fold (body x) [0..<n] s) = f s"
    by (intro fold_obs_none other) simp
next
  fix s show "f (fold (body i) [0..<n] s) = g (f s)"
  proof (rule fold_obs_one[where k = j])
    show "distinct [0..<n]" by simp
    show "j \<in> set [0..<n]" using assms(2) by simp
    fix x s assume "x \<in> set [0..<n]" "x \<noteq> j"
    then show "f (body i x s) = f s" by (intro other) simp
  next
    fix s show "f (body i j s) = g (f s)" by (rule here)
  qed
qed

lemma basic_pressure_column:
  assumes "i < NP e" "j < NP e"
  shows "pressure_obs i j (basic_pressure e order s)
         = fold (\<lambda>ilev. pressure_next (Suc ilev)) order
             (pressure_top (hybrid_a e 0 * ps0 e) (pressure_obs i j s))"
proof -
  have top: "pressure_obs i j (basic_pressure_top e s)
             = pressure_top (hybrid_a e 0 * ps0 e) (pressure_obs i j s)" for s
    unfolding basic_pressure_top_def
    by (rule for_nested_obs[OF assms])
       (auto simp: pressure_obs_def pressure_top_def load_store)
  have lev: "pressure_obs i j (basic_pressure_level e ilev s)
             = pressure_next (Suc ilev) (pressure_obs i j s)" for ilev s
    unfolding basic_pressure_level_def
    by (rule for_points_obs[OF assms])
       (auto simp: pressure_obs_def pressure_next_def load_store algebra_simps)
  show ?thesis
    unfolding basic_pressure_def
    by (subst fold_obs_hom[where G = "\<lambda>ilev. pressure_next (Suc ilev)" and f = "pressure_obs i j"],
        rule lev) (simp only: top)
qed

lemma pressure_scan_shift:
  "fold (\<lambda>ilev. pressure_next (Suc ilev)) [0..<n - 1] c = fold pressure_next [1..<n] c"
proof -
  have "fold (\<lambda>ilev. pressure_next (Suc ilev)) [0..<n - 1] c
        = fold pressure_next (map Suc [0..<n - 1]) c"
    by (simp add: fold_map comp_def)
  also have "map Suc [0..<n - 1] = [1..<n]"
    by (cases n) (simp_all add: map_Suc_upt)
  finally show ?thesis .
qed

lemma pressure_scan_top:
  "fst (fold (\<lambda>ilev. pressure_next (Suc ilev)) order c) 0 = fst c 0"
  by (induction order arbitrary: c) (auto simp: pressure_next_def split: prod.splits)

lemma pressure_scan_rev:
  "fst (fold (\<lambda>ilev. pressure_next (Suc ilev)) (rev [0..<n]) c) (Suc l)
   = (if l < n then fst c l + 0.5 * (snd c l + snd c (Suc l)) else fst c (Suc l))"
proof (induction n arbitrary: c)
  case 0
  show ?case by simp
next
  case (Suc n)
  obtain p d where c: "c = (p, d)" by (cases c)
  have unf: "fold (\<lambda>ilev. pressure_next (Suc ilev)) (rev [0..<Suc n]) c
             = fold (\<lambda>ilev. pressure_next (Suc ilev)) (rev [0..<n]) (pressure_next (Suc n) c)"
    by simp
  have nx: "pressure_next (Suc n) c = (p(Suc n := p n + 0.5 * (d n + d (Suc n))), d)"
    by (simp add: c pressure_next_def)
  show ?case
    unfolding unf Suc.IH nx by (auto simp: c less_Suc_eq)
qed

lemma pressure_scan_const:
  assumes "l < n" "\<forall>k<n. snd c k = x"
  shows "fst (fold pressure_next [1..<n] (pressure_top a c)) l = a + x * (real l + 0.5)"
  using assms(1)
proof (induction l)
  case 0
  have "fst (fold pressure_next [1..<n] (pressure_top a c)) 0 = fst (pressure_top a c) 0"
    by (rule pressure_scan_above) simp
  then show ?case using assms(2) 0 by (simp add: pressure_top_def split: prod.splits)
next
  case (Suc l)
  have "snd (pressure_top a c) = snd c" by (simp add: pressure_top_def split: prod.splits)
  then show ?case
    using pressure_scan_rec[of "Suc l" n "pressure_top a c"] Suc assms(2)
    by (simp add: algebra_simps)
qed

text \<open>
  Claim C1, on kokkos_basic. The pressure at level 0 is
  \<open>hybrid_a(0) * ps0 + 0.5 * dp3d[0]\<close> in whatever order the iterations of the level
  loop take effect. When they take effect in increasing order, every level \<open>l + 1\<close>
  below \<open>NUM_LEV\<close> is left with
  \<open>pressure[l + 1] = pressure[l] + 0.5 * dp3d[l] + 0.5 * dp3d[l + 1]\<close>, the recurrence.
  When they take effect in decreasing order, which is a schedule of the loop as
  well, every level \<open>l + 1\<close> with \<open>1 \<le> l\<close> is computed from what the view \<open>p\<close> held at
  level \<open>l\<close> before the kernel, not from the pressure that the kernel writes there.
  (\<open>compute_pressure\<close> of kokkos_scratch runs the levels in a plain \<open>for\<close> loop;
  \<open>compute_pressure_column\<close> and \<open>pressure_scan_rec\<close> above give the recurrence for
  it.)
\<close>

theorem basic_pressure_schedule:
  assumes "i < NP e" "j < NP e"
  shows "level_schedule e [0..<NUM_LEV e - 1] \<and> level_schedule e (rev [0..<NUM_LEV e - 1])
       \<and> (\<forall>order. load (basic_pressure e order s) pressure 0 i j
                      = hybrid_a e 0 * ps0 e + 0.5 * load s DP3D_current 0 i j)
       \<and> (\<forall>l. l + 1 < NUM_LEV e \<longrightarrow>
             load (basic_pressure e [0..<NUM_LEV e - 1] s) pressure (l + 1) i j
               = load (basic_pressure e [0..<NUM_LEV e - 1] s) pressure l i j
                 + 0.5 * load s DP3D_current l i j + 0.5 * load s DP3D_current (l + 1) i j)
       \<and> (\<forall>l. 1 \<le> l \<and> l + 1 < NUM_LEV e \<longrightarrow>
             load (basic_pressure e (rev [0..<NUM_LEV e - 1]) s) pressure (l + 1) i j
               = load s pressure l i j
                 + 0.5 * load s DP3D_current l i j + 0.5 * load s DP3D_current (l + 1) i j)"
proof -
  let ?c = "pressure_top (hybrid_a e 0 * ps0 e) (pressure_obs i j s)"
  let ?G = "\<lambda>ilev. pressure_next (Suc ilev)"
  have val: "load (basic_pressure e order s) pressure l i j = fst (fold ?G order ?c) l" for order l
    using basic_pressure_column[OF assms, of order s]
    by (simp add: pressure_obs_def fun_eq_iff prod_eq_iff)
  have c: "fst ?c 0 = hybrid_a e 0 * ps0 e + 0.5 * load s DP3D_current 0 i j"
    by (simp add: pressure_top_def pressure_obs_def)
  have sch: "level_schedule e [0..<NUM_LEV e - 1]" "level_schedule e (rev [0..<NUM_LEV e - 1])"
    by (simp_all add: level_schedule_def)
  have top: "load (basic_pressure e order s) pressure 0 i j
             = hybrid_a e 0 * ps0 e + 0.5 * load s DP3D_current 0 i j" for order
    by (simp only: val pressure_scan_top c)
  have inc: "load (basic_pressure e [0..<NUM_LEV e - 1] s) pressure (l + 1) i j
               = load (basic_pressure e [0..<NUM_LEV e - 1] s) pressure l i j
                 + 0.5 * load s DP3D_current l i j + 0.5 * load s DP3D_current (l + 1) i j"
    if "l + 1 < NUM_LEV e" for l
  proof -
    have v: "load (basic_pressure e [0..<NUM_LEV e - 1] s) pressure x i j
             = fst (fold pressure_next [1..<NUM_LEV e] ?c) x" for x
      by (simp only: val pressure_scan_shift)
    show ?thesis
      unfolding v using pressure_scan_rec[of "l + 1" "NUM_LEV e" ?c] that
      by (simp add: pressure_top_def pressure_obs_def algebra_simps)
  qed
  have dec: "load (basic_pressure e (rev [0..<NUM_LEV e - 1]) s) pressure (l + 1) i j
               = load s pressure l i j
                 + 0.5 * load s DP3D_current l i j + 0.5 * load s DP3D_current (l + 1) i j"
    if "1 \<le> l \<and> l + 1 < NUM_LEV e" for l
  proof -
    have "l < NUM_LEV e - 1" using that by linarith
    then show ?thesis
      using that
      by (simp add: val pressure_scan_rev pressure_top_def pressure_obs_def algebra_simps)
  qed
  show ?thesis using sch top inc dec by blast
qed

theorem basic_pressure_schedule_witness:
  "load example_state pressure 1 0 0 = 2
   \<and> load (basic_pressure example_params [0, 1] example_state) pressure 0 0 0 = 2
   \<and> load (basic_pressure example_params [0, 1] example_state) pressure 1 0 0 = 4
   \<and> load (basic_pressure example_params [0, 1] example_state) pressure 2 0 0 = 6
   \<and> load (basic_pressure example_params [1, 0] example_state) pressure 1 0 0 = 4
   \<and> load (basic_pressure example_params [1, 0] example_state) pressure 2 0 0 = 4"
proof -
  have np: "(0::nat) < NP example_params" by (simp add: example_params_def)
  have n: "NUM_LEV example_params - 1 = 2" by (simp add: example_params_def)
  have o: "[0..<2::nat] = [0, 1]" "rev [0..<2::nat] = [1, 0]" by (simp_all add: upt_rec)
  have ld: "load example_state DP3D_current l 0 0 = 2" "load example_state pressure l 0 0 = 2" for l
    by (simp_all add: example_state_def load_def)
  have a: "hybrid_a example_params 0 * ps0 example_params = 1" "NUM_LEV example_params = 3"
    by (simp_all add: example_params_def)
  note main = basic_pressure_schedule[OF np np, of example_state, unfolded n o]
  have p0: "load (basic_pressure example_params order example_state) pressure 0 0 0 = 2" for order
    using main[THEN conjunct2, THEN conjunct2, THEN conjunct1, rule_format, of order]
    by (simp add: ld a)
  have i1: "load (basic_pressure example_params [0, 1] example_state) pressure (Suc 0) 0 0 = 4"
    using main[THEN conjunct2, THEN conjunct2, THEN conjunct2, THEN conjunct1, rule_format, of 0]
    by (simp add: ld a p0)
  have i2: "load (basic_pressure example_params [0, 1] example_state) pressure 2 0 0 = 6"
    using main[THEN conjunct2, THEN conjunct2, THEN conjunct2, THEN conjunct1, rule_format, of 1] i1
    by (simp add: ld a numeral_2_eq_2)
  have d1: "load (basic_pressure example_params [1, 0] example_state) pressure 1 0 0 = 4"
    using basic_pressure_column[OF np np, of "[1, 0]" example_state]
    by (simp add: pressure_obs_def pressure_next_def pressure_top_def ld a fun_eq_iff prod_eq_iff)
  have d2: "load (basic_pressure example_params [1, 0] example_state) pressure 2 0 0 = 4"
    using main[THEN conjunct2, THEN conjunct2, THEN conjunct2, THEN conjunct2, rule_format, of 1]
    by (simp add: ld a numeral_2_eq_2)
  show ?thesis using ld(2)[of 1] p0 i1 i2 d1 d2 by simp
qed

lemma fold_inv:
  "P s \<Longrightarrow> (\<And>x s. x \<in> set xs \<Longrightarrow> P s \<Longrightarrow> P (body x s)) \<Longrightarrow> P (fold body xs s)"
  by (induction xs arbitrary: s) auto

lemma for_range_inv:
  "P s \<Longrightarrow> (\<And>x s. a \<le> x \<Longrightarrow> x < b \<Longrightarrow> P s \<Longrightarrow> P (body x s)) \<Longrightarrow> P (for_range a b body s)"
  unfolding for_range_def by (rule fold_inv) auto

lemma for_down_inv:
  "P s \<Longrightarrow> (\<And>x s. b \<le> x \<Longrightarrow> x < a \<Longrightarrow> P s \<Longrightarrow> P (body x s)) \<Longrightarrow> P (for_down a b body s)"
  unfolding for_down_def by (rule fold_inv) auto

lemma parallel_for_inv:
  "P s \<Longrightarrow> (\<And>x s. x < n \<Longrightarrow> P s \<Longrightarrow> P (body x s)) \<Longrightarrow> P (parallel_for n body s)"
  unfolding parallel_for_def by (rule fold_inv) auto

lemma idx_div_less: "idx < n * n \<Longrightarrow> idx div n < (n::nat)"
  by (simp add: less_mult_imp_div_less)

lemma idx_mod_less: "idx < n * n \<Longrightarrow> idx mod n < (n::nat)"
  by (cases "n = 0") auto

lemma for_points_inv:
  "P s \<Longrightarrow> (\<And>i j s. i < n \<Longrightarrow> j < n \<Longrightarrow> P s \<Longrightarrow> P (body i j s)) \<Longrightarrow> P (for_points n body s)"
  unfolding for_points_def
  by (rule parallel_for_inv) (auto simp: idx_div_less idx_mod_less)

lemma store_view_inv:
  "P s \<Longrightarrow> (\<And>i j x s. i < n \<Longrightarrow> j < n \<Longrightarrow> P s \<Longrightarrow> P (store f l i j x s)) \<Longrightarrow> P (store_view n f l out s)"
  unfolding store_view_def by (rule for_points_inv) auto

lemma store_vector_inv:
  "P s \<Longrightarrow> (\<And>h i j x s. h < 2 \<Longrightarrow> i < n \<Longrightarrow> j < n \<Longrightarrow> P s \<Longrightarrow> P (store (F h) l i j x s))
   \<Longrightarrow> P (store_vector n F l out s)"
  unfolding store_vector_def
  by (rule for_range_inv, assumption, rule store_view_inv) auto

lemma load_divide_check: "load (divide_check d s) f l i j = load s f l i j"
  by (simp add: load_def divide_check_def)

lemma load_column: "load (column i j s) f l i j = load s f l i j"
  by (simp add: load_def column_def in_column_def)

lemma writes_column: "writes (column i j s) = filter (in_column i j) (writes s)"
  by (simp add: column_def)

lemma column_store_other:
  "i' \<noteq> i \<or> j' \<noteq> j \<Longrightarrow> column i j (store f l i' j' x s) = column i j s"
  by (auto simp: column_def store_def in_column_def fun_eq_iff)

lemma mem_divide_check: "mem (divide_check d s) = mem s"
  by (simp add: divide_check_def)

lemma writes_divide_check: "writes (divide_check d s) = writes s"
  by (simp add: divide_check_def)

lemma mem_store: "mem (store f l i j x s) = (mem s)((f, l, i, j) := x)"
  by (simp add: store_def)

lemma writes_store: "writes (store f l i j x s) = writes s @ [(f, l, i, j)]"
  by (simp add: store_def)

lemma column_divide_check: "column i j (divide_check d s) = column i j s"
  by (simp add: column_def mem_divide_check writes_divide_check cong: if_cong)

lemma fold_obs_split:
  assumes "distinct xs" "k \<in> set xs"
    and other: "\<And>x s. x \<in> set xs \<Longrightarrow> x \<noteq> k \<Longrightarrow> f (body x s) = f s"
  shows "\<exists>s'. f s' = f s \<and> f (fold body xs s) = f (body k s')"
  using assms(1,2) other
proof (induction xs arbitrary: s)
  case Nil
  then show ?case by simp
next
  case (Cons x xs)
  show ?case
  proof (cases "x = k")
    case True
    then have "k \<notin> set xs" using Cons.prems(1) by simp
    then have "f (fold body xs (body k s)) = f (body k s)"
      using Cons.prems(3) by (intro fold_obs_none) auto
    then show ?thesis using True by auto
  next
    case False
    then have "k \<in> set xs" using Cons.prems(2) by simp
    moreover have "distinct xs" using Cons.prems(1) by simp
    ultimately obtain s' where "f s' = f (body x s)" "f (fold body xs (body x s)) = f (body k s')"
      using Cons.IH[of "body x s"] Cons.prems(3) by auto
    moreover have "f (body x s) = f s" using Cons.prems(3)[of x s] False by simp
    ultimately show ?thesis by auto
  qed
qed

lemma for_points_split:
  assumes "i < n" "j < (n::nat)"
    and other: "\<And>i' j' s. i' \<noteq> i \<or> j' \<noteq> j \<Longrightarrow> f (body i' j' s) = f s"
  shows "\<exists>s'. f s' = f s \<and> f (for_points n body s) = f (body i j s')"
proof -
  have "\<exists>s'. f s' = f s \<and> f (fold (\<lambda>idx. body (idx div n) (idx mod n)) [0..<n * n] s)
           = f (body ((i * n + j) div n) ((i * n + j) mod n) s')"
  proof (rule fold_obs_split)
    show "distinct [0..<n * n]" by simp
    show "i * n + j \<in> set [0..<n * n]" using point_index(1)[OF assms(1,2)] by simp
    fix x s assume "x \<in> set [0..<n * n]" "x \<noteq> i * n + j"
    then show "f (body (x div n) (x mod n) s) = f s"
      using point_index_other[OF assms(2)] other by blast
  qed
  then show ?thesis
    unfolding for_points_def parallel_for_def using point_index(2,3)[OF assms(1,2)] by simp
qed

lemma for_nested_split:
  assumes "i < n" "j < (n::nat)"
    and other: "\<And>i' j' s. i' \<noteq> i \<or> j' \<noteq> j \<Longrightarrow> f (body i' j' s) = f s"
  shows "\<exists>s'. f s' = f s
           \<and> f (for_range 0 n (\<lambda>igp. for_range 0 n (\<lambda>jgp. body igp jgp)) s) = f (body i j s')"
proof -
  have outer: "\<exists>s'. f s' = f s \<and> f (fold (\<lambda>igp. fold (body igp) [0..<n]) [0..<n] s)
                 = f (fold (body i) [0..<n] s')"
  proof (rule fold_obs_split)
    show "distinct [0..<n]" by simp
    show "i \<in> set [0..<n]" using assms(1) by simp
    fix x s assume "x \<in> set [0..<n]" "x \<noteq> i"
    then show "f (fold (body x) [0..<n] s) = f s"
      by (intro fold_obs_none other) simp
  qed
  have inner: "\<exists>s''. f s'' = f s' \<and> f (fold (body i) [0..<n] s') = f (body i j s'')" for s'
  proof (rule fold_obs_split)
    show "distinct [0..<n]" by simp
    show "j \<in> set [0..<n]" using assms(2) by simp
    fix x s assume "x \<in> set [0..<n]" "x \<noteq> j"
    then show "f (body i x s) = f s" by (intro other) simp
  qed
  obtain s' where s': "f s' = f s" "f (fold (\<lambda>igp. fold (body igp) [0..<n]) [0..<n] s)
                 = f (fold (body i) [0..<n] s')"
    using outer by blast
  obtain s'' where "f s'' = f s'" "f (fold (body i) [0..<n] s') = f (body i j s'')"
    using inner by blast
  then show ?thesis unfolding for_range_def using s' by auto
qed

lemma for_down_Suc:
  "b < a \<Longrightarrow> for_down a b body s = body b (for_down a (Suc b) body s)"
  by (simp add: for_down_def upt_conv_Cons)

lemma for_down_empty: "for_down a a body s = s"
  by (simp add: for_down_def)

lemma hydrostatic_bottom_state:
  "fst (hydrostatic_bottom e i j s) = hydrostatic_increment e s (NUM_LEV e - 1) i j"
  "mem (snd (hydrostatic_bottom e i j s))
     = (mem s)((PHI, NUM_LEV e - 1, i, j) :=
          load s PHIS 0 i j + 0.5 * hydrostatic_increment e s (NUM_LEV e - 1) i j)"
  "writes (snd (hydrostatic_bottom e i j s)) = writes s @ [(PHI, NUM_LEV e - 1, i, j)]"
  by (simp_all add: hydrostatic_bottom_def Let_def hydrostatic_increment_def load_divide_check
        mem_store writes_store mem_divide_check writes_divide_check mult_ac)

lemma hydrostatic_level_state:
  "fst (hydrostatic_level e i j l (phii, s)) = phii + hydrostatic_increment e s l i j"
  "mem (snd (hydrostatic_level e i j l (phii, s)))
     = (mem s)((PHI, l, i, j) :=
          load s PHIS 0 i j + phii + 0.5 * hydrostatic_increment e s l i j)"
  "writes (snd (hydrostatic_level e i j l (phii, s))) = writes s @ [(PHI, l, i, j)]"
  by (simp_all add: hydrostatic_level_def Let_def hydrostatic_increment_def load_divide_check
        mem_store writes_store mem_divide_check writes_divide_check mult_ac)

lemma hydrostatic_top_state:
  "mem (hydrostatic_top e i j (phii, s))
     = (mem s)((PHI, 0, i, j) :=
          load s PHIS 0 i j + phii + 0.5 * hydrostatic_increment e s 0 i j)"
  "writes (hydrostatic_top e i j (phii, s)) = writes s @ [(PHI, 0, i, j)]"
  by (simp_all add: hydrostatic_top_def Let_def hydrostatic_increment_def load_divide_check
        mem_store writes_store mem_divide_check writes_divide_check mult_ac)

lemma hydrostatic_increment_cong:
  assumes "\<And>f. f \<noteq> PHI \<Longrightarrow> load s' f l i j = load s f l i j"
  shows "hydrostatic_increment e s' l i j = hydrostatic_increment e s l i j"
  by (simp add: hydrostatic_increment_def assms)

lemma hydrostatic_done_bottom:
  assumes "1 \<le> NUM_LEV e"
  shows "hydrostatic_done e i j s (NUM_LEV e - 1) (hydrostatic_bottom e i j s)"
proof -
  obtain n where n: "NUM_LEV e = Suc n" using assms by (cases "NUM_LEV e") auto
  have k: "k = n" if "n \<le> k" "k < Suc n" for k
    using that by simp
  show ?thesis
    unfolding hydrostatic_done_def n
    by (auto simp: hydrostatic_bottom_state n load_def dest!: k)
qed

lemma hydrostatic_done_level:
  assumes "hydrostatic_done e i j s (Suc l) ps" "Suc l < NUM_LEV e"
  shows "hydrostatic_done e i j s l (hydrostatic_level e i j l ps)"
proof -
  obtain phii s' where ps: "ps = (phii, s')" by (cases ps)
  have phii: "phii = (\<Sum>k = Suc l..<NUM_LEV e. hydrostatic_increment e s k i j)"
    and phi: "\<And>k. Suc l \<le> k \<Longrightarrow> k < NUM_LEV e \<Longrightarrow>
           load s' PHI k i j
             = load s PHIS 0 i j + (\<Sum>m = Suc k..<NUM_LEV e. hydrostatic_increment e s m i j)
               + 0.5 * hydrostatic_increment e s k i j"
    and frame: "\<And>a. (\<forall>k. Suc l \<le> k \<and> k < NUM_LEV e \<longrightarrow> a \<noteq> (PHI, k, i, j)) \<Longrightarrow> mem s' a = mem s a"
    and log: "writes s' = writes s @ map (\<lambda>k. (PHI, k, i, j)) (rev [Suc l..<NUM_LEV e])"
    using assms(1) unfolding hydrostatic_done_def ps fst_conv snd_conv by blast+
  have same: "load s' f k i j = load s f k i j" if "f \<noteq> PHI" for f k
    using frame[of "(f, k, i, j)"] that by (simp add: load_def)
  have inc: "hydrostatic_increment e s' l i j = hydrostatic_increment e s l i j"
    by (rule hydrostatic_increment_cong) (rule same)
  have l: "l < NUM_LEV e" using assms(2) by simp
  have sum: "(\<Sum>k = l..<NUM_LEV e. hydrostatic_increment e s k i j)
             = phii + hydrostatic_increment e s l i j"
    using l phii by (simp add: sum.atLeast_Suc_lessThan)
  have upt: "rev [l..<NUM_LEV e] = rev [Suc l..<NUM_LEV e] @ [l]"
    using l by (simp add: upt_conv_Cons)
  show ?thesis
    unfolding hydrostatic_done_def ps
  proof (intro conjI allI impI)
    show "fst (hydrostatic_level e i j l (phii, s'))
          = (\<Sum>k = l..<NUM_LEV e. hydrostatic_increment e s k i j)"
      by (simp add: hydrostatic_level_state sum inc)
    show "writes (snd (hydrostatic_level e i j l (phii, s')))
          = writes s @ map (\<lambda>k. (PHI, k, i, j)) (rev [l..<NUM_LEV e])"
      by (simp add: hydrostatic_level_state log upt)
  next
    fix k assume k: "l \<le> k \<and> k < NUM_LEV e"
    show "load (snd (hydrostatic_level e i j l (phii, s'))) PHI k i j
          = load s PHIS 0 i j + (\<Sum>m = Suc k..<NUM_LEV e. hydrostatic_increment e s m i j)
            + 0.5 * hydrostatic_increment e s k i j"
    proof (cases "k = l")
      case True
      then show ?thesis
        by (simp add: load_def hydrostatic_level_state inc phii same[unfolded load_def])
    next
      case False
      then have "Suc l \<le> k" using k by simp
      then show ?thesis
        using phi[of k] k False by (simp add: load_def hydrostatic_level_state)
    qed
  next
    fix a assume a: "\<forall>k. l \<le> k \<and> k < NUM_LEV e \<longrightarrow> a \<noteq> (PHI, k, i, j)"
    then have "a \<noteq> (PHI, l, i, j)" using l by auto
    moreover have "mem s' a = mem s a" using a by (intro frame) auto
    ultimately show "mem (snd (hydrostatic_level e i j l (phii, s'))) a = mem s a"
      by (simp add: hydrostatic_level_state)
  qed
qed

lemma hydrostatic_done_loop:
  assumes "l \<le> NUM_LEV e - 1" "1 \<le> NUM_LEV e"
  shows "hydrostatic_done e i j s l
           (for_down (NUM_LEV e - 1) l (hydrostatic_level e i j) (hydrostatic_bottom e i j s))"
  using assms(1)
proof (induction rule: inc_induct)
  case base
  show ?case by (simp only: for_down_empty) (rule hydrostatic_done_bottom[OF assms(2)])
next
  case (step n)
  have "Suc n < NUM_LEV e" using step.hyps(2) by simp
  then show ?case
    using step.IH step.hyps(2) by (simp add: for_down_Suc hydrostatic_done_level)
qed

lemma hydrostatic_point_state:
  assumes "2 \<le> NUM_LEV e"
  shows "\<forall>k<NUM_LEV e. load (hydrostatic_point e i j s) PHI k i j
             = load s PHIS 0 i j + (\<Sum>m = Suc k..<NUM_LEV e. hydrostatic_increment e s m i j)
               + 0.5 * hydrostatic_increment e s k i j"
    and "\<forall>a. (\<forall>k<NUM_LEV e. a \<noteq> (PHI, k, i, j)) \<longrightarrow> mem (hydrostatic_point e i j s) a = mem s a"
    and "writes (hydrostatic_point e i j s)
           = writes s @ map (\<lambda>k. (PHI, k, i, j)) (rev [0..<NUM_LEV e])"
proof -
  let ?ps = "for_down (NUM_LEV e - 1) 1 (hydrostatic_level e i j) (hydrostatic_bottom e i j s)"
  obtain phii s' where ps: "?ps = (phii, s')" by (cases ?ps)
  have dn: "hydrostatic_done e i j s 1 (phii, s')"
    using hydrostatic_done_loop[of 1 e i j s] assms ps by simp
  have phii: "phii = (\<Sum>k = 1..<NUM_LEV e. hydrostatic_increment e s k i j)"
    and phi: "\<And>k. 1 \<le> k \<Longrightarrow> k < NUM_LEV e \<Longrightarrow>
           load s' PHI k i j
             = load s PHIS 0 i j + (\<Sum>m = Suc k..<NUM_LEV e. hydrostatic_increment e s m i j)
               + 0.5 * hydrostatic_increment e s k i j"
    and frame: "\<And>a. (\<forall>k. 1 \<le> k \<and> k < NUM_LEV e \<longrightarrow> a \<noteq> (PHI, k, i, j)) \<Longrightarrow> mem s' a = mem s a"
    and log: "writes s' = writes s @ map (\<lambda>k. (PHI, k, i, j)) (rev [1..<NUM_LEV e])"
    using dn unfolding hydrostatic_done_def fst_conv snd_conv by blast+
  have same: "load s' f k i j = load s f k i j" if "f \<noteq> PHI" for f k
    using frame[of "(f, k, i, j)"] that by (simp add: load_def)
  have inc: "hydrostatic_increment e s' 0 i j = hydrostatic_increment e s 0 i j"
    by (rule hydrostatic_increment_cong) (rule same)
  have pt: "hydrostatic_point e i j s = hydrostatic_top e i j (phii, s')"
    by (simp only: hydrostatic_point_def ps)
  have upt: "rev [0..<NUM_LEV e] = rev [1..<NUM_LEV e] @ [0]"
    using assms by (simp add: upt_conv_Cons)
  show "\<forall>k<NUM_LEV e. load (hydrostatic_point e i j s) PHI k i j
             = load s PHIS 0 i j + (\<Sum>m = Suc k..<NUM_LEV e. hydrostatic_increment e s m i j)
               + 0.5 * hydrostatic_increment e s k i j"
  proof (intro allI impI)
    fix k assume k: "k < NUM_LEV e"
    show "load (hydrostatic_point e i j s) PHI k i j
             = load s PHIS 0 i j + (\<Sum>m = Suc k..<NUM_LEV e. hydrostatic_increment e s m i j)
               + 0.5 * hydrostatic_increment e s k i j"
    proof (cases "k = 0")
      case True
      then show ?thesis
        by (simp add: pt load_def hydrostatic_top_state inc phii same[unfolded load_def])
    next
      case False
      then show ?thesis using phi[of k] k by (simp add: pt load_def hydrostatic_top_state)
    qed
  qed
  show "\<forall>a. (\<forall>k<NUM_LEV e. a \<noteq> (PHI, k, i, j)) \<longrightarrow> mem (hydrostatic_point e i j s) a = mem s a"
  proof (intro allI impI)
    fix a assume a: "\<forall>k<NUM_LEV e. a \<noteq> (PHI, k, i, j)"
    then have "a \<noteq> (PHI, 0, i, j)" using assms by auto
    moreover have "mem s' a = mem s a" using a by (intro frame) auto
    ultimately show "mem (hydrostatic_point e i j s) a = mem s a"
      by (simp add: pt hydrostatic_top_state)
  qed
  show "writes (hydrostatic_point e i j s)
           = writes s @ map (\<lambda>k. (PHI, k, i, j)) (rev [0..<NUM_LEV e])"
    by (simp add: pt hydrostatic_top_state log upt)
qed

lemma column_eq_load: "column i j s' = column i j s \<Longrightarrow> load s' f l i j = load s f l i j"
  by (metis load_column)

lemma column_eq_writes:
  "column i j s' = column i j s \<Longrightarrow> filter (in_column i j) (writes s') = filter (in_column i j) (writes s)"
  by (metis writes_column)

lemma column_eqI:
  assumes "\<And>f l. load s' f l i j = load s f l i j"
    and "filter (in_column i j) (writes s') = filter (in_column i j) (writes s)"
  shows "column i j s' = column i j s"
  using assms by (auto simp: column_def load_def in_column_def fun_eq_iff)

lemma hydrostatic_point_other:
  assumes "2 \<le> NUM_LEV e" "i' \<noteq> i \<or> j' \<noteq> j"
  shows "column i j (hydrostatic_point e i' j' s) = column i j s"
proof (rule column_eqI)
  fix f l
  have "\<forall>k<NUM_LEV e. (f, l, i, j) \<noteq> (PHI, k, i', j')" using assms(2) by auto
  then show "load (hydrostatic_point e i' j' s) f l i j = load s f l i j"
    using hydrostatic_point_state(2)[OF assms(1), of i' j' s] by (simp add: load_def)
next
  have "filter (in_column i j) (map (\<lambda>k. (PHI, k, i', j')) xs) = []" for xs
    using assms(2) by (induction xs) (auto simp: in_column_def)
  then show "filter (in_column i j) (writes (hydrostatic_point e i' j' s))
             = filter (in_column i j) (writes s)"
    by (simp add: hydrostatic_point_state(3)[OF assms(1)])
qed

lemma preq_hydrostatic_scan:
  assumes "2 \<le> NUM_LEV e" "i < NP e" "j < NP e"
  shows "(\<forall>k<NUM_LEV e. load (preq_hydrostatic e s) PHI k i j
             = load s PHIS 0 i j + (\<Sum>m = Suc k..<NUM_LEV e. hydrostatic_increment e s m i j)
               + 0.5 * hydrostatic_increment e s k i j)
       \<and> filter (in_column i j) (writes (preq_hydrostatic e s))
           = filter (in_column i j) (writes s) @ map (\<lambda>k. (PHI, k, i, j)) (rev [0..<NUM_LEV e])"
proof -
  obtain s' where s': "column i j s' = column i j s"
      "column i j (preq_hydrostatic e s) = column i j (hydrostatic_point e i j s')"
    unfolding preq_hydrostatic_def
    using for_nested_split[where f = "column i j" and body = "hydrostatic_point e", OF assms(2,3)]
      hydrostatic_point_other[OF assms(1)]
    by blast
  have inc: "hydrostatic_increment e s' m i j = hydrostatic_increment e s m i j" for m
    by (simp add: hydrostatic_increment_def column_eq_load[OF s'(1)])
  have "load (preq_hydrostatic e s) PHI k i j
             = load s PHIS 0 i j + (\<Sum>m = Suc k..<NUM_LEV e. hydrostatic_increment e s m i j)
               + 0.5 * hydrostatic_increment e s k i j" if "k < NUM_LEV e" for k
    using hydrostatic_point_state(1)[OF assms(1), of i j s'] that
    by (simp add: column_eq_load[OF s'(2)] inc column_eq_load[OF s'(1)])
  moreover have "filter (in_column i j) (map (\<lambda>k. (PHI, k, i, j)) xs) = map (\<lambda>k. (PHI, k, i, j)) xs" for xs
    by (induction xs) (auto simp: in_column_def)
  then have "filter (in_column i j) (writes (preq_hydrostatic e s))
           = filter (in_column i j) (writes s) @ map (\<lambda>k. (PHI, k, i, j)) (rev [0..<NUM_LEV e])"
    by (simp add: column_eq_writes[OF s'(2)] hydrostatic_point_state(3)[OF assms(1)]
          column_eq_writes[OF s'(1)])
  ultimately show ?thesis by blast
qed

lemma basic_hydrostatic_bottom_state:
  "mem (basic_hydrostatic_bottom e i j s)
     = (mem s)((PHII, NUM_LEV e - 1, i, j) :=
                 Rgas e * load s T_v (NUM_LEV e - 1) i j
                 * (2.0 * (0.5 * load s DP3D_current (NUM_LEV e - 1) i j
                           / load s pressure (NUM_LEV e - 1) i j)),
               (PHI, NUM_LEV e - 1, i, j) :=
                 load s PHIS 0 i j + Rgas e * load s T_v (NUM_LEV e - 1) i j
                 * (0.5 * load s DP3D_current (NUM_LEV e - 1) i j
                    / load s pressure (NUM_LEV e - 1) i j))"
  "writes (basic_hydrostatic_bottom e i j s)
     = writes s @ [(PHII, NUM_LEV e - 1, i, j), (PHI, NUM_LEV e - 1, i, j)]"
  by (simp_all add: basic_hydrostatic_bottom_def Let_def load_divide_check load_store
        mem_store writes_store mem_divide_check writes_divide_check)

lemma basic_hydrostatic_level_state:
  "mem (basic_hydrostatic_level e i j l s)
     = (mem s)((PHII, l, i, j) :=
                 load s PHII (l + 1) i j + Rgas e * load s T_v l i j
                 * (2.0 * (0.5 * load s DP3D_current l i j / load s pressure l i j)),
               (PHI, l, i, j) :=
                 load s PHIS 0 i j + load s PHII (l + 1) i j + Rgas e * load s T_v l i j
                 * (0.5 * load s DP3D_current l i j / load s pressure l i j))"
  "writes (basic_hydrostatic_level e i j l s) = writes s @ [(PHII, l, i, j), (PHI, l, i, j)]"
  by (simp_all add: basic_hydrostatic_level_def Let_def load_divide_check load_store
        mem_store writes_store mem_divide_check writes_divide_check)

lemma basic_hydrostatic_top_state:
  "mem (basic_hydrostatic_top e i j s)
     = (mem s)((PHI, 0, i, j) :=
                 load s PHIS 0 i j + load s PHII 1 i j + Rgas e * load s T_v 0 i j
                 * (0.5 * load s DP3D_current 0 i j / load s pressure 0 i j))"
  "writes (basic_hydrostatic_top e i j s) = writes s @ [(PHI, 0, i, j)]"
  by (simp_all add: basic_hydrostatic_top_def Let_def load_divide_check load_store
        mem_store writes_store mem_divide_check writes_divide_check)

lemma basic_hydrostatic_done_bottom:
  assumes "1 \<le> NUM_LEV e"
  shows "basic_hydrostatic_done e i j s (NUM_LEV e - 1) (basic_hydrostatic_bottom e i j s)"
proof -
  obtain n where n: "NUM_LEV e = Suc n" using assms by (cases "NUM_LEV e") auto
  show ?thesis
    unfolding basic_hydrostatic_done_def basic_hydrostatic_bottom_state n
    by auto
qed

lemma basic_hydrostatic_done_level:
  assumes "basic_hydrostatic_done e i j s (Suc l) s'" "Suc l < NUM_LEV e"
  shows "basic_hydrostatic_done e i j s l (basic_hydrostatic_level e i j l s')"
proof -
  have frame: "\<And>a. (\<forall>k. Suc l \<le> k \<and> k < NUM_LEV e \<longrightarrow> a \<noteq> (PHI, k, i, j) \<and> a \<noteq> (PHII, k, i, j))
                  \<Longrightarrow> mem s' a = mem s a"
    and log: "writes s' = writes s
          @ concat (map (\<lambda>k. [(PHII, k, i, j), (PHI, k, i, j)]) (rev [Suc l..<NUM_LEV e]))"
    using assms(1) unfolding basic_hydrostatic_done_def by blast+
  have l: "l < NUM_LEV e" using assms(2) by simp
  have upt: "rev [l..<NUM_LEV e] = rev [Suc l..<NUM_LEV e] @ [l]"
    using l by (simp add: upt_conv_Cons)
  show ?thesis
    unfolding basic_hydrostatic_done_def
  proof (intro conjI allI impI)
    show "writes (basic_hydrostatic_level e i j l s') = writes s
          @ concat (map (\<lambda>k. [(PHII, k, i, j), (PHI, k, i, j)]) (rev [l..<NUM_LEV e]))"
      by (simp add: basic_hydrostatic_level_state log upt)
  next
    fix a assume a: "\<forall>k. l \<le> k \<and> k < NUM_LEV e \<longrightarrow> a \<noteq> (PHI, k, i, j) \<and> a \<noteq> (PHII, k, i, j)"
    then have "a \<noteq> (PHI, l, i, j)" "a \<noteq> (PHII, l, i, j)" using l by auto
    moreover have "mem s' a = mem s a" using a by (intro frame) auto
    ultimately show "mem (basic_hydrostatic_level e i j l s') a = mem s a"
      by (simp add: basic_hydrostatic_level_state)
  qed
qed

lemma basic_hydrostatic_done_loop:
  assumes "l \<le> NUM_LEV e - 1" "1 \<le> NUM_LEV e"
  shows "basic_hydrostatic_done e i j s l
           (for_down (NUM_LEV e - 1) l (basic_hydrostatic_level e i j) (basic_hydrostatic_bottom e i j s))"
  using assms(1)
proof (induction rule: inc_induct)
  case base
  show ?case by (simp only: for_down_empty) (rule basic_hydrostatic_done_bottom[OF assms(2)])
next
  case (step n)
  have "Suc n < NUM_LEV e" using step.hyps(2) by simp
  then show ?case
    using step.IH step.hyps(2) by (simp add: for_down_Suc basic_hydrostatic_done_level)
qed

lemma basic_hydrostatic_point_state:
  assumes "3 \<le> NUM_LEV e"
  shows "load (basic_hydrostatic_point e i j s) PHI 0 i j
           = load s PHIS 0 i j + load s PHII 1 i j + Rgas e * load s T_v 0 i j
             * (0.5 * load s DP3D_current 0 i j / load s pressure 0 i j)"
    and "\<forall>a. (\<forall>k. k \<noteq> 1 \<and> k < NUM_LEV e \<longrightarrow> a \<noteq> (PHI, k, i, j) \<and> a \<noteq> (PHII, k, i, j))
           \<longrightarrow> mem (basic_hydrostatic_point e i j s) a = mem s a"
    and "writes (basic_hydrostatic_point e i j s)
           = writes s
             @ concat (map (\<lambda>k. [(PHII, k, i, j), (PHI, k, i, j)]) (rev [2..<NUM_LEV e]))
             @ [(PHI, 0, i, j)]"
proof -
  define s' where "s' = for_down (NUM_LEV e - 1) 2 (basic_hydrostatic_level e i j)
                           (basic_hydrostatic_bottom e i j s)"
  have dn: "basic_hydrostatic_done e i j s 2 s'"
    using basic_hydrostatic_done_loop[of 2 e i j s] assms by (simp add: s'_def)
  have frame: "\<And>a. (\<forall>k. 2 \<le> k \<and> k < NUM_LEV e \<longrightarrow> a \<noteq> (PHI, k, i, j) \<and> a \<noteq> (PHII, k, i, j))
                  \<Longrightarrow> mem s' a = mem s a"
    and log: "writes s' = writes s
          @ concat (map (\<lambda>k. [(PHII, k, i, j), (PHI, k, i, j)]) (rev [2..<NUM_LEV e]))"
    using dn unfolding basic_hydrostatic_done_def by blast+
  have same: "load s' f k i j = load s f k i j" if "f \<noteq> PHI" "f \<noteq> PHII" for f k
    using frame[of "(f, k, i, j)"] that by (simp add: load_def)
  have phii1: "load s' PHII (Suc 0) i j = load s PHII (Suc 0) i j"
    using frame[of "(PHII, 1, i, j)"] by (simp add: load_def)
  have pt: "basic_hydrostatic_point e i j s = basic_hydrostatic_top e i j s'"
    by (simp only: basic_hydrostatic_point_def s'_def)
  show "load (basic_hydrostatic_point e i j s) PHI 0 i j
           = load s PHIS 0 i j + load s PHII 1 i j + Rgas e * load s T_v 0 i j
             * (0.5 * load s DP3D_current 0 i j / load s pressure 0 i j)"
    unfolding pt
    by (simp add: load_def basic_hydrostatic_top_state phii1[unfolded load_def]
          same[unfolded load_def])
  show "\<forall>a. (\<forall>k. k \<noteq> 1 \<and> k < NUM_LEV e \<longrightarrow> a \<noteq> (PHI, k, i, j) \<and> a \<noteq> (PHII, k, i, j))
           \<longrightarrow> mem (basic_hydrostatic_point e i j s) a = mem s a"
  proof (intro allI impI)
    fix a assume a: "\<forall>k. k \<noteq> 1 \<and> k < NUM_LEV e \<longrightarrow> a \<noteq> (PHI, k, i, j) \<and> a \<noteq> (PHII, k, i, j)"
    then have "a \<noteq> (PHI, 0, i, j)" using assms by auto
    moreover have "mem s' a = mem s a" using a by (intro frame) auto
    ultimately show "mem (basic_hydrostatic_point e i j s) a = mem s a"
      unfolding pt by (simp add: basic_hydrostatic_top_state)
  qed
  show "writes (basic_hydrostatic_point e i j s)
           = writes s
             @ concat (map (\<lambda>k. [(PHII, k, i, j), (PHI, k, i, j)]) (rev [2..<NUM_LEV e]))
             @ [(PHI, 0, i, j)]"
    unfolding pt by (simp add: basic_hydrostatic_top_state log)
qed

lemma levels_written_column:
  "levels_written f i j s
     = map (\<lambda>a. fst (snd a)) (filter (\<lambda>a. fst a = f) (filter (in_column i j) (writes s)))"
  by (simp add: levels_written_def conj_commute)

lemma filter_in_column_same:
  "filter (in_column i j) (map (\<lambda>k. (f, k, i, j)) xs) = map (\<lambda>k. (f, k, i, j)) xs"
  by (induction xs) (auto simp: in_column_def)

lemma filter_in_column_other:
  "i' \<noteq> i \<or> j' \<noteq> j \<Longrightarrow> filter (in_column i j) (map (\<lambda>k. (f, k, i', j')) xs) = []"
  by (induction xs) (auto simp: in_column_def)

lemma basic_hydrostatic_point_other:
  assumes "3 \<le> NUM_LEV e" "i' \<noteq> i \<or> j' \<noteq> j"
  shows "column i j (basic_hydrostatic_point e i' j' s) = column i j s"
proof (rule column_eqI)
  fix f l
  have "\<forall>k. k \<noteq> 1 \<and> k < NUM_LEV e \<longrightarrow> (f, l, i, j) \<noteq> (PHI, k, i', j') \<and> (f, l, i, j) \<noteq> (PHII, k, i', j')"
    using assms(2) by auto
  then show "load (basic_hydrostatic_point e i' j' s) f l i j = load s f l i j"
    using basic_hydrostatic_point_state(2)[OF assms(1), of i' j' s] by (simp add: load_def)
next
  have "filter (in_column i j) (concat (map (\<lambda>k. [(PHII, k, i', j'), (PHI, k, i', j')]) xs)) = []" for xs
    using assms(2) by (induction xs) (auto simp: in_column_def)
  moreover have "\<not> in_column i j (PHI, 0, i', j')" using assms(2) by (auto simp: in_column_def)
  ultimately show "filter (in_column i j) (writes (basic_hydrostatic_point e i' j' s))
             = filter (in_column i j) (writes s)"
    by (simp add: basic_hydrostatic_point_state(3)[OF assms(1)])
qed

lemma preq_hydrostatic_levels_written:
  assumes "2 \<le> NUM_LEV e" "i < NP e" "j < NP e"
  shows "levels_written PHI i j (preq_hydrostatic e s)
         = levels_written PHI i j s @ rev [0..<NUM_LEV e]"
proof -
  have "map (\<lambda>a. fst (snd a)) (filter (\<lambda>a. fst a = PHI) (map (\<lambda>k. (PHI, k, i, j)) xs)) = xs"
    for xs :: "nat list"
    by (induction xs) auto
  then show ?thesis
    using preq_hydrostatic_scan[OF assms, of s]
    by (simp add: levels_written_column)
qed

text \<open>
  Claim C2, on kokkos_basic. With at least three levels, \<open>preq_hydrostatic\<close> of
  kokkos_basic (the team overload that \<open>compute_and_apply_rhs\<close> calls) writes the
  geopotential of a column at levels \<open>NUM_LEV - 1\<close> down to 2 and then at level 0:
  level 1 is never written and keeps its old value, and the value written at level 0
  is built from \<open>phii[1]\<close>, an entry of the local array that the function never
  writes. (\<open>preq_hydrostatic_scan\<close> and \<open>preq_hydrostatic_levels_written\<close> above show
  that \<open>preq_hydrostatic\<close> of kokkos_scratch writes every level once, from the bottom
  level up to level 0, with the values the claim gives.)
\<close>

theorem basic_preq_hydrostatic_skips_level:
  assumes "3 \<le> NUM_LEV e" "i < NP e" "j < NP e"
  shows "levels_written PHI i j (basic_preq_hydrostatic_team e s)
           = levels_written PHI i j s @ rev [2..<NUM_LEV e] @ [0]
       \<and> load (basic_preq_hydrostatic_team e s) PHI 1 i j = load s PHI 1 i j
       \<and> load (basic_preq_hydrostatic_team e s) PHI 0 i j
           = load s PHIS 0 i j + load s PHII 1 i j + Rgas e * load s T_v 0 i j
             * (0.5 * load s DP3D_current 0 i j / load s pressure 0 i j)"
proof -
  obtain s' where s': "column i j s' = column i j s"
      "column i j (basic_preq_hydrostatic_team e s) = column i j (basic_hydrostatic_point e i j s')"
    unfolding basic_preq_hydrostatic_team_def
    using for_points_split[where f = "column i j"
        and body = "\<lambda>jgp igp. basic_hydrostatic_point e igp jgp", OF assms(3,2)]
      basic_hydrostatic_point_other[OF assms(1)]
    by blast
  have "(PHI, 1, i, j) \<noteq> (PHI, k, i, j) \<and> (PHI, 1, i, j) \<noteq> (PHII, k, i, j)" if "k \<noteq> 1" for k
    using that by simp
  then have l1: "load (basic_hydrostatic_point e i j s') PHI 1 i j = load s' PHI 1 i j"
    using basic_hydrostatic_point_state(2)[OF assms(1), of i j s'] by (simp add: load_def)
  have c2: "load (basic_preq_hydrostatic_team e s) PHI 1 i j = load s PHI 1 i j"
    using l1 column_eq_load[OF s'(2), of PHI 1] column_eq_load[OF s'(1), of PHI 1] by simp
  have c3: "load (basic_preq_hydrostatic_team e s) PHI 0 i j
           = load s PHIS 0 i j + load s PHII 1 i j + Rgas e * load s T_v 0 i j
             * (0.5 * load s DP3D_current 0 i j / load s pressure 0 i j)"
    using basic_hydrostatic_point_state(1)[OF assms(1), of i j s']
    by (simp add: column_eq_load[OF s'(2)] column_eq_load[OF s'(1)])
  have flt: "map (\<lambda>a. fst (snd a)) (filter (\<lambda>a. in_column i j a \<and> fst a = PHI)
               (concat (map (\<lambda>k. [(PHII, k, i, j), (PHI, k, i, j)]) xs))) = xs" for xs
    by (induction xs) (auto simp: in_column_def)
  have "filter (in_column i j) (writes (basic_preq_hydrostatic_team e s))
          = filter (in_column i j) (writes s)
            @ filter (in_column i j) (concat (map (\<lambda>k. [(PHII, k, i, j), (PHI, k, i, j)]) (rev [2..<NUM_LEV e])))
            @ [(PHI, 0, i, j)]"
    by (simp add: column_eq_writes[OF s'(2)] basic_hydrostatic_point_state(3)[OF assms(1)]
          column_eq_writes[OF s'(1)] in_column_def)
  then have c1: "levels_written PHI i j (basic_preq_hydrostatic_team e s)
           = levels_written PHI i j s @ rev [2..<NUM_LEV e] @ [0]"
    by (simp add: levels_written_column flt)
  show ?thesis using c1 c2 c3 by blast
qed

theorem basic_preq_hydrostatic_skips_level_witness:
  "levels_written PHI 0 0 (basic_preq_hydrostatic_team example_params example_state) = [2, 0]
   \<and> load (basic_preq_hydrostatic_team example_params example_state) PHI 1 0 0
       = load example_state PHI 1 0 0
   \<and> load example_state PHII 1 0 0 = 1000
   \<and> load (basic_preq_hydrostatic_team example_params example_state) PHI 0 0 0 = 1004"
proof -
  have h: "3 \<le> NUM_LEV example_params" "0 < NP example_params"
    by (simp_all add: example_params_def)
  have w: "levels_written PHI 0 0 example_state = []"
    by (simp add: levels_written_def example_state_def)
  have up: "rev [2..<NUM_LEV example_params] = [2]"
    by (simp add: example_params_def upt_conv_Cons)
  show ?thesis
    using basic_preq_hydrostatic_skips_level[OF h(1) h(2) h(2), of example_state]
    by (simp add: w up) (simp add: example_params_def example_state_def load_def)
qed

lemma basic_preq_hydrostatic_serial_example:
  "levels_written PHI 0 0 (basic_preq_hydrostatic example_params example_state) = [2, 0]
   \<and> load (basic_preq_hydrostatic example_params example_state) PHI 1 0 0 = 2
   \<and> load (basic_preq_hydrostatic example_params example_state) PHI 0 0 0 = 1004"
  by (simp add: basic_preq_hydrostatic_def for_range_def for_down_def Let_def
        basic_hydrostatic_bottom_def basic_hydrostatic_level_def basic_hydrostatic_top_def
        example_params_def example_state_def levels_written_def in_column_def
        load_def store_def divide_check_def)

lemma unchanged_except_refl: "unchanged_except F s s"
  by (simp add: unchanged_except_def)

lemma unchanged_except_store:
  "f \<in> F \<Longrightarrow> unchanged_except F s s' \<Longrightarrow> unchanged_except F s (store f l i j x s')"
  by (auto simp: unchanged_except_def mem_store)

lemma unchanged_except_divide_check:
  "unchanged_except F s (divide_check d s') = unchanged_except F s s'"
  by (simp add: unchanged_except_def mem_divide_check)

lemma unchanged_except_store_view:
  "f \<in> F \<Longrightarrow> unchanged_except F s s' \<Longrightarrow> unchanged_except F s (store_view n f l out s')"
  by (rule store_view_inv[where P = "unchanged_except F s"]) (simp_all add: unchanged_except_store)

lemma unchanged_except_store_vector:
  "G 0 \<in> F \<Longrightarrow> G 1 \<in> F \<Longrightarrow> unchanged_except F s s'
   \<Longrightarrow> unchanged_except F s (store_vector n G l out s')"
proof (rule store_vector_inv[where P = "unchanged_except F s"])
  fix h i j x s''
  assume "G 0 \<in> F" "G 1 \<in> F" "h < (2::nat)" "unchanged_except F s s''"
  moreover from \<open>h < 2\<close> have "h = 0 \<or> h = 1" by auto
  ultimately show "unchanged_except F s (store (G h) l i j x s'')"
    by (auto intro: unchanged_except_store)
qed

lemma unchanged_except_load:
  "unchanged_except F s s' \<Longrightarrow> f \<notin> F \<Longrightarrow> load s' f l i j = load s f l i j"
  by (simp add: unchanged_except_def load_def)

lemma unchanged_except_subview:
  "unchanged_except F s s' \<Longrightarrow> f \<notin> F \<Longrightarrow> subview s' f l = subview s f l"
  by (simp add: subview_def fun_eq_iff unchanged_except_load)

lemma unchanged_except_subtensor:
  "unchanged_except F s s' \<Longrightarrow> (\<And>a b. G a b \<notin> F) \<Longrightarrow> subtensor s' G = subtensor s G"
  by (simp add: subtensor_def fun_eq_iff unchanged_except_load)

lemma column_store_same:
  "column i j (store f l i j x s) = store f l i j x (column i j s)"
  by (auto simp: column_def store_def in_column_def fun_eq_iff)

lemma store_view_column:
  assumes "i < n" "j < n"
  shows "column i j (store_view n f l out s) = column i j (store f l i j (out i j) s)"
proof -
  obtain s' where s': "column i j s' = column i j s"
     "column i j (store_view n f l out s) = column i j (store f l i j (out i j) s')"
    unfolding store_view_def
    using for_points_split[where f = "column i j" and body = "\<lambda>igp jgp. store f l igp jgp (out igp jgp)",
        OF assms] column_store_other
    by blast
  have "column i j (store f l i j x s') = column i j (store f l i j x s)" for x
    using s'(1) by (simp add: column_store_same)
  then show ?thesis using s'(2) by simp
qed

lemma store_view_load:
  assumes "i < n" "j < n"
  shows "load (store_view n f l out s) f' l' i j
         = (if f' = f \<and> l' = l then out i j else load s f' l' i j)"
  using column_eq_load[OF store_view_column[OF assms, of f l out s], of f' l']
  by (simp add: load_store)

lemma store_vector_load:
  assumes "i < n" "j < n" "F 0 \<noteq> F 1"
  shows "load (store_vector n F l out s) f' l' i j
         = (if f' = F 1 \<and> l' = l then out 1 i j
            else if f' = F 0 \<and> l' = l then out 0 i j else load s f' l' i j)"
proof -
  have "[0..<2] = [0, 1]" by (simp add: upt_conv_Cons)
  then have "store_vector n F l out s
             = store_view n (F 1) l (out 1) (store_view n (F 0) l (out 0) s)"
    by (simp add: store_vector_def for_range_def)
  then show ?thesis by (simp add: store_view_load[OF assms(1,2)])
qed

lemma omega_ps_init_point_load:
  "load (omega_ps_init_point i j s) f l i j
   = (if f = suml \<and> l = 0 then load s div_vdp 0 i j
      else if f = omega_p \<and> l = 0
        then vgrad_p 0 i j s / load s pressure 0 i j
             - 0.5 / load s pressure 0 i j * load s div_vdp 0 i j
      else load s f l i j)"
  by (simp add: omega_ps_init_point_def Let_def load_store load_divide_check)

lemma omega_ps_loop_point_load:
  "load (omega_ps_loop_point k i j s) f l i j
   = (if f = suml \<and> l = 0 then load s suml 0 i j + load s div_vdp k i j
      else if f = omega_p \<and> l = k
        then vgrad_p k i j s / load s pressure k i j
             - 2.0 * (0.5 / load s pressure k i j) * load s suml 0 i j
             - 0.5 / load s pressure k i j * load s div_vdp k i j
      else load s f l i j)"
  by (simp add: omega_ps_loop_point_def Let_def load_store load_divide_check)

lemma omega_ps_tail_point_load:
  "load (omega_ps_tail_point e i j s) f l i j
   = (if f = omega_p \<and> l = NUM_LEV e - 1
        then vgrad_p (NUM_LEV e - 1) i j s / load s pressure (NUM_LEV e - 1) i j
             - 2.0 * (0.5 / load s pressure (NUM_LEV e - 1) i j) * load s suml 0 i j
             - 0.5 / load s pressure (NUM_LEV e - 1) i j * load s div_vdp (NUM_LEV e - 1) i j
      else load s f l i j)"
  by (simp add: omega_ps_tail_point_def Let_def load_store load_divide_check)

lemma omega_ps_points_other:
  assumes "i' \<noteq> i \<or> j' \<noteq> j"
  shows "column i j (omega_ps_init_point i' j' s) = column i j s"
    and "column i j (omega_ps_loop_point k i' j' s) = column i j s"
    and "column i j (omega_ps_tail_point e i' j' s) = column i j s"
  using assms
  by (simp_all add: omega_ps_init_point_def omega_ps_loop_point_def omega_ps_tail_point_def
        Let_def column_store_other column_divide_check)

lemma omega_ps_points_frame:
  assumes "unchanged_except omega_fields s s'"
  shows "unchanged_except omega_fields s (omega_ps_init_point i j s')"
    and "unchanged_except omega_fields s (omega_ps_loop_point k i j s')"
    and "unchanged_except omega_fields s (omega_ps_tail_point e i j s')"
  using assms
  by (simp_all add: omega_ps_init_point_def omega_ps_loop_point_def omega_ps_tail_point_def
        Let_def unchanged_except_store unchanged_except_divide_check omega_fields_def)

lemma omega_stage_column:
  assumes "i < NP e" "j < NP e" and fr: "unchanged_except omega_fields s s'"
    and other: "\<And>i' j' t. i' \<noteq> i \<or> j' \<noteq> j \<Longrightarrow> column i j (body i' j' t) = column i j t"
  shows "\<exists>t. column i j (for_points (NP e) (\<lambda>jgp igp. body igp jgp)
                  (store_vector (NP e) grad_p 0
                     (gradient_sphere e (subview s' pressure k) (subtensor s' c_dinv)) s'))
               = column i j (body i j t)
             \<and> vgrad_p k i j t = omega_vgrad e s k i j
             \<and> (\<forall>f l. f \<noteq> grad_p 0 \<longrightarrow> f \<noteq> grad_p 1 \<longrightarrow> load t f l i j = load s' f l i j)"
proof -
  let ?out = "gradient_sphere e (subview s' pressure k) (subtensor s' c_dinv)"
  let ?s1 = "store_vector (NP e) grad_p 0 ?out s'"
  have out: "?out = gradient_sphere e (subview s pressure k) (subtensor s c_dinv)"
    using fr by (simp add: unchanged_except_subview unchanged_except_subtensor omega_fields_def)
  obtain t where t: "column i j t = column i j ?s1"
      "column i j (for_points (NP e) (\<lambda>jgp igp. body igp jgp) ?s1) = column i j (body i j t)"
    using for_points_split[where f = "column i j" and body = "\<lambda>jgp igp. body igp jgp",
        OF assms(2,1), of ?s1] other
    by blast
  have ld: "load t f l i j = (if f = grad_p 1 \<and> l = 0 then ?out 1 i j
            else if f = grad_p 0 \<and> l = 0 then ?out 0 i j else load s' f l i j)" for f l
    using column_eq_load[OF t(1), of f l]
      store_vector_load[OF assms(1,2), where F = grad_p and f' = f and l' = l and l = 0
        and out = ?out and s = s']
    by simp
  have "load t U_current k i j = load s U_current k i j" "load t V_current k i j = load s V_current k i j"
    using fr by (simp_all add: ld unchanged_except_load omega_fields_def)
  then have "vgrad_p k i j t = omega_vgrad e s k i j"
    by (simp add: vgrad_p_def omega_vgrad_def ld out)
  then show ?thesis using t(2) ld by auto
qed

lemma omega_stage_frame:
  assumes fr: "unchanged_except omega_fields s s'"
    and body: "\<And>i j t. unchanged_except omega_fields s t \<Longrightarrow> unchanged_except omega_fields s (body i j t)"
  shows "unchanged_except omega_fields s
           (for_points n (\<lambda>jgp igp. body igp jgp) (store_vector n grad_p 0 out s'))"
proof (rule for_points_inv[where P = "unchanged_except omega_fields s"])
  show "unchanged_except omega_fields s (store_vector n grad_p 0 out s')"
    by (rule unchanged_except_store_vector[OF _ _ fr]) (simp_all add: omega_fields_def)
next
  fix i j t assume "unchanged_except omega_fields s t"
  then show "unchanged_except omega_fields s (body j i t)" by (rule body)
qed

lemma omega_done_init:
  "omega_done e s 1 (preq_omega_ps_init e s)"
  unfolding omega_done_def preq_omega_ps_init_def Let_def
proof (intro conjI allI impI)
  show "unchanged_except omega_fields s
          (for_points (NP e) (\<lambda>jgp igp. omega_ps_init_point igp jgp)
             (store_vector (NP e) grad_p 0
                (gradient_sphere e (subview s pressure 0) (subtensor s c_dinv)) s))"
    by (rule omega_stage_frame) (simp_all add: unchanged_except_refl omega_ps_points_frame)
next
  fix i j assume ij: "i < NP e" "j < NP e"
  obtain t where t: "column i j (for_points (NP e) (\<lambda>jgp igp. omega_ps_init_point igp jgp)
                  (store_vector (NP e) grad_p 0
                     (gradient_sphere e (subview s pressure 0) (subtensor s c_dinv)) s))
               = column i j (omega_ps_init_point i j t)"
      "vgrad_p 0 i j t = omega_vgrad e s 0 i j"
      "\<And>f l. f \<noteq> grad_p 0 \<Longrightarrow> f \<noteq> grad_p 1 \<Longrightarrow> load t f l i j = load s f l i j"
    using omega_stage_column[OF ij unchanged_except_refl,
        where body = omega_ps_init_point and k = 0 and s = s]
      omega_ps_points_other(1)
    by blast
  show "load (for_points (NP e) (\<lambda>jgp igp. omega_ps_init_point igp jgp)
            (store_vector (NP e) grad_p 0
               (gradient_sphere e (subview s pressure 0) (subtensor s c_dinv)) s)) suml 0 i j
        = (\<Sum>m<1. load s div_vdp m i j)"
    by (simp add: column_eq_load[OF t(1)] omega_ps_init_point_load t(3))
  fix l :: nat assume "l < 1"
  then have l: "l = 0" by simp
  show "load (for_points (NP e) (\<lambda>jgp igp. omega_ps_init_point igp jgp)
            (store_vector (NP e) grad_p 0
               (gradient_sphere e (subview s pressure 0) (subtensor s c_dinv)) s)) omega_p l i j
        = omega_ps_value e s l i j"
    unfolding l
    by (simp add: column_eq_load[OF t(1)] omega_ps_init_point_load t(2,3) omega_ps_value_def)
qed

lemma omega_done_level:
  assumes "omega_done e s k s'"
  shows "omega_done e s (Suc k) (omega_ps_level e k s')"
proof -
  have fr: "unchanged_except omega_fields s s'"
    and su: "\<And>i j. i < NP e \<Longrightarrow> j < NP e \<Longrightarrow> load s' suml 0 i j = (\<Sum>m<k. load s div_vdp m i j)"
    and om: "\<And>i j l. i < NP e \<Longrightarrow> j < NP e \<Longrightarrow> l < k \<Longrightarrow> load s' omega_p l i j = omega_ps_value e s l i j"
    using assms unfolding omega_done_def by blast+
  show ?thesis
    unfolding omega_done_def omega_ps_level_def Let_def
  proof (intro conjI allI impI)
    show "unchanged_except omega_fields s
          (for_points (NP e) (\<lambda>jgp igp. omega_ps_loop_point k igp jgp)
             (store_vector (NP e) grad_p 0
                (gradient_sphere e (subview s' pressure k) (subtensor s' c_dinv)) s'))"
      by (rule omega_stage_frame) (simp_all add: fr omega_ps_points_frame)
  next
    fix i j assume ij: "i < NP e" "j < NP e"
    obtain t where t: "column i j (for_points (NP e) (\<lambda>jgp igp. omega_ps_loop_point k igp jgp)
                  (store_vector (NP e) grad_p 0
                     (gradient_sphere e (subview s' pressure k) (subtensor s' c_dinv)) s'))
               = column i j (omega_ps_loop_point k i j t)"
        "vgrad_p k i j t = omega_vgrad e s k i j"
        "\<And>f l. f \<noteq> grad_p 0 \<Longrightarrow> f \<noteq> grad_p 1 \<Longrightarrow> load t f l i j = load s' f l i j"
      using omega_stage_column[OF ij fr, where body = "omega_ps_loop_point k" and k = k]
        omega_ps_points_other(2)
      by blast
    have same: "load s' f l i j = load s f l i j" if "f \<notin> omega_fields" for f l
      using fr that by (rule unchanged_except_load)
    show "load (for_points (NP e) (\<lambda>jgp igp. omega_ps_loop_point k igp jgp)
            (store_vector (NP e) grad_p 0
               (gradient_sphere e (subview s' pressure k) (subtensor s' c_dinv)) s')) suml 0 i j
        = (\<Sum>m<Suc k. load s div_vdp m i j)"
      by (simp add: column_eq_load[OF t(1)] omega_ps_loop_point_load t(3) su[OF ij] same
            omega_fields_def)
    fix l assume l: "l < Suc k"
    show "load (for_points (NP e) (\<lambda>jgp igp. omega_ps_loop_point k igp jgp)
            (store_vector (NP e) grad_p 0
               (gradient_sphere e (subview s' pressure k) (subtensor s' c_dinv)) s')) omega_p l i j
        = omega_ps_value e s l i j"
    proof (cases "l = k")
      case True
      then show ?thesis
        by (simp add: column_eq_load[OF t(1)] omega_ps_loop_point_load t(2,3) su[OF ij] same
              omega_fields_def omega_ps_value_def)
    next
      case False
      then have "l < k" using l by simp
      then show ?thesis
        using False om[OF ij, of l]
        by (simp add: column_eq_load[OF t(1)] omega_ps_loop_point_load t(3))
    qed
  qed
qed

lemma for_range_Suc:
  "a \<le> b \<Longrightarrow> for_range a (Suc b) body s = body b (for_range a b body s)"
  by (simp add: for_range_def)

lemma omega_done_loop:
  assumes "1 \<le> b"
  shows "omega_done e s b (for_range 1 b (omega_ps_level e) (preq_omega_ps_init e s))"
  using assms
proof (induction b rule: dec_induct)
  case base
  have "for_range 1 1 (omega_ps_level e) (preq_omega_ps_init e s) = preq_omega_ps_init e s"
    by (simp add: for_range_def)
  then show ?case by (simp only: omega_done_init)
next
  case (step n)
  then show ?case by (simp add: for_range_Suc omega_done_level)
qed

lemma preq_omega_ps_values:
  assumes "2 \<le> NUM_LEV e" "i < NP e" "j < NP e"
  shows "load (preq_omega_ps e s) suml 0 i j = (\<Sum>m<NUM_LEV e - 1. load s div_vdp m i j)"
    and "l < NUM_LEV e \<Longrightarrow> load (preq_omega_ps e s) omega_p l i j = omega_ps_value e s l i j"
proof -
  define s' where "s' = preq_omega_ps_loop e (preq_omega_ps_init e s)"
  have dn: "omega_done e s (NUM_LEV e - 1) s'"
    unfolding s'_def preq_omega_ps_loop_def using assms(1) by (intro omega_done_loop) simp
  have fr: "unchanged_except omega_fields s s'"
    and su: "load s' suml 0 i j = (\<Sum>m<NUM_LEV e - 1. load s div_vdp m i j)"
    and om: "\<And>l. l < NUM_LEV e - 1 \<Longrightarrow> load s' omega_p l i j = omega_ps_value e s l i j"
    using dn assms(2,3) unfolding omega_done_def by blast+
  obtain t where t: "column i j (preq_omega_ps_tail e s') = column i j (omega_ps_tail_point e i j t)"
        "vgrad_p (NUM_LEV e - 1) i j t = omega_vgrad e s (NUM_LEV e - 1) i j"
        "\<And>f l. f \<noteq> grad_p 0 \<Longrightarrow> f \<noteq> grad_p 1 \<Longrightarrow> load t f l i j = load s' f l i j"
    unfolding preq_omega_ps_tail_def Let_def
    using omega_stage_column[OF assms(2,3) fr, where body = "omega_ps_tail_point e"
        and k = "NUM_LEV e - 1"]
      omega_ps_points_other(3)
    by blast
  have same: "load s' f l i j = load s f l i j" if "f \<notin> omega_fields" for f l
    using fr that by (rule unchanged_except_load)
  have r: "preq_omega_ps e s = preq_omega_ps_tail e s'"
    by (simp add: preq_omega_ps_def s'_def)
  have ne: "NUM_LEV e - 1 \<noteq> 0" "(0::nat) \<noteq> NUM_LEV e - 1" using assms(1) by simp_all
  show "load (preq_omega_ps e s) suml 0 i j = (\<Sum>m<NUM_LEV e - 1. load s div_vdp m i j)"
    unfolding r
    by (simp add: column_eq_load[OF t(1)] omega_ps_tail_point_load t(3) su)
  show "load (preq_omega_ps e s) omega_p l i j = omega_ps_value e s l i j" if "l < NUM_LEV e"
  proof (cases "l = NUM_LEV e - 1")
    case True
    show ?thesis
      unfolding r True
      using t(2) su
      by (simp add: column_eq_load[OF t(1)] omega_ps_tail_point_load t(3) same
            omega_fields_def omega_ps_value_def)
  next
    case False
    then have "l < NUM_LEV e - 1" using that by simp
    then show ?thesis
      unfolding r using False om[of l]
      by (simp add: column_eq_load[OF t(1)] omega_ps_tail_point_load t(3))
  qed
qed

lemma parallel_for_split:
  assumes "l < n"
    and other: "\<And>l' s. l' \<noteq> l \<Longrightarrow> f (body l' s) = f s"
  shows "\<exists>s'. f s' = f s \<and> f (parallel_for n body s) = f (body l s')"
  unfolding parallel_for_def
  by (rule fold_obs_split) (use assms in auto)

lemma basic_leapfrog_point_load:
  "load (basic_leapfrog_point e l i j s) f l' i' j'
   = (if (l', i', j') = (l, i, j) \<and> f = U_future
        then load s SPHEREMP 0 i j * (load s U_previous l i j + dt2 e * load s vtens1_buf l i j)
      else if (l', i', j') = (l, i, j) \<and> f = V_future
        then load s SPHEREMP 0 i j * (load s V_previous l i j + dt2 e * load s vtens1_buf l i j)
      else if (l', i', j') = (l, i, j) \<and> f = T_future
        then load s SPHEREMP 0 i j * (load s T_previous l i j + dt2 e * load s ttens_buf l i j)
      else if (l', i', j') = (l, i, j) \<and> f = DP3D_future
        then load s SPHEREMP 0 i j * (load s DP3D_previous l i j + dt2 e * load s div_vdp l i j)
      else load s f l' i' j')"
  by (simp add: basic_leapfrog_point_def Let_def load_store)

lemma basic_leapfrog_values:
  assumes "l < NUM_LEV e" "i < NP e" "j < NP e"
  shows "\<exists>t. at_point l i j t = at_point l i j s
           \<and> at_point l i j (basic_leapfrog e s) = at_point l i j (basic_leapfrog_point e l i j t)"
proof -
  have lev: "at_point l i j (for_points (NP e) (basic_leapfrog_point e l') s') = at_point l i j s'"
    if "l' \<noteq> l" for l' s'
    by (rule for_points_obs_none[where f = "at_point l i j"])
       (use that in \<open>auto simp: at_point_def basic_leapfrog_point_load fun_eq_iff\<close>)
  obtain s' where s': "at_point l i j s' = at_point l i j s"
     "at_point l i j (basic_leapfrog e s)
      = at_point l i j (for_points (NP e) (basic_leapfrog_point e l) s')"
    unfolding basic_leapfrog_def
    using parallel_for_split[where f = "at_point l i j"
        and body = "\<lambda>ilev. for_points (NP e) (basic_leapfrog_point e ilev)", OF assms(1)] lev
    by blast
  have oth: "at_point l i j (basic_leapfrog_point e l i' j' t) = at_point l i j t"
    if "i' \<noteq> i \<or> j' \<noteq> j" for i' j' t
    using that by (auto simp: at_point_def basic_leapfrog_point_load fun_eq_iff)
  obtain t where t: "at_point l i j t = at_point l i j s'"
     "at_point l i j (for_points (NP e) (basic_leapfrog_point e l) s')
      = at_point l i j (basic_leapfrog_point e l i j t)"
    using for_points_split[where f = "at_point l i j" and body = "basic_leapfrog_point e l",
        OF assms(2,3), of s'] oth
    by blast
  show ?thesis using s' t by auto
qed

lemma at_point_load:
  "at_point l i j t = at_point l i j s \<Longrightarrow> f \<noteq> SPHEREMP \<Longrightarrow> load t f l i j = load s f l i j"
  "at_point l i j t = at_point l i j s \<Longrightarrow> load t SPHEREMP 0 i j = load s SPHEREMP 0 i j"
  by (simp_all add: at_point_def fun_eq_iff split: if_splits) metis+

lemma velocity_point_leapfrog:
  "load (velocity_point e l i j s) U_future l i j
     = load s SPHEREMP 0 i j
       * (load s U_previous l i j
          + dt2 e * vtens1 l i j (store vort 0 i j (load s vort 0 i j + load s FCOR 0 i j) s))"
  "load (velocity_point e l i j s) V_future l i j
     = load s SPHEREMP 0 i j
       * (load s V_previous l i j
          + dt2 e * vtens2 l i j (store vort 0 i j (load s vort 0 i j + load s FCOR 0 i j) s))"
  by (simp_all add: velocity_point_def Let_def load_store vtens1_def vtens2_def)

lemma stuff_point_leapfrog:
  "load (stuff_point e l i j s) T_future l i j
     = load s SPHEREMP 0 i j * (load s T_previous l i j + dt2 e * ttens e l i j s)"
  "load (stuff_point e l i j s) DP3D_future l i j
     = load s SPHEREMP 0 i j * (load s DP3D_previous l i j + dt2 e * (- load s div_vdp l i j))"
  by (simp_all add: stuff_point_def Let_def load_store ttens_def)

lemma store_view_obs_none:
  "(\<And>i j x s. f (store g l i j x s) = f s) \<Longrightarrow> f (store_view n g l out s) = f s"
  unfolding store_view_def by (rule for_points_obs_none) simp

lemma store_vector_obs_none:
  "(\<And>h i j x s. f (store (G h) l i j x s) = f s) \<Longrightarrow> f (store_vector n G l out s) = f s"
  unfolding store_vector_def for_range_def
  by (rule fold_obs_none, rule store_view_obs_none) simp

lemma compute_stuff_dp3d:
  assumes "l < NUM_LEV e" "i < NP e" "j < NP e"
  shows "load (compute_stuff e s) DP3D_future l i j
         = load s SPHEREMP 0 i j * (load s DP3D_previous l i j - dt2 e * load s div_vdp l i j)"
proof -
  let ?level = "\<lambda>ilev s. for_points (NP e) (stuff_point e ilev)
                  (store_vector (NP e) vector_buf ilev
                     (gradient_sphere e (subview s T_current ilev) (subtensor s c_dinv)) s)"
  have vec: "dp3d_obs l i j (store_vector n vector_buf l' out s') = dp3d_obs l i j s'" for n l' out s'
    by (rule store_vector_obs_none) (simp add: dp3d_obs_def load_store)
  have pt: "dp3d_obs l i j (stuff_point e l' i' j' s') = dp3d_obs l i j s'"
    if "l' \<noteq> l \<or> i' \<noteq> i \<or> j' \<noteq> j" for l' i' j' s'
    using that by (auto simp: dp3d_obs_def stuff_point_def Let_def load_store)
  have lev: "dp3d_obs l i j (?level l' s') = dp3d_obs l i j s'" if "l' \<noteq> l" for l' s'
    using for_points_obs_none[where f = "dp3d_obs l i j" and body = "stuff_point e l'"] pt that
    by (simp add: vec)
  obtain s' where s': "dp3d_obs l i j s' = dp3d_obs l i j s"
     "dp3d_obs l i j (compute_stuff e s) = dp3d_obs l i j (?level l s')"
    unfolding compute_stuff_def Let_def
    using parallel_for_split[where f = "dp3d_obs l i j" and body = ?level, OF assms(1)] lev
    by blast
  obtain t where t: "dp3d_obs l i j t
        = dp3d_obs l i j (store_vector (NP e) vector_buf l
             (gradient_sphere e (subview s' T_current l) (subtensor s' c_dinv)) s')"
     "dp3d_obs l i j (?level l s') = dp3d_obs l i j (stuff_point e l i j t)"
    using for_points_split[where f = "dp3d_obs l i j" and body = "stuff_point e l", OF assms(2,3)] pt
    by blast
  have "dp3d_obs l i j t = dp3d_obs l i j s" using t(1) s'(1) by (simp add: vec)
  then have in_eq: "load t SPHEREMP 0 i j = load s SPHEREMP 0 i j"
      "load t DP3D_previous l i j = load s DP3D_previous l i j"
      "load t div_vdp l i j = load s div_vdp l i j"
    by (simp_all add: dp3d_obs_def)
  have "load (compute_stuff e s) DP3D_future l i j = load (stuff_point e l i j t) DP3D_future l i j"
    using s'(2) t(2) by (simp add: dp3d_obs_def)
  then show ?thesis by (simp add: stuff_point_leapfrog in_eq)
qed

lemma basic_leapfrog_load:
  assumes "l < NUM_LEV e" "i < NP e" "j < NP e"
  shows "load (basic_leapfrog e s) U_future l i j
           = load s SPHEREMP 0 i j * (load s U_previous l i j + dt2 e * load s vtens1_buf l i j)"
    and "load (basic_leapfrog e s) V_future l i j
           = load s SPHEREMP 0 i j * (load s V_previous l i j + dt2 e * load s vtens1_buf l i j)"
    and "load (basic_leapfrog e s) T_future l i j
           = load s SPHEREMP 0 i j * (load s T_previous l i j + dt2 e * load s ttens_buf l i j)"
    and "load (basic_leapfrog e s) DP3D_future l i j
           = load s SPHEREMP 0 i j * (load s DP3D_previous l i j + dt2 e * load s div_vdp l i j)"
proof -
  obtain t where t: "at_point l i j t = at_point l i j s"
     "at_point l i j (basic_leapfrog e s) = at_point l i j (basic_leapfrog_point e l i j t)"
    using basic_leapfrog_values[OF assms] by blast
  have r: "load (basic_leapfrog e s) f l i j = load (basic_leapfrog_point e l i j t) f l i j"
    if "f \<noteq> SPHEREMP" for f
    using at_point_load(1)[OF t(2) that] .
  show "load (basic_leapfrog e s) U_future l i j
           = load s SPHEREMP 0 i j * (load s U_previous l i j + dt2 e * load s vtens1_buf l i j)"
    by (simp add: r basic_leapfrog_point_load at_point_load[OF t(1)])
  show "load (basic_leapfrog e s) V_future l i j
           = load s SPHEREMP 0 i j * (load s V_previous l i j + dt2 e * load s vtens1_buf l i j)"
    by (simp add: r basic_leapfrog_point_load at_point_load[OF t(1)])
  show "load (basic_leapfrog e s) T_future l i j
           = load s SPHEREMP 0 i j * (load s T_previous l i j + dt2 e * load s ttens_buf l i j)"
    by (simp add: r basic_leapfrog_point_load at_point_load[OF t(1)])
  show "load (basic_leapfrog e s) DP3D_future l i j
           = load s SPHEREMP 0 i j * (load s DP3D_previous l i j + dt2 e * load s div_vdp l i j)"
    by (simp add: r basic_leapfrog_point_load at_point_load[OF t(1)])
qed

text \<open>
  Claim C4, on kokkos_basic. The leapfrog loop of kokkos_basic
  (\<open>compute_and_apply_rhs\<close>, the last loop nest) writes, at every level and point,
  \<open>future = spheremp * (previous + dt2 * tendency)\<close> with the tendency \<open>vtens1\<close> for U
  and \<open>ttens\<close> for T, but it uses \<open>vtens1\<close> again for V, where the claim has
  \<open>vtens2\<close>, and \<open>+ div_vdp\<close> for DP3D, where the claim has \<open>- div_vdp\<close>.
  (\<open>velocity_point_leapfrog\<close> and \<open>stuff_point_leapfrog\<close> above show that the updates of
  kokkos_scratch have the tendencies of the claim.)
\<close>

theorem basic_leapfrog_update:
  assumes "l < NUM_LEV e" "i < NP e" "j < NP e"
  shows "load (basic_leapfrog e s) U_future l i j
           = load s SPHEREMP 0 i j * (load s U_previous l i j + dt2 e * load s vtens1_buf l i j)
       \<and> load (basic_leapfrog e s) V_future l i j
           = load s SPHEREMP 0 i j * (load s V_previous l i j + dt2 e * load s vtens1_buf l i j)
       \<and> load (basic_leapfrog e s) T_future l i j
           = load s SPHEREMP 0 i j * (load s T_previous l i j + dt2 e * load s ttens_buf l i j)
       \<and> load (basic_leapfrog e s) DP3D_future l i j
           = load s SPHEREMP 0 i j * (load s DP3D_previous l i j + dt2 e * load s div_vdp l i j)"
  using basic_leapfrog_load[OF assms, of s] by simp

theorem basic_leapfrog_update_witness:
  "load (basic_leapfrog example_params example_state) V_future 0 0 0 = 6
   \<and> load example_state SPHEREMP 0 0 0
       * (load example_state V_previous 0 0 0
          + dt2 example_params * load example_state vtens2_buf 0 0 0) = 7
   \<and> load (basic_leapfrog example_params example_state) DP3D_future 0 0 0 = 6
   \<and> load example_state SPHEREMP 0 0 0
       * (load example_state DP3D_previous 0 0 0
          + dt2 example_params * (- load example_state div_vdp 0 0 0)) = 2"
proof -
  have h: "0 < NUM_LEV example_params" "0 < NP example_params"
    by (simp_all add: example_params_def)
  show ?thesis
    using basic_leapfrog_update[OF h(1) h(2) h(2), of example_state]
    by (simp add: example_state_def load_def) (simp add: example_params_def)
qed

text \<open>
  Claim C5. The two parallel paths do not agree on the future slot of DP3D: from the
  same mass matrix, previous thickness and flux divergence \<open>div_vdp\<close>, the last loop of
  kokkos_basic writes \<open>spheremp * (previous + dt2 * div_vdp)\<close> and \<open>compute_stuff\<close> of
  kokkos_scratch writes \<open>spheremp * (previous - dt2 * div_vdp)\<close>, so that they differ
  wherever \<open>spheremp * dt2 * div_vdp\<close> is not zero and cannot both agree with a serial
  reference.
\<close>

theorem leapfrog_paths_differ:
  assumes "l < NUM_LEV e" "i < NP e" "j < NP e"
  shows "load (basic_leapfrog e s) DP3D_future l i j
           = load s SPHEREMP 0 i j * (load s DP3D_previous l i j + dt2 e * load s div_vdp l i j)
       \<and> load (compute_stuff e s) DP3D_future l i j
           = load s SPHEREMP 0 i j * (load s DP3D_previous l i j - dt2 e * load s div_vdp l i j)
       \<and> load (basic_leapfrog e s) DP3D_future l i j - load (compute_stuff e s) DP3D_future l i j
           = 2 * (load s SPHEREMP 0 i j * dt2 e * load s div_vdp l i j)"
  using basic_leapfrog_load(4)[OF assms, of s] compute_stuff_dp3d[OF assms, of s]
  by (simp add: algebra_simps)

theorem leapfrog_paths_differ_witness:
  "load (basic_leapfrog example_params example_state) DP3D_future 0 0 0 = 6
   \<and> load (compute_stuff example_params example_state) DP3D_future 0 0 0 = 2"
proof -
  have h: "0 < NUM_LEV example_params" "0 < NP example_params"
    by (simp_all add: example_params_def)
  show ?thesis
    using leapfrog_paths_differ[OF h(1) h(2) h(2), of example_state]
    by (simp add: example_state_def load_def) (simp add: example_params_def)
qed

lemma stable_store: "stable F P \<Longrightarrow> f \<in> F \<Longrightarrow> P s \<Longrightarrow> P (store f l i j x s)"
  by (simp add: stable_def)

lemma stable_divide_check: "stable F P \<Longrightarrow> P s \<Longrightarrow> P (divide_check d s)"
  by (simp add: stable_def)

lemma stable_mono: "F \<subseteq> G \<Longrightarrow> stable G P \<Longrightarrow> stable F P"
  by (auto simp: stable_def)

lemma stable_store_view:
  assumes "stable F P" "f \<in> F" "P s"
  shows "P (store_view n f l out s)"
  by (rule store_view_inv[where P = P, OF assms(3)]) (rule stable_store[OF assms(1,2)])

lemma stable_store_vector:
  assumes "stable F P" "G 0 \<in> F" "G 1 \<in> F" "P s"
  shows "P (store_vector n G l out s)"
proof (rule store_vector_inv[where P = P, OF assms(4)])
  fix h i j x s'
  assume "h < (2::nat)" "P s'"
  moreover from \<open>h < 2\<close> have "h = 0 \<or> h = 1" by auto
  ultimately show "P (store (G h) l i j x s')"
    using assms(2,3) by (auto intro: stable_store[OF assms(1)])
qed

lemma init_const_cache_stable:
  assumes st: "stable cache_fields P" and "P s"
  shows "P (init_const_cache e s)"
  unfolding init_const_cache_def
  by (intro for_points_inv[where P = P] for_range_inv[where P = P] stable_store[OF st] assms(2))
     (simp_all add: cache_fields_def)

lemma temperature_stable:
  assumes st: "stable {T_v} P" and "P s"
  shows "P (compute_temperature_no_tracers_helper e l s)"
    and "P (compute_temperature_tracers_helper e l s)"
  unfolding compute_temperature_no_tracers_helper_def compute_temperature_tracers_helper_def
    temperature_no_tracers_point_def temperature_tracers_point_def Let_def
  by (intro for_points_inv[where P = P] stable_store[OF st] stable_divide_check[OF st] assms(2);
      simp)+

lemma compute_div_vdp_stable:
  assumes st: "stable div_vdp_fields P" and "P s"
  shows "P (compute_div_vdp e l s)"
  unfolding compute_div_vdp_def div_vdp_point_def Let_def
  by (intro stable_store_view[OF st] for_points_inv[where P = P] stable_store[OF st] assms(2);
      simp add: div_vdp_fields_def)

lemma compute_temperature_div_vdp_stable:
  assumes st: "stable ({T_v} \<union> div_vdp_fields) P" and "P s"
  shows "P (compute_temperature_div_vdp e s)"
proof -
  have st1: "stable {T_v} P" and st2: "stable div_vdp_fields P"
    by (rule stable_mono[OF _ st], auto)+
  show ?thesis
    unfolding compute_temperature_div_vdp_def
    by (auto intro!: parallel_for_inv[where P = P] assms(2) compute_div_vdp_stable[OF st2]
          temperature_stable[OF st1])
qed

lemma compute_pressure_stable:
  assumes st: "stable {pressure} P" and "P s"
  shows "P (compute_pressure e s)"
  unfolding compute_pressure_def Let_def
  by (intro for_range_inv[where P = P] for_points_inv[where P = P] stable_store[OF st] assms(2);
      simp)

lemma hydrostatic_point_stable:
  assumes st: "stable {PHI} P" and "P s"
  shows "P (hydrostatic_point e i j s)"
proof -
  have bot: "P (snd (hydrostatic_bottom e i j s))"
    unfolding hydrostatic_bottom_def Let_def snd_conv
    by (intro stable_store[OF st] stable_divide_check[OF st] assms(2)) simp
  have lev: "P (snd (hydrostatic_level e i j l ps))" if "P (snd ps)" for l ps
    using that unfolding hydrostatic_level_def Let_def
    by (cases ps) (auto intro!: stable_store[OF st] stable_divide_check[OF st])
  have loop: "P (snd (for_down (NUM_LEV e - 1) 1 (hydrostatic_level e i j)
                 (hydrostatic_bottom e i j s)))"
    by (rule for_down_inv[where P = "\<lambda>ps. P (snd ps)"]) (use bot lev in auto)
  show ?thesis
    unfolding hydrostatic_point_def
    using loop
    by (cases "for_down (NUM_LEV e - 1) 1 (hydrostatic_level e i j) (hydrostatic_bottom e i j s)")
       (auto simp: hydrostatic_top_def Let_def intro!: stable_store[OF st] stable_divide_check[OF st])
qed

lemma preq_hydrostatic_stable:
  assumes st: "stable {PHI} P" and "P s"
  shows "P (preq_hydrostatic e s)"
  unfolding preq_hydrostatic_def
  by (intro for_range_inv[where P = P] hydrostatic_point_stable[OF st] assms(2))

lemma preq_omega_ps_stable:
  assumes st: "stable omega_fields P" and "P s"
  shows "P (preq_omega_ps e s)"
proof -
  have g: "grad_p 0 \<in> omega_fields" "grad_p 1 \<in> omega_fields"
    by (simp_all add: omega_fields_def)
  have init: "P (omega_ps_init_point i j t)" if "P t" for i j t
    unfolding omega_ps_init_point_def Let_def
    by (intro stable_store[OF st] stable_divide_check[OF st] that) (simp_all add: omega_fields_def)
  have loop: "P (omega_ps_loop_point l i j t)" if "P t" for l i j t
    unfolding omega_ps_loop_point_def Let_def
    by (intro stable_store[OF st] stable_divide_check[OF st] that) (simp_all add: omega_fields_def)
  have tail: "P (omega_ps_tail_point e i j t)" if "P t" for i j t
    unfolding omega_ps_tail_point_def Let_def
    by (intro stable_store[OF st] stable_divide_check[OF st] that) (simp_all add: omega_fields_def)
  have s1: "P (preq_omega_ps_init e s)"
    unfolding preq_omega_ps_init_def Let_def
    by (intro for_points_inv[where P = P] stable_store_vector[OF st g] init assms(2))
  have s2: "P (preq_omega_ps_loop e (preq_omega_ps_init e s))"
    unfolding preq_omega_ps_loop_def omega_ps_level_def Let_def
    by (intro for_range_inv[where P = P] for_points_inv[where P = P]
          stable_store_vector[OF st g] loop s1)
  show ?thesis
    unfolding preq_omega_ps_def preq_omega_ps_tail_def Let_def
    by (intro for_points_inv[where P = P] stable_store_vector[OF st g] tail s2)
qed

lemma compute_scan_properties_stable:
  assumes st: "stable ({pressure} \<union> {PHI} \<union> omega_fields) P" and "P s"
  shows "P (compute_scan_properties e s)"
proof -
  have st1: "stable {pressure} P" and st2: "stable {PHI} P" and st3: "stable omega_fields P"
    by (rule stable_mono[OF _ st], auto)+
  show ?thesis
    unfolding compute_scan_properties_def
    by (intro preq_omega_ps_stable[OF st3] preq_hydrostatic_stable[OF st2]
          compute_pressure_stable[OF st1] assms(2))
qed

lemma compute_velocity_stable:
  assumes st: "stable velocity_fields P" and "P s"
  shows "P (compute_velocity e l s)"
proof -
  have v: "vector_buf 0 \<in> velocity_fields" "vector_buf 1 \<in> velocity_fields"
    by (simp_all add: velocity_fields_def)
  have gp: "P (gpterm_point e l idx t)" if "P t" for idx t
    unfolding gpterm_point_def Let_def
    by (intro stable_store[OF st] stable_divide_check[OF st] that) (simp add: velocity_fields_def)
  have en: "P (energy_point l i j t)" if "P t" for i j t
    unfolding energy_point_def Let_def
    by (intro stable_store[OF st] that) (simp_all add: velocity_fields_def)
  have eg: "P (compute_energy_grad e l t)" if "P t" for t
    unfolding compute_energy_grad_def Let_def
    by (intro stable_store_vector[OF st v] for_points_inv[where P = P] en that)
  have vp: "P (velocity_point e l i j t)" if "P t" for i j t
    unfolding velocity_point_def Let_def
    by (intro stable_store[OF st] that) (simp_all add: velocity_fields_def)
  show ?thesis
    unfolding compute_velocity_def Let_def
    by (intro for_points_inv[where P = P] vp stable_store_view[OF st] eg
          parallel_for_inv[where P = P] gp stable_store_vector[OF st v] assms(2))
       (simp add: velocity_fields_def)
qed

lemma compute_eta_dpdn_stable:
  assumes st: "stable {ETA_DPDN} P" and "P s"
  shows "P (compute_eta_dpdn e l s)"
  unfolding compute_eta_dpdn_def eta_dpdn_point_def Let_def
  by (intro for_points_inv[where P = P] stable_store[OF st] assms(2)) simp

lemma compute_velocity_eta_dpdn_stable:
  assumes st: "stable (velocity_fields \<union> {ETA_DPDN}) P" and "P s"
  shows "P (compute_velocity_eta_dpdn e s)"
proof -
  have st1: "stable velocity_fields P" and st2: "stable {ETA_DPDN} P"
    by (rule stable_mono[OF _ st], auto)+
  show ?thesis
    unfolding compute_velocity_eta_dpdn_def
    by (intro parallel_for_inv[where P = P] compute_eta_dpdn_stable[OF st2]
          compute_velocity_stable[OF st1] assms(2))
qed

lemma compute_stuff_stable:
  assumes st: "stable stuff_fields P" and "P s"
  shows "P (compute_stuff e s)"
proof -
  have v: "vector_buf 0 \<in> stuff_fields" "vector_buf 1 \<in> stuff_fields"
    by (simp_all add: stuff_fields_def)
  have sp: "P (stuff_point e l i j t)" if "P t" for l i j t
    unfolding stuff_point_def Let_def
    by (intro stable_store[OF st] that) (simp_all add: stuff_fields_def)
  show ?thesis
    unfolding compute_stuff_def Let_def
    by (intro parallel_for_inv[where P = P] for_points_inv[where P = P] sp
          stable_store_vector[OF st v] assms(2))
qed

lemma update_state_stable:
  assumes st: "stable update_state_fields P" and "P s"
  shows "P (update_state e s)"
proof -
  have st1: "stable cache_fields P"
    and st2: "stable ({T_v} \<union> div_vdp_fields) P"
    and st3: "stable ({pressure} \<union> {PHI} \<union> omega_fields) P"
    and st4: "stable (velocity_fields \<union> {ETA_DPDN}) P"
    and st5: "stable stuff_fields P"
    by (rule stable_mono[OF _ st], auto simp: update_state_fields_def)+
  show ?thesis
    unfolding update_state_def
    by (intro compute_stuff_stable[OF st5] compute_velocity_eta_dpdn_stable[OF st4]
          compute_scan_properties_stable[OF st3] compute_temperature_div_vdp_stable[OF st2]
          init_const_cache_stable[OF st1] assms(2))
qed

lemma levels_written_store:
  "levels_written f i j (store g l i' j' x s)
   = levels_written f i j s @ (if g = f \<and> i' = i \<and> j' = j then [l] else [])"
  by (simp add: levels_written_def writes_store in_column_def)

lemma levels_written_divide_check:
  "levels_written f i j (divide_check d s) = levels_written f i j s"
  by (simp add: levels_written_def writes_divide_check)

lemma stable_levels_written:
  "f \<notin> F \<Longrightarrow> stable F (\<lambda>s. levels_written f i j s = c)"
  by (auto simp: stable_def levels_written_store levels_written_divide_check)

lemma stable_load:
  "f \<notin> F \<Longrightarrow> stable F (\<lambda>s. load s f l i j = c)"
  by (auto simp: stable_def load_store load_divide_check)

lemma level_loop_written:
  assumes lev: "\<And>l s. levels_written f i j (body l s) = levels_written f i j s @ [l]"
  shows "levels_written f i j (parallel_for n body s) = levels_written f i j s @ [0..<n]"
proof -
  have "levels_written f i j (fold body xs s) = levels_written f i j s @ xs" for xs
    by (induction xs arbitrary: s) (simp_all add: lev)
  then show ?thesis by (simp add: parallel_for_def)
qed

lemma points_written:
  assumes "i < n" "j < n"
    and other: "\<And>i' j' s. i' \<noteq> i \<or> j' \<noteq> j
                  \<Longrightarrow> levels_written f i j (body i' j' s) = levels_written f i j s"
    and here: "\<And>s. levels_written f i j (body i j s) = levels_written f i j s @ ls"
  shows "levels_written f i j (for_points n body s) = levels_written f i j s @ ls"
  by (rule for_points_obs[where f = "levels_written f i j" and g = "\<lambda>c. c @ ls", OF assms(1,2)])
     (simp_all add: other here)

lemma compute_eta_dpdn_written:
  assumes "i < NP e" "j < NP e"
  shows "levels_written ETA_DPDN i j (compute_eta_dpdn e l s) = levels_written ETA_DPDN i j s @ [l]"
  unfolding compute_eta_dpdn_def
  by (rule points_written[OF assms])
     (auto simp: eta_dpdn_point_def Let_def levels_written_store)

lemma compute_velocity_eta_dpdn_written:
  assumes "i < NP e" "j < NP e"
  shows "levels_written ETA_DPDN i j (compute_velocity_eta_dpdn e s)
         = levels_written ETA_DPDN i j s @ [0..<NUM_LEV e]"
  unfolding compute_velocity_eta_dpdn_def
proof (rule level_loop_written)
  fix l s
  have "levels_written ETA_DPDN i j (compute_velocity e l s) = levels_written ETA_DPDN i j s"
    by (rule compute_velocity_stable[where P = "\<lambda>s'. levels_written ETA_DPDN i j s' = levels_written ETA_DPDN i j s"])
       (auto intro!: stable_levels_written simp: velocity_fields_def)
  then show "levels_written ETA_DPDN i j (compute_eta_dpdn e l (compute_velocity e l s))
             = levels_written ETA_DPDN i j s @ [l]"
    by (simp add: compute_eta_dpdn_written[OF assms])
qed

lemma eta_dpdn_unchanged:
  "load (compute_eta_dpdn e l s) f l' i j = load s f l' i j"
  unfolding compute_eta_dpdn_def
  by (rule for_points_obs_none[where f = "\<lambda>s. load s f l' i j"])
     (simp add: eta_dpdn_point_def Let_def load_store)

lemma update_state_eta_dpdn_levels:
  assumes "i < NP e" "j < NP e"
  shows "levels_written ETA_DPDN i j (update_state e s)
           = levels_written ETA_DPDN i j s @ [0..<NUM_LEV e]
       \<and> NUM_LEV e \<notin> set [0..<NUM_LEV e] \<and> NUM_LEV e < NUM_LEV_P e
       \<and> (\<forall>l. load (update_state e s) ETA_DPDN l i j = load s ETA_DPDN l i j)"
proof -
  define s1 where "s1 = compute_scan_properties e (compute_temperature_div_vdp e (init_const_cache e s))"
  define s2 where "s2 = compute_velocity_eta_dpdn e s1"
  have r: "update_state e s = compute_stuff e s2"
    by (simp add: update_state_def s1_def s2_def)
  have nf: "ETA_DPDN \<notin> cache_fields" "ETA_DPDN \<notin> {T_v} \<union> div_vdp_fields"
    "ETA_DPDN \<notin> {pressure} \<union> {PHI} \<union> omega_fields" "ETA_DPDN \<notin> stuff_fields"
    "ETA_DPDN \<notin> velocity_fields"
    by (auto simp: cache_fields_def div_vdp_fields_def omega_fields_def stuff_fields_def
          velocity_fields_def)
  have pre: "P s1" if "P s" "\<And>F. ETA_DPDN \<notin> F \<Longrightarrow> stable F P" for P
    unfolding s1_def
    by (intro compute_scan_properties_stable[where P = P] compute_temperature_div_vdp_stable[where P = P]
          init_const_cache_stable[where P = P] that nf)
  have w1: "levels_written ETA_DPDN i j s1 = levels_written ETA_DPDN i j s"
    by (rule pre) (simp_all add: stable_levels_written)
  have w2: "levels_written ETA_DPDN i j s2 = levels_written ETA_DPDN i j s @ [0..<NUM_LEV e]"
    by (simp add: s2_def compute_velocity_eta_dpdn_written[OF assms] w1)
  have w3: "levels_written ETA_DPDN i j (compute_stuff e s2) = levels_written ETA_DPDN i j s2"
    by (rule compute_stuff_stable[where P = "\<lambda>s'. levels_written ETA_DPDN i j s' = levels_written ETA_DPDN i j s2"])
       (simp_all add: stable_levels_written nf)
  have v1: "load s1 ETA_DPDN l i j = load s ETA_DPDN l i j" for l
    by (rule pre) (simp_all add: stable_load)
  have v2: "load s2 ETA_DPDN l i j = load s1 ETA_DPDN l i j" for l
    unfolding s2_def compute_velocity_eta_dpdn_def
  proof (rule parallel_for_inv[where P = "\<lambda>s'. load s' ETA_DPDN l i j = load s1 ETA_DPDN l i j"])
    fix x s' assume "load s' ETA_DPDN l i j = load s1 ETA_DPDN l i j"
    moreover have "load (compute_velocity e x s') ETA_DPDN l i j = load s' ETA_DPDN l i j"
      by (rule compute_velocity_stable[where P = "\<lambda>t. load t ETA_DPDN l i j = load s' ETA_DPDN l i j"])
         (simp_all add: stable_load nf)
    ultimately show "load (compute_eta_dpdn e x (compute_velocity e x s')) ETA_DPDN l i j
                     = load s1 ETA_DPDN l i j"
      by (simp add: eta_dpdn_unchanged)
  qed simp
  have v3: "load (compute_stuff e s2) ETA_DPDN l i j = load s2 ETA_DPDN l i j" for l
    by (rule compute_stuff_stable[where P = "\<lambda>s'. load s' ETA_DPDN l i j = load s2 ETA_DPDN l i j"])
       (simp_all add: stable_load nf)
  show ?thesis
    by (simp add: r w3 w2 v3 v2 v1 NUM_LEV_P_def)
qed

lemma basic_eta_omega_written:
  assumes "i < NP e" "j < NP e"
  shows "levels_written OMEGA_P i j (basic_eta_omega e s)
           = levels_written OMEGA_P i j s @ [0..<NUM_LEV e + 1]"
    and "levels_written ETA_DPDN i j (basic_eta_omega e s)
           = levels_written ETA_DPDN i j s @ [0..<NUM_LEV e + 1]"
  unfolding basic_eta_omega_def NUM_LEV_P_def
  by (rule level_loop_written, rule points_written[OF assms];
      auto simp: basic_eta_omega_point_def Let_def levels_written_store)+

lemma basic_tendency_written:
  assumes "i < NP e" "j < NP e"
  shows "levels_written vtens1_buf i j (basic_tendency e s)
           = levels_written vtens1_buf i j s @ [0..<NUM_LEV e + 1]"
  unfolding basic_tendency_def NUM_LEV_P_def
proof (rule level_loop_written)
  fix l s
  let ?P = "\<lambda>s'. levels_written vtens1_buf i j s' = levels_written vtens1_buf i j s"
  have st: "stable {Ephi, vgrad_T, grad_tmp 0, grad_tmp 1} ?P"
    by (rule stable_levels_written) simp
  have pt: "levels_written vtens1_buf i j (for_points (NP e) (basic_tendency_point e l) s')
            = levels_written vtens1_buf i j s' @ [l]" for s'
    by (rule points_written[OF assms])
       (auto simp: basic_tendency_point_def Let_def levels_written_store levels_written_divide_check)
  show "levels_written vtens1_buf i j (basic_tendency_level e l s)
        = levels_written vtens1_buf i j s @ [l]"
    unfolding basic_tendency_level_def Let_def pt
    by (simp, intro stable_store_vector[OF st] for_points_inv[where P = ?P] stable_store[OF st])
       simp_all
qed

text \<open>
  Claim C10, on kokkos_basic. The two loops of \<open>compute_and_apply_rhs\<close> that run over
  \<open>NUM_LEV_P = NUM_LEV + 1\<close> levels access fields of vertical extent \<open>NUM_LEV\<close> at
  level \<open>NUM_LEV\<close>: at every point the accumulation loop writes \<open>OMEGA_P\<close> (and reads
  \<open>omega_p\<close>) at levels \<open>0 .. NUM_LEV\<close>, and the tendency loop writes the local array
  \<open>vtens1\<close> at levels \<open>0 .. NUM_LEV\<close>. The last of these writes is out of bounds.
\<close>

theorem basic_loops_out_of_bounds:
  assumes "i < NP e" "j < NP e"
  shows "levels_written OMEGA_P i j (basic_eta_omega e s)
           = levels_written OMEGA_P i j s @ [0..<NUM_LEV e] @ [NUM_LEV e]
       \<and> vertical_extent e OMEGA_P = NUM_LEV e
       \<and> levels_written vtens1_buf i j (basic_tendency e s)
           = levels_written vtens1_buf i j s @ [0..<NUM_LEV e] @ [NUM_LEV e]
       \<and> vertical_extent e vtens1_buf = NUM_LEV e"
  using basic_eta_omega_written(1)[OF assms, of s] basic_tendency_written[OF assms, of s]
  by (auto simp: vertical_extent_def)

theorem basic_loops_out_of_bounds_witness:
  "levels_written OMEGA_P 0 0 (basic_eta_omega example_params example_state) = [0, 1, 2, 3]
   \<and> vertical_extent example_params OMEGA_P = 3
   \<and> levels_written vtens1_buf 0 0 (basic_tendency example_params example_state) = [0, 1, 2, 3]
   \<and> vertical_extent example_params vtens1_buf = 3"
proof -
  have h: "0 < NP example_params" by (simp add: example_params_def)
  have w: "levels_written f 0 0 example_state = []" for f
    by (simp add: levels_written_def example_state_def)
  have n: "NUM_LEV example_params = 3" by (simp add: example_params_def)
  show ?thesis
    using basic_loops_out_of_bounds[OF h h, of example_state]
    by (simp add: w n upt_conv_Cons)
qed

lemma update_state_fields_eq:
  "update_state_fields
   = future_fields \<union> accumulator_fields \<union> {PHI} \<union> scratch_fields \<union> local_fields"
  by (auto simp: update_state_fields_def future_fields_def accumulator_fields_def
        scratch_fields_def local_fields_def cache_fields_def div_vdp_fields_def omega_fields_def
        velocity_fields_def stuff_fields_def)

lemma input_fields_disjoint: "input_fields \<inter> update_state_fields = {}"
  by (auto simp: update_state_fields_def input_fields_def
        cache_fields_def div_vdp_fields_def omega_fields_def velocity_fields_def stuff_fields_def)

lemma stable_unchanged_except: "stable F (unchanged_except F s)"
  by (simp add: stable_def unchanged_except_store unchanged_except_divide_check)

lemma stable_writes_within: "stable F (writes_within F s)"
  by (auto simp: stable_def writes_within_def writes_store writes_divide_check)

lemma update_state_unchanged:
  "unchanged_except update_state_fields s (update_state e s)"
  by (rule update_state_stable[OF stable_unchanged_except]) (rule unchanged_except_refl)

lemma update_state_writes:
  "writes_within update_state_fields s (update_state e s)"
  by (rule update_state_stable[OF stable_writes_within]) (simp add: writes_within_def)

lemma compute_and_apply_rhs_element:
  "compute_and_apply_rhs e region ie
   = (if ie < num_elems e then update_state e (region ie) else region ie)"
proof (cases "ie < num_elems e")
  case True
  have "(fold (\<lambda>ie region. region(ie := update_state e (region ie))) [0..<num_elems e] region) ie
        = update_state e (region ie)"
    by (rule fold_obs_one[where f = "\<lambda>r. r ie" and k = ie]) (use True in auto)
  then show ?thesis using True by (simp add: compute_and_apply_rhs_def parallel_for_def)
next
  case False
  have "(fold (\<lambda>ie region. region(ie := update_state e (region ie))) [0..<num_elems e] region) ie
        = region ie"
    by (rule fold_obs_none[where f = "\<lambda>r. r ie"]) (use False in auto)
  then show ?thesis using False by (simp add: compute_and_apply_rhs_def parallel_for_def)
qed

lemma temperature_no_tracers_value:
  assumes "i < NP e" "j < NP e"
  shows "load (compute_temperature_no_tracers_helper e l s) T_v l i j = load s T_current l i j"
proof -
  let ?f = "\<lambda>s. (load s T_v l i j, load s T_current l i j)"
  have other: "?f (temperature_no_tracers_point l i' j' t) = ?f t" if "i' \<noteq> i \<or> j' \<noteq> j" for i' j' t
    using that by (auto simp: temperature_no_tracers_point_def load_store)
  obtain t where t: "?f t = ?f s"
      "?f (for_points (NP e) (temperature_no_tracers_point l) s) = ?f (temperature_no_tracers_point l i j t)"
    using for_points_split[where f = ?f and body = "temperature_no_tracers_point l", OF assms other]
    by blast
  then show ?thesis
    by (simp add: compute_temperature_no_tracers_helper_def temperature_no_tracers_point_def load_store)
qed

lemma compute_temperature_div_vdp_no_tracers:
  assumes "qn0 e = -1" "l < NUM_LEV e" "i < NP e" "j < NP e"
  shows "load (compute_temperature_div_vdp e s) T_v l i j = load s T_current l i j"
proof -
  let ?f = "\<lambda>s. (load s T_v l i j, load s T_current l i j)"
  let ?body = "\<lambda>ilev s. compute_div_vdp e ilev (compute_temperature_no_tracers_helper e ilev s)"
  have dv: "?f (compute_div_vdp e l' s') = ?f s'" for l' s'
    by (rule compute_div_vdp_stable[where P = "\<lambda>t. ?f t = ?f s'"])
       (auto simp: stable_def load_store load_divide_check div_vdp_fields_def)
  have oth: "?f (?body l' s') = ?f s'" if "l' \<noteq> l" for l' s'
    unfolding dv compute_temperature_no_tracers_helper_def
    by (rule for_points_obs_none[where f = ?f])
       (use that in \<open>simp add: temperature_no_tracers_point_def load_store\<close>)
  obtain s' where s': "?f s' = ?f s" "?f (parallel_for (NUM_LEV e) ?body s) = ?f (?body l s')"
    using parallel_for_split[where f = ?f and body = ?body, OF assms(2)] oth by blast
  have "load (?body l s') T_v l i j = load s' T_current l i j"
    using dv[of l "compute_temperature_no_tracers_helper e l s'"]
      temperature_no_tracers_value[OF assms(3,4), of l s']
    by simp
  then show ?thesis
    using s' assms(1) by (simp add: compute_temperature_div_vdp_def)
qed

lemma compute_pressure_const:
  assumes "i < NP e" "j < NP e" "\<forall>l<NUM_LEV e. load s DP3D_current l i j = c" "l < NUM_LEV e"
  shows "load (compute_pressure e s) pressure l i j = hybrid_a e 0 * ps0 e + c * (real l + 0.5)"
proof -
  have "load (compute_pressure e s) pressure l i j
        = fst (fold pressure_next [1..<NUM_LEV e]
                 (pressure_top (hybrid_a e 0 * ps0 e) (pressure_obs i j s))) l"
    using compute_pressure_column[OF assms(1,2), of s]
    by (simp add: pressure_obs_def fun_eq_iff prod_eq_iff)
  then show ?thesis
    using pressure_scan_const[of l "NUM_LEV e" "pressure_obs i j s" c "hybrid_a e 0 * ps0 e"] assms(3,4)
    by (simp add: pressure_obs_def)
qed

lemma update_state_phi_bottom:
  assumes "qn0 e = -1" "2 \<le> NUM_LEV e" "i < NP e" "j < NP e"
    and dp: "\<forall>l<NUM_LEV e. load s DP3D_current l i j = c"
    and n1: "n1 < NUM_LEV e" "Suc n1 = NUM_LEV e"
  shows "load (update_state e s) PHI n1 i j
         = load s PHIS 0 i j
           + 0.5 * (Rgas e * load s T_current n1 i j
                    * (c / (hybrid_a e 0 * ps0 e + c * (real n1 + 0.5))))"
proof -
  define s0 where "s0 = init_const_cache e s"
  define s1 where "s1 = compute_temperature_div_vdp e s0"
  define s2 where "s2 = compute_pressure e s1"
  define s3 where "s3 = preq_hydrostatic e s2"
  have r: "update_state e s
           = compute_stuff e (compute_velocity_eta_dpdn e (preq_omega_ps e s3))"
    by (simp add: update_state_def compute_scan_properties_def s0_def s1_def s2_def s3_def)
  have after: "load (update_state e s) PHI n1 i j = load s3 PHI n1 i j"
    unfolding r
    by (intro compute_stuff_stable[where P = "\<lambda>t. load t PHI n1 i j = load s3 PHI n1 i j"]
          compute_velocity_eta_dpdn_stable[where P = "\<lambda>t. load t PHI n1 i j = load s3 PHI n1 i j"]
          preq_omega_ps_stable[where P = "\<lambda>t. load t PHI n1 i j = load s3 PHI n1 i j"]
          stable_load)
       (auto simp: stuff_fields_def velocity_fields_def omega_fields_def)
  have in0: "load s0 f l i j = load s f l i j" if "f \<notin> cache_fields" for f l
    unfolding s0_def
    by (rule init_const_cache_stable[where P = "\<lambda>t. load t f l i j = load s f l i j"])
       (simp_all add: stable_load that)
  have in1: "load s1 f l i j = load s0 f l i j" if "f \<notin> {T_v} \<union> div_vdp_fields" for f l
    unfolding s1_def
    by (rule compute_temperature_div_vdp_stable[where P = "\<lambda>t. load t f l i j = load s0 f l i j"],
        rule stable_load) (use that in simp_all)
  have in2: "load s2 f l i j = load s1 f l i j" if "f \<noteq> pressure" for f l
    unfolding s2_def
    by (rule compute_pressure_stable[where P = "\<lambda>t. load t f l i j = load s1 f l i j"])
       (simp_all add: stable_load that)
  have nin: "f \<notin> cache_fields" "f \<notin> {T_v} \<union> div_vdp_fields" "f \<noteq> pressure"
    if "f \<in> {PHIS, DP3D_current, T_current}" for f
    using that by (auto simp: cache_fields_def div_vdp_fields_def)
  have same: "load s2 f l i j = load s f l i j" if "f \<in> {PHIS, DP3D_current, T_current}" for f l
    using in2[OF nin(3)[OF that]] in1[OF nin(2)[OF that]] in0[OF nin(1)[OF that]] by simp
  have tv: "load s2 T_v n1 i j = load s T_current n1 i j"
    using compute_temperature_div_vdp_no_tracers[OF assms(1) n1(1) assms(3,4), of s0]
    using in0[OF nin(1), of T_current] by (simp add: in2 s1_def[symmetric])
  have "\<forall>l<NUM_LEV e. load s1 DP3D_current l i j = c"
    using dp in1[OF nin(2), of DP3D_current] in0[OF nin(1), of DP3D_current] by simp
  then have pr: "load s2 pressure n1 i j = hybrid_a e 0 * ps0 e + c * (real n1 + 0.5)"
    unfolding s2_def by (rule compute_pressure_const[OF assms(3,4) _ n1(1)])
  have "load s3 PHI n1 i j
        = load s2 PHIS 0 i j + (\<Sum>m = Suc n1..<NUM_LEV e. hydrostatic_increment e s2 m i j)
          + 0.5 * hydrostatic_increment e s2 n1 i j"
    unfolding s3_def using preq_hydrostatic_scan[OF assms(2,3,4), of s2] n1(1) by blast
  then show ?thesis
    using dp n1(1)
    by (simp add: after n1(2) hydrostatic_increment_def same tv pr)
qed

text \<open>
  Claim C9, as the code has it. One invocation of \<open>compute_and_apply_rhs\<close> changes, in
  every element, only the future slots of U, V, T and DP3D, the accumulators
  (\<open>DERIVED_UN0\<close>, \<open>DERIVED_VN0\<close>, \<open>OMEGA_P\<close>, \<open>ETA_DPDN\<close>), the geopotential \<open>PHI\<close>, and
  the kernel's own scratch and local buffers; every store goes to one of these
  fields. The previous and current slots, \<open>PECND\<close>, the metric fields (\<open>PHIS\<close>, \<open>FCOR\<close>,
  \<open>SPHEREMP\<close>, \<open>METDET\<close>, \<open>DINV\<close>, \<open>D\<close>) and the tracers \<open>QDP\<close> are none of them, and
  elements outside \<open>[0, num_elems)\<close> are untouched. (The configuration is an argument
  of the function and is not returned.)
\<close>

theorem compute_and_apply_rhs_frame:
  "(\<forall>ie a. fst a \<notin> future_fields \<union> accumulator_fields \<union> {PHI} \<union> scratch_fields \<union> local_fields
       \<longrightarrow> mem (compute_and_apply_rhs e region ie) a = mem (region ie) a)
   \<and> (\<forall>ie. \<forall>a\<in>set (writes (compute_and_apply_rhs e region ie)).
         a \<in> set (writes (region ie))
         \<or> fst a \<in> future_fields \<union> accumulator_fields \<union> {PHI} \<union> scratch_fields \<union> local_fields)
   \<and> input_fields \<inter> (future_fields \<union> accumulator_fields \<union> {PHI} \<union> scratch_fields \<union> local_fields) = {}
   \<and> (\<forall>ie. num_elems e \<le> ie \<longrightarrow> compute_and_apply_rhs e region ie = region ie)"
proof -
  have "mem (compute_and_apply_rhs e region ie) a = mem (region ie) a"
    if "fst a \<notin> update_state_fields" for ie a
  proof -
    have "mem (update_state e (region ie)) a = mem (region ie) a"
      using update_state_unchanged[of "region ie" e] that unfolding unchanged_except_def by blast
    then show ?thesis by (simp add: compute_and_apply_rhs_element)
  qed
  moreover have "a \<in> set (writes (region ie)) \<or> fst a \<in> update_state_fields"
    if "a \<in> set (writes (compute_and_apply_rhs e region ie))" for ie a
    using update_state_writes[of "region ie" e] that
    by (auto simp: compute_and_apply_rhs_element writes_within_def split: if_splits)
  moreover have "compute_and_apply_rhs e region ie = region ie" if "num_elems e \<le> ie" for ie
    using that by (simp add: compute_and_apply_rhs_element)
  ultimately show ?thesis
    using input_fields_disjoint unfolding update_state_fields_eq by blast
qed

theorem compute_and_apply_rhs_frame_witness:
  "mem (compute_and_apply_rhs example_params (\<lambda>ie. example_state) 0) (U_current, 0, 0, 0) = 2
   \<and> mem (compute_and_apply_rhs example_params (\<lambda>ie. example_state) 1) (QDP 0 0, 2, 0, 0) = 2
   \<and> compute_and_apply_rhs example_params (\<lambda>ie. example_state) 2 = example_state"
proof -
  have f: "fst (U_current, 0::nat, 0::nat, 0::nat)
             \<notin> future_fields \<union> accumulator_fields \<union> {PHI} \<union> scratch_fields \<union> local_fields"
      "fst (QDP 0 0, 2::nat, 0::nat, 0::nat)
             \<notin> future_fields \<union> accumulator_fields \<union> {PHI} \<union> scratch_fields \<union> local_fields"
    by (auto simp: future_fields_def accumulator_fields_def scratch_fields_def local_fields_def
          cache_fields_def)
  have n: "num_elems example_params \<le> 2" by (simp add: example_params_def)
  have m: "mem example_state (U_current, 0, 0, 0) = 2" "mem example_state (QDP 0 0, 2, 0, 0) = 2"
    by (simp_all add: example_state_def)
  show ?thesis
    using compute_and_apply_rhs_frame[of example_params "\<lambda>ie. example_state"] f n m
    by metis
qed

theorem update_state_modifies_phi:
  "PHI \<notin> future_fields \<union> accumulator_fields \<union> scratch_fields \<union> local_fields
   \<and> mem (compute_and_apply_rhs example_params (\<lambda>ie. example_state) 0) (PHI, 2, 0, 0) = 8 / 3
   \<and> mem example_state (PHI, 2, 0, 0) = 2"
proof -
  have h: "qn0 example_params = -1" "2 \<le> NUM_LEV example_params" "0 < NP example_params"
      "0 < num_elems example_params"
    by (simp_all add: example_params_def)
  have dp: "\<forall>l<NUM_LEV example_params. load example_state DP3D_current l 0 0 = 2"
    by (simp add: example_state_def load_def)
  have n: "2 < NUM_LEV example_params" "Suc 2 = NUM_LEV example_params"
    by (simp_all add: example_params_def)
  have "load (update_state example_params example_state) PHI 2 0 0 = 8 / 3"
    using update_state_phi_bottom[OF h(1,2,3,3) dp n]
    by (simp add: example_state_def load_def) (simp add: example_params_def)
  then have "mem (compute_and_apply_rhs example_params (\<lambda>ie. example_state) 0) (PHI, 2, 0, 0) = 8 / 3"
    using h(4) by (simp add: compute_and_apply_rhs_element load_def example_params_def)
  moreover have "PHI \<notin> future_fields \<union> accumulator_fields \<union> scratch_fields \<union> local_fields"
    by (auto simp: future_fields_def accumulator_fields_def scratch_fields_def local_fields_def
          cache_fields_def)
  ultimately show ?thesis by (simp add: example_state_def)
qed

lemma fold_cong_inv:
  assumes "I s"
    and "\<And>x t. x \<in> set xs \<Longrightarrow> I t \<Longrightarrow> f x t = g x t"
    and "\<And>x t. x \<in> set xs \<Longrightarrow> I t \<Longrightarrow> I (g x t)"
  shows "fold f xs s = fold g xs s"
  using assms by (induction xs arbitrary: s) auto

lemma parallel_for_cong_inv:
  assumes "I s"
    and "\<And>x t. x < n \<Longrightarrow> I t \<Longrightarrow> f x t = g x t"
    and "\<And>x t. x < n \<Longrightarrow> I t \<Longrightarrow> I (g x t)"
  shows "parallel_for n f s = parallel_for n g s"
  unfolding parallel_for_def
  by (rule fold_cong_inv[where I = I]) (use assms in auto)

lemma for_points_cong_inv:
  assumes "I s"
    and "\<And>i j t. i < n \<Longrightarrow> j < n \<Longrightarrow> I t \<Longrightarrow> f i j t = g i j t"
    and "\<And>i j t. i < n \<Longrightarrow> j < n \<Longrightarrow> I t \<Longrightarrow> I (g i j t)"
  shows "for_points n f s = for_points n g s"
  unfolding for_points_def
  by (rule parallel_for_cong_inv[where I = I])
     (use assms in \<open>auto simp: idx_div_less idx_mod_less\<close>)

lemma dry_inputs_stable:
  "DP3D_current \<notin> F \<Longrightarrow> QDP 0 (qn0 e) \<notin> F \<Longrightarrow> stable F (dry_inputs e)"
  unfolding stable_def dry_inputs_def
  by (auto simp: load_store load_divide_check)

lemma temperature_tracers_point_dry:
  assumes "dry_inputs e s" "Rgas e \<noteq> 0" "l < NUM_LEV e" "i < NP e" "j < NP e"
  shows "temperature_tracers_point e l i j s = temperature_no_tracers_point l i j s"
proof -
  have "load s (QDP 0 (qn0 e)) l i j = 0" "load s DP3D_current l i j \<noteq> 0"
    using assms unfolding dry_inputs_def by blast+
  then show ?thesis
    using assms(2)
    by (simp add: temperature_tracers_point_def temperature_no_tracers_point_def divide_check_def
          quotient_def)
qed

lemma compute_temperature_tracers_helper_dry:
  assumes "dry_inputs e s" "Rgas e \<noteq> 0" "l < NUM_LEV e"
  shows "compute_temperature_tracers_helper e l s = compute_temperature_no_tracers_helper e l s"
  unfolding compute_temperature_tracers_helper_def compute_temperature_no_tracers_helper_def
proof (rule for_points_cong_inv[where I = "dry_inputs e", OF assms(1)])
  fix i j t assume "i < NP e" "j < NP e" "dry_inputs e t"
  then show "temperature_tracers_point e l i j t = temperature_no_tracers_point l i j t"
    using temperature_tracers_point_dry assms(2,3) by blast
  show "dry_inputs e (temperature_no_tracers_point l i j t)"
    unfolding temperature_no_tracers_point_def
    by (rule stable_store[OF dry_inputs_stable[of "{T_v}"]]) (use \<open>dry_inputs e t\<close> in simp_all)
qed

lemma temperature_levels_dry:
  assumes "dry_inputs e s" "Rgas e \<noteq> 0"
  shows "parallel_for (NUM_LEV e) (\<lambda>ilev s.
             compute_div_vdp e ilev (compute_temperature_tracers_helper e ilev s)) s
         = parallel_for (NUM_LEV e) (\<lambda>ilev s.
             compute_div_vdp e ilev (compute_temperature_no_tracers_helper e ilev s)) s"
proof (rule parallel_for_cong_inv[where I = "dry_inputs e", OF assms(1)])
  fix l t assume l: "l < NUM_LEV e" and t: "dry_inputs e t"
  show "compute_div_vdp e l (compute_temperature_tracers_helper e l t)
        = compute_div_vdp e l (compute_temperature_no_tracers_helper e l t)"
    by (simp add: compute_temperature_tracers_helper_dry[OF t assms(2) l])
  have "dry_inputs e (compute_temperature_no_tracers_helper e l t)"
    by (rule temperature_stable(1)[OF dry_inputs_stable t]) simp_all
  then show "dry_inputs e (compute_div_vdp e l (compute_temperature_no_tracers_helper e l t))"
    by (rule compute_div_vdp_stable[OF dry_inputs_stable, rotated 2])
       (auto simp: div_vdp_fields_def)
qed

lemma init_const_cache_qn0: "init_const_cache (e\<lparr>qn0 := q\<rparr>) = init_const_cache e"
  by (intro ext) (simp add: init_const_cache_def)

lemma compute_temperature_no_tracers_helper_qn0:
  "compute_temperature_no_tracers_helper (e\<lparr>qn0 := q\<rparr>) = compute_temperature_no_tracers_helper e"
  by (intro ext) (simp add: compute_temperature_no_tracers_helper_def)

lemma compute_div_vdp_qn0: "compute_div_vdp (e\<lparr>qn0 := q\<rparr>) = compute_div_vdp e"
  by (intro ext) (simp add: compute_div_vdp_def div_vdp_point_def[abs_def])

lemma compute_pressure_qn0: "compute_pressure (e\<lparr>qn0 := q\<rparr>) = compute_pressure e"
  by (intro ext) (simp add: compute_pressure_def)

lemma preq_hydrostatic_qn0: "preq_hydrostatic (e\<lparr>qn0 := q\<rparr>) = preq_hydrostatic e"
  by (intro ext)
     (simp add: preq_hydrostatic_def hydrostatic_point_def[abs_def] hydrostatic_bottom_def[abs_def]
        hydrostatic_level_def[abs_def] hydrostatic_top_def[abs_def])

lemma preq_omega_ps_qn0: "preq_omega_ps (e\<lparr>qn0 := q\<rparr>) = preq_omega_ps e"
  by (intro ext)
     (simp add: preq_omega_ps_def preq_omega_ps_init_def preq_omega_ps_loop_def[abs_def]
        omega_ps_level_def[abs_def] preq_omega_ps_tail_def omega_ps_tail_point_def[abs_def])

lemma compute_velocity_eta_dpdn_qn0:
  "compute_velocity_eta_dpdn (e\<lparr>qn0 := q\<rparr>) = compute_velocity_eta_dpdn e"
  by (intro ext)
     (simp add: compute_velocity_eta_dpdn_def compute_eta_dpdn_def[abs_def]
        eta_dpdn_point_def[abs_def] compute_velocity_def[abs_def] compute_energy_grad_def[abs_def]
        gpterm_point_def[abs_def] velocity_point_def[abs_def])

lemma compute_stuff_qn0: "compute_stuff (e\<lparr>qn0 := q\<rparr>) = compute_stuff e"
proof -
  have "stuff_point (e\<lparr>qn0 := q\<rparr>) = stuff_point e"
    by (intro ext) (simp add: stuff_point_def ttens_def)
  then show ?thesis
    unfolding compute_stuff_def[abs_def] by simp
qed

lemma update_state_dry:
  assumes "qn0 e \<noteq> -1" "Rgas e \<noteq> 0" "dry_inputs e s"
  shows "update_state e s = update_state (e\<lparr>qn0 := -1\<rparr>) s"
proof -
  have "dry_inputs e (init_const_cache e s)"
    by (rule init_const_cache_stable[OF dry_inputs_stable assms(3)])
       (simp_all add: cache_fields_def)
  then have "compute_temperature_div_vdp e (init_const_cache e s)
             = compute_temperature_div_vdp (e\<lparr>qn0 := -1\<rparr>) (init_const_cache e s)"
    using assms(1,2) temperature_levels_dry[of e "init_const_cache e s"]
    by (simp add: compute_temperature_div_vdp_def compute_div_vdp_qn0
          compute_temperature_no_tracers_helper_qn0)
  then show ?thesis
    by (simp add: update_state_def compute_scan_properties_def init_const_cache_qn0
          compute_pressure_qn0 preq_hydrostatic_qn0 preq_omega_ps_qn0
          compute_velocity_eta_dpdn_qn0 compute_stuff_qn0)
qed

lemma update_state_T_v:
  assumes "qn0 e = -1" "l < NUM_LEV e" "i < NP e" "j < NP e"
  shows "load (update_state e s) T_v l i j = load s T_current l i j"
proof -
  define s0 where "s0 = init_const_cache e s"
  define s1 where "s1 = compute_temperature_div_vdp e s0"
  let ?P = "\<lambda>t. load t T_v l i j = load s1 T_v l i j"
  have "load s0 T_current l i j = load s T_current l i j"
    unfolding s0_def
    by (rule init_const_cache_stable[OF stable_load]) (simp_all add: cache_fields_def)
  then have "load s1 T_v l i j = load s T_current l i j"
    using compute_temperature_div_vdp_no_tracers[OF assms, of s0] by (simp add: s1_def)
  moreover have "?P (update_state e s)"
    unfolding update_state_def s0_def[symmetric] s1_def[symmetric]
    by (intro compute_stuff_stable[where P = ?P] compute_velocity_eta_dpdn_stable[where P = ?P]
          compute_scan_properties_stable[where P = ?P] stable_load)
       (auto simp: stuff_fields_def velocity_fields_def omega_fields_def)
  ultimately show ?thesis by simp
qed

text \<open>
  Claim C7. Take a state of the core: in every element the pressure thickness
  \<open>DP3D_current\<close> is not zero at any level and point (it is positive in every state
  that the core is meant for), and the gas constant \<open>Rgas\<close> is not zero. When the
  tracer field \<open>QDP(ie, 0, qn0)\<close> is zero at every level and point of every element,
  one invocation of \<open>compute_and_apply_rhs\<close> with a tracer time index \<open>qn0\<close> other than
  \<open>-1\<close> leaves exactly the state that it leaves with \<open>qn0 = -1\<close>: every field, so the
  future slots and the accumulators, and the same stores in the same order. The
  correction factor is \<open>1.0\<close>: in both runs the virtual temperature \<open>T_v\<close> is the
  temperature \<open>T_current\<close>.
\<close>

theorem compute_and_apply_rhs_zero_tracers:
  assumes "qn0 e \<noteq> -1" and "Rgas e \<noteq> 0"
    and "\<forall>ie<num_elems e. \<forall>l<NUM_LEV e. \<forall>i<NP e. \<forall>j<NP e.
           load (region ie) (QDP 0 (qn0 e)) l i j = 0 \<and> load (region ie) DP3D_current l i j \<noteq> 0"
  shows "compute_and_apply_rhs e region = compute_and_apply_rhs (e\<lparr>qn0 := -1\<rparr>) region
         \<and> (\<forall>ie<num_elems e. \<forall>l<NUM_LEV e. \<forall>i<NP e. \<forall>j<NP e.
               load (compute_and_apply_rhs e region ie) T_v l i j
               = load (region ie) T_current l i j)"
proof -
  have dry: "dry_inputs e (region ie)" if "ie < num_elems e" for ie
    using assms(3) that unfolding dry_inputs_def by blast
  have eq: "compute_and_apply_rhs e region ie = compute_and_apply_rhs (e\<lparr>qn0 := -1\<rparr>) region ie"
    for ie
    using update_state_dry[OF assms(1,2) dry, of ie]
    by (simp add: compute_and_apply_rhs_element)
  have "load (compute_and_apply_rhs e region ie) T_v l i j = load (region ie) T_current l i j"
    if "ie < num_elems e" "l < NUM_LEV e" "i < NP e" "j < NP e" for ie l i j
    using update_state_T_v[of "e\<lparr>qn0 := -1\<rparr>" l i j "region ie"] that
    unfolding eq by (simp add: compute_and_apply_rhs_element)
  then show ?thesis using eq by auto
qed

theorem compute_and_apply_rhs_zero_tracers_witness:
  "NP (wide_params\<lparr>qn0 := 0\<rparr>) = 4 \<and> NUM_LEV (wide_params\<lparr>qn0 := 0\<rparr>) = 3
   \<and> Rgas (wide_params\<lparr>qn0 := 0\<rparr>) = 2
   \<and> load dry_state (QDP 0 0) 2 3 1 = 0 \<and> load dry_state DP3D_current 2 3 1 = 2
   \<and> compute_and_apply_rhs (wide_params\<lparr>qn0 := 0\<rparr>) (\<lambda>ie. dry_state)
     = compute_and_apply_rhs (wide_params\<lparr>qn0 := -1\<rparr>) (\<lambda>ie. dry_state)
   \<and> load (compute_and_apply_rhs (wide_params\<lparr>qn0 := 0\<rparr>) (\<lambda>ie. dry_state) 1) T_v 2 3 1 = 2"
proof -
  let ?e = "wide_params\<lparr>qn0 := 0\<rparr>"
  have p: "NP ?e = 4" "NUM_LEV ?e = 3" "Rgas ?e = 2" "num_elems ?e = 2" "qn0 ?e = 0"
    by (simp_all add: wide_params_def example_params_def)
  have h: "qn0 ?e \<noteq> -1" "Rgas ?e \<noteq> 0"
    by (simp_all add: p)
  have d: "\<forall>ie<num_elems ?e. \<forall>l<NUM_LEV ?e. \<forall>i<NP ?e. \<forall>j<NP ?e.
             load ((\<lambda>ie. dry_state) ie) (QDP 0 (qn0 ?e)) l i j = 0
             \<and> load ((\<lambda>ie. dry_state) ie) DP3D_current l i j \<noteq> 0"
    by (simp add: dry_state_def load_def)
  have v: "load dry_state (QDP 0 0) 2 3 1 = 0" "load dry_state DP3D_current 2 3 1 = 2"
      "load dry_state T_current 2 3 1 = 2"
    by (simp_all add: dry_state_def load_def)
  have b: "(1::nat) < num_elems ?e" "(2::nat) < NUM_LEV ?e" "(3::nat) < NP ?e" "(1::nat) < NP ?e"
    by (simp_all add: p)
  have tv: "load (compute_and_apply_rhs ?e (\<lambda>ie. dry_state) 1) T_v 2 3 1
            = load dry_state T_current 2 3 1"
    using compute_and_apply_rhs_zero_tracers[OF h d] b by blast
  have upd: "wide_params\<lparr>qn0 := 0, qn0 := -1\<rparr> = wide_params\<lparr>qn0 := -1\<rparr>"
    by simp
  have eq: "compute_and_apply_rhs ?e (\<lambda>ie. dry_state)
            = compute_and_apply_rhs (wide_params\<lparr>qn0 := -1\<rparr>) (\<lambda>ie. dry_state)"
    using compute_and_apply_rhs_zero_tracers[OF h d] unfolding upd by blast
  show ?thesis
    by (intro conjI, rule p(1), rule p(2), rule p(3), rule v(1), rule v(2), rule eq,
        simp only: tv v(3))
qed

lemma for_range_obs_one:
  assumes "a \<le> k" "k < b"
    and other: "\<And>x s. x \<noteq> k \<Longrightarrow> f (body x s) = f s"
    and here: "\<And>s. f (body k s) = g (f s)"
  shows "f (for_range a b body s) = g (f s)"
  unfolding for_range_def
  by (rule fold_obs_one[where k = k]) (use assms in auto)

lemma for_range_obs_none:
  "(\<And>x s. f (body x s) = f s) \<Longrightarrow> f (for_range a b body s) = f s"
  unfolding for_range_def by (rule fold_obs_none) simp

lemma for_range_obs_hom:
  "(\<And>x s. f (body x s) = G x (f s)) \<Longrightarrow> f (for_range a b body s) = fold G [a..<b] (f s)"
  unfolding for_range_def by (rule fold_obs_hom) simp

lemma basic_omega_ps_point_other:
  assumes "i' \<noteq> i \<or> j' \<noteq> j"
  shows "values_at i j (basic_omega_ps_init_point i' j' s) = values_at i j s"
    and "values_at i j (basic_omega_ps_level_point l i' j' s) = values_at i j s"
    and "values_at i j (basic_omega_ps_tail_point e i' j' s) = values_at i j s"
  using assms
  by (auto simp: values_at_def basic_omega_ps_init_point_def basic_omega_ps_level_point_def
        basic_omega_ps_tail_point_def Let_def load_store load_divide_check)

lemma basic_omega_ps_point_here:
  shows "values_at i j (basic_omega_ps_init_point i j s) = omega_init_values (values_at i j s)"
    and "values_at i j (basic_omega_ps_level_point l i j s) = omega_level_values l (values_at i j s)"
    and "values_at i j (basic_omega_ps_tail_point e i j s)
         = omega_tail_values (NUM_LEV e - 1) (values_at i j s)"
  by (auto simp: values_at_def basic_omega_ps_init_point_def basic_omega_ps_level_point_def
        basic_omega_ps_tail_point_def Let_def load_store load_divide_check fun_eq_iff
        omega_init_values_def omega_level_values_def omega_tail_values_def omega_ps_formula_def)

lemma basic_omega_ps_column_other:
  assumes "j' \<noteq> j"
  shows "values_at i j (basic_omega_ps_column e j' s) = values_at i j s"
proof -
  have o: "i' \<noteq> i \<or> j' \<noteq> j" for i' using assms by simp
  have init: "values_at i j (for_range 0 (NP e) (\<lambda>igp. basic_omega_ps_init_point igp j') t)
              = values_at i j t" for t
    by (rule for_range_obs_none[where f = "values_at i j"])
       (rule basic_omega_ps_point_other(1)[OF o])
  have levels: "values_at i j (for_range 1 (NUM_LEV e - 1) (\<lambda>ilev.
                   for_range 0 (NP e) (\<lambda>igp. basic_omega_ps_level_point ilev igp j')) t)
                = values_at i j t" for t
    by (rule for_range_obs_none[where f = "values_at i j"],
        rule for_range_obs_none[where f = "values_at i j"])
       (rule basic_omega_ps_point_other(2)[OF o])
  have tail: "values_at i j (for_range 0 (NP e) (\<lambda>igp. basic_omega_ps_tail_point e igp j') t)
              = values_at i j t" for t
    by (rule for_range_obs_none[where f = "values_at i j"])
       (rule basic_omega_ps_point_other(3)[OF o])
  show ?thesis
    unfolding basic_omega_ps_column_def Let_def by (simp only: tail levels init)
qed

lemma basic_omega_ps_column_here:
  assumes "i < NP e"
  shows "values_at i j (basic_omega_ps_column e j s)
         = omega_tail_values (NUM_LEV e - 1)
             (fold omega_level_values [1..<NUM_LEV e - 1] (omega_init_values (values_at i j s)))"
proof -
  have init: "values_at i j (for_range 0 (NP e) (\<lambda>igp. basic_omega_ps_init_point igp j) t)
              = omega_init_values (values_at i j t)" for t
    by (rule for_range_obs_one[where f = "values_at i j" and k = i and g = omega_init_values])
       (simp_all add: assms basic_omega_ps_point_other(1) basic_omega_ps_point_here(1))
  have level: "values_at i j (for_range 0 (NP e) (\<lambda>igp. basic_omega_ps_level_point l igp j) t)
               = omega_level_values l (values_at i j t)" for l t
    by (rule for_range_obs_one[where f = "values_at i j" and k = i and g = "omega_level_values l"])
       (simp_all add: assms basic_omega_ps_point_other(2) basic_omega_ps_point_here(2))
  have tail: "values_at i j (for_range 0 (NP e) (\<lambda>igp. basic_omega_ps_tail_point e igp j) t)
              = omega_tail_values (NUM_LEV e - 1) (values_at i j t)" for t
    by (rule for_range_obs_one[where f = "values_at i j" and k = i
          and g = "omega_tail_values (NUM_LEV e - 1)"])
       (simp_all add: assms basic_omega_ps_point_other(3) basic_omega_ps_point_here(3))
  have levels: "values_at i j (for_range 1 (NUM_LEV e - 1) (\<lambda>ilev.
                   for_range 0 (NP e) (\<lambda>igp. basic_omega_ps_level_point ilev igp j)) t)
                = fold omega_level_values [1..<NUM_LEV e - 1] (values_at i j t)" for t
    by (rule for_range_obs_hom[where f = "values_at i j"]) (rule level)
  show ?thesis
    unfolding basic_omega_ps_column_def Let_def by (simp only: tail levels init)
qed

lemma basic_preq_omega_ps_column:
  assumes "i < NP e" "j < NP e"
  shows "values_at i j (basic_preq_omega_ps e s)
         = omega_tail_values (NUM_LEV e - 1)
             (fold omega_level_values [1..<NUM_LEV e - 1] (omega_init_values (values_at i j s)))"
  unfolding basic_preq_omega_ps_def
  by (rule for_range_obs_one[where f = "values_at i j" and k = j])
     (simp_all add: assms basic_omega_ps_column_other basic_omega_ps_column_here[OF assms(1)])

lemma omega_levels_closed:
  assumes "1 \<le> k"
  shows "fold omega_level_values [1..<k] (omega_init_values c)
         = c(omega_p := (\<lambda>l. if l = 0 then c vgrad_p_buf 0 / c pressure 0 - 0.5 / c pressure 0 * c div_vdp 0
                               else if l < k then omega_ps_formula c (\<Sum>m<l. c div_vdp m) l
                               else c omega_p l),
             suml := (c suml)(0 := (\<Sum>m<k. c div_vdp m)))"
  using assms
proof (induction k)
  case 0
  then show ?case by simp
next
  case (Suc k)
  show ?case
  proof (cases "k = 0")
    case True
    then show ?thesis by (auto simp: omega_init_values_def fun_eq_iff)
  next
    case False
    then have "1 \<le> k" by simp
    then have "[1..<Suc k] = [1..<k] @ [k]" by simp
    then show ?thesis
      using Suc.IH[OF \<open>1 \<le> k\<close>] False
      by (auto simp: omega_level_values_def omega_ps_formula_def fun_eq_iff)
  qed
qed

lemma basic_preq_omega_ps_values:
  assumes "2 \<le> NUM_LEV e" "i < NP e" "j < NP e"
  shows "load (basic_preq_omega_ps e s) omega_p 0 i j
           = load s vgrad_p_buf 0 i j / load s pressure 0 i j
             - 0.5 / load s pressure 0 i j * load s div_vdp 0 i j"
    and "1 \<le> l \<Longrightarrow> l < NUM_LEV e \<Longrightarrow>
         load (basic_preq_omega_ps e s) omega_p l i j
           = load s vgrad_p_buf l i j / load s pressure l i j
             - 2 * (0.5 / load s pressure l i j) * (\<Sum>m<l. load s div_vdp m i j)
             - 0.5 / load s pressure l i j * load s div_vdp l i j"
    and "load (basic_preq_omega_ps e s) suml 0 i j = (\<Sum>m<NUM_LEV e - 1. load s div_vdp m i j)"
proof -
  define c where "c = values_at i j s"
  define n1 where "n1 = NUM_LEV e - 1"
  have n1: "1 \<le> n1" "0 < n1" using assms(1) by (simp_all add: n1_def)
  define r where "r = fold omega_level_values [1..<n1] (omega_init_values c)"
  have r: "values_at i j (basic_preq_omega_ps e s) = omega_tail_values n1 r"
    unfolding r_def c_def n1_def by (rule basic_preq_omega_ps_column[OF assms(2,3)])
  have ld: "load (basic_preq_omega_ps e s) f l i j = omega_tail_values n1 r f l" for f l
    using r by (simp add: values_at_def fun_eq_iff)
  have cl: "r = c(omega_p := (\<lambda>l. if l = 0 then c vgrad_p_buf 0 / c pressure 0 - 0.5 / c pressure 0 * c div_vdp 0
                               else if l < n1 then omega_ps_formula c (\<Sum>m<l. c div_vdp m) l
                               else c omega_p l),
             suml := (c suml)(0 := (\<Sum>m<n1. c div_vdp m)))"
    unfolding r_def by (rule omega_levels_closed[OF n1(1)])
  have cv: "c f l = load s f l i j" for f l by (simp add: c_def values_at_def)
  show "load (basic_preq_omega_ps e s) omega_p 0 i j
           = load s vgrad_p_buf 0 i j / load s pressure 0 i j
             - 0.5 / load s pressure 0 i j * load s div_vdp 0 i j"
    using n1 by (simp add: ld cl omega_tail_values_def cv)
  show "load (basic_preq_omega_ps e s) suml 0 i j = (\<Sum>m<NUM_LEV e - 1. load s div_vdp m i j)"
    by (simp add: ld cl omega_tail_values_def cv n1_def)
  show "load (basic_preq_omega_ps e s) omega_p l i j
           = load s vgrad_p_buf l i j / load s pressure l i j
             - 2 * (0.5 / load s pressure l i j) * (\<Sum>m<l. load s div_vdp m i j)
             - 0.5 / load s pressure l i j * load s div_vdp l i j"
    if "1 \<le> l" "l < NUM_LEV e"
  proof -
    have "l < n1 \<or> l = n1" using that(2) by (auto simp: n1_def)
    then show ?thesis
      using that(1)
      by (auto simp: ld cl omega_tail_values_def omega_ps_formula_def cv)
  qed
qed

text \<open>
  Claim C3. At every point of an element with at least two levels, \<open>preq_omega_ps\<close>
  leaves \<open>omega_p[0] = vgrad_p/pressure[0] - 0.5*div_vdp[0]/pressure[0]\<close>; for every
  level \<open>l\<close> from 1 to \<open>NUM_LEV - 1\<close> (the interior levels and the last one), with
  \<open>ckk = 0.5/pressure[l]\<close> and \<open>ckl = 2*ckk\<close>,
  \<open>omega_p[l] = vgrad_p/pressure[l] - ckl*suml - ckk*div_vdp[l]\<close> where \<open>suml\<close> is the
  sum of \<open>div_vdp\<close> over the levels before \<open>l\<close>; the running sum that is left is the
  sum over levels \<open>0 .. NUM_LEV - 2\<close> (the last level does not add to it); and where
  the pressure is not zero, \<open>omega_p[l] = (vgrad_p - suml - 0.5*div_vdp[l]) / pressure[l]\<close>.
  Here \<open>vgrad_p\<close> at level \<open>l\<close> is the current wind dotted with
  \<open>gradient_sphere\<close> of the pressure at that level (\<open>omega_vgrad\<close>). The serial
  \<open>preq_omega_ps\<close> of kokkos_basic, which is given \<open>vgrad_p\<close> as a view, leaves the
  same values of \<open>omega_p\<close> and the same running sum from it.
\<close>

theorem preq_omega_ps_scan:
  assumes "2 \<le> NUM_LEV e" "i < NP e" "j < NP e"
  shows "load (preq_omega_ps e s) omega_p 0 i j
           = omega_vgrad e s 0 i j / load s pressure 0 i j
             - 0.5 * load s div_vdp 0 i j / load s pressure 0 i j
       \<and> (\<forall>l. 1 \<le> l \<and> l < NUM_LEV e \<longrightarrow>
             load (preq_omega_ps e s) omega_p l i j
               = omega_vgrad e s l i j / load s pressure l i j
                 - 2 * (0.5 / load s pressure l i j) * (\<Sum>m<l. load s div_vdp m i j)
                 - 0.5 / load s pressure l i j * load s div_vdp l i j)
       \<and> load (preq_omega_ps e s) suml 0 i j = (\<Sum>m<NUM_LEV e - 1. load s div_vdp m i j)
       \<and> (\<forall>l<NUM_LEV e. load s pressure l i j \<noteq> 0 \<longrightarrow>
             load (preq_omega_ps e s) omega_p l i j
               = (omega_vgrad e s l i j - (\<Sum>m<l. load s div_vdp m i j)
                  - 0.5 * load s div_vdp l i j) / load s pressure l i j)
       \<and> load (basic_preq_omega_ps e s) omega_p 0 i j
           = load s vgrad_p_buf 0 i j / load s pressure 0 i j
             - 0.5 * load s div_vdp 0 i j / load s pressure 0 i j
       \<and> (\<forall>l. 1 \<le> l \<and> l < NUM_LEV e \<longrightarrow>
             load (basic_preq_omega_ps e s) omega_p l i j
               = load s vgrad_p_buf l i j / load s pressure l i j
                 - 2 * (0.5 / load s pressure l i j) * (\<Sum>m<l. load s div_vdp m i j)
                 - 0.5 / load s pressure l i j * load s div_vdp l i j)
       \<and> load (basic_preq_omega_ps e s) suml 0 i j = (\<Sum>m<NUM_LEV e - 1. load s div_vdp m i j)"
proof -
  have val: "load (preq_omega_ps e s) omega_p l i j = omega_ps_value e s l i j" if "l < NUM_LEV e" for l
    by (rule preq_omega_ps_values(2)[OF assms that])
  have "0 < NUM_LEV e" using assms(1) by simp
  then have c1: "load (preq_omega_ps e s) omega_p 0 i j
           = omega_vgrad e s 0 i j / load s pressure 0 i j
             - 0.5 * load s div_vdp 0 i j / load s pressure 0 i j"
    by (simp add: val omega_ps_value_def)
  have c2: "load (preq_omega_ps e s) omega_p l i j
               = omega_vgrad e s l i j / load s pressure l i j
                 - 2 * (0.5 / load s pressure l i j) * (\<Sum>m<l. load s div_vdp m i j)
                 - 0.5 / load s pressure l i j * load s div_vdp l i j"
    if "1 \<le> l \<and> l < NUM_LEV e" for l
    using that by (simp add: val omega_ps_value_def)
  have c4: "load (preq_omega_ps e s) omega_p l i j
               = (omega_vgrad e s l i j - (\<Sum>m<l. load s div_vdp m i j)
                  - 0.5 * load s div_vdp l i j) / load s pressure l i j"
    if "l < NUM_LEV e" "load s pressure l i j \<noteq> 0" for l
    using that by (simp add: val omega_ps_value_def field_simps)
  have b1: "load (basic_preq_omega_ps e s) omega_p 0 i j
           = load s vgrad_p_buf 0 i j / load s pressure 0 i j
             - 0.5 * load s div_vdp 0 i j / load s pressure 0 i j"
    using basic_preq_omega_ps_values(1)[OF assms, of s] by simp
  have b2: "load (basic_preq_omega_ps e s) omega_p l i j
               = load s vgrad_p_buf l i j / load s pressure l i j
                 - 2 * (0.5 / load s pressure l i j) * (\<Sum>m<l. load s div_vdp m i j)
                 - 0.5 / load s pressure l i j * load s div_vdp l i j"
    if "1 \<le> l \<and> l < NUM_LEV e" for l
    using basic_preq_omega_ps_values(2)[OF assms, of l s] that by blast
  show ?thesis
    using c1 c2 c4 b1 b2 preq_omega_ps_values(1)[OF assms, of s]
      basic_preq_omega_ps_values(3)[OF assms, of s]
    by blast
qed

theorem preq_omega_ps_scan_witness:
  "load (preq_omega_ps example_params example_state) omega_p 0 0 0 = 11 / 2
   \<and> load (preq_omega_ps example_params example_state) omega_p 1 0 0 = 9 / 2
   \<and> load (preq_omega_ps example_params example_state) omega_p 2 0 0 = 7 / 2
   \<and> load (preq_omega_ps example_params example_state) suml 0 0 0 = 4
   \<and> load (basic_preq_omega_ps example_params example_state) omega_p 2 0 0 = - 3 / 2"
proof -
  have h: "2 \<le> NUM_LEV example_params" "0 < NP example_params"
    by (simp_all add: example_params_def)
  have lev: "NUM_LEV example_params = 3" by (simp add: example_params_def)
  have ld: "load example_state pressure l 0 0 = 2" "load example_state div_vdp l 0 0 = 2" for l
    by (simp_all add: example_state_def load_def)
  have vg: "omega_vgrad example_params example_state l 0 0 = 12" for l
    by (simp add: omega_vgrad_def example_params_def example_state_def load_def subview_def)
  note main = preq_omega_ps_scan[OF h(1) h(2) h(2), of example_state]
  have o0: "load (preq_omega_ps example_params example_state) omega_p 0 0 0 = 11 / 2"
    using main by (simp add: ld vg)
  have o1: "load (preq_omega_ps example_params example_state) omega_p 1 0 0 = 9 / 2"
    using main[THEN conjunct2, THEN conjunct1, rule_format, of 1] by (simp add: ld vg lev)
  have o2: "load (preq_omega_ps example_params example_state) omega_p 2 0 0 = 7 / 2"
    using main[THEN conjunct2, THEN conjunct1, rule_format, of 2]
    by (simp add: ld vg lev lessThan_Suc numeral_2_eq_2)
  have su: "load (preq_omega_ps example_params example_state) suml 0 0 0 = 4"
    using main by (simp add: ld lev lessThan_Suc numeral_2_eq_2)
  have vb: "load example_state vgrad_p_buf l 0 0 = 2" for l
    by (simp add: example_state_def load_def)
  have b2: "load (basic_preq_omega_ps example_params example_state) omega_p 2 0 0 = - 3 / 2"
    using main[THEN conjunct2, THEN conjunct2, THEN conjunct2, THEN conjunct2, THEN conjunct2,
        THEN conjunct1, rule_format, of 2]
    by (simp add: ld vb lev lessThan_Suc numeral_2_eq_2)
  show ?thesis using o0 o1 o2 su b2 by simp
qed

lemma basic_eta_omega_values:
  assumes "i < NP e" "j < NP e" "l < NUM_LEV_P e"
  shows "load (basic_eta_omega e s) ETA_DPDN l i j
         = load s ETA_DPDN l i j + eta_ave_w e * load s eta_dot_dpdn_ie l i j"
proof -
  let ?f = "\<lambda>t. (load t ETA_DPDN l i j, load t eta_dot_dpdn_ie l i j)"
  have pt: "?f (basic_eta_omega_point e l' i' j' t) = ?f t" if "l' \<noteq> l \<or> i' \<noteq> i \<or> j' \<noteq> j"
    for l' i' j' t
    using that by (auto simp: basic_eta_omega_point_def Let_def load_store)
  have lev: "?f (for_points (NP e) (basic_eta_omega_point e l') t) = ?f t" if "l' \<noteq> l" for l' t
    by (rule for_points_obs_none[where f = ?f]) (rule pt, simp add: that)
  obtain t where t: "?f t = ?f s"
      "?f (basic_eta_omega e s) = ?f (for_points (NP e) (basic_eta_omega_point e l) t)"
    unfolding basic_eta_omega_def
    using parallel_for_split[where f = ?f and l = l and n = "NUM_LEV_P e"
        and body = "\<lambda>ilev. for_points (NP e) (basic_eta_omega_point e ilev)", OF assms(3) lev]
    by blast
  obtain u where u: "?f u = ?f t"
      "?f (for_points (NP e) (basic_eta_omega_point e l) t) = ?f (basic_eta_omega_point e l i j u)"
    using for_points_split[where f = ?f and body = "basic_eta_omega_point e l", OF assms(1,2) pt]
    by blast
  have "load (basic_eta_omega_point e l i j u) ETA_DPDN l i j
        = load u ETA_DPDN l i j + eta_ave_w e * load u eta_dot_dpdn_ie l i j"
    by (simp add: basic_eta_omega_point_def Let_def load_store)
  then show ?thesis using t u by simp
qed

text \<open>
  Claim C8. At every point of an element, one invocation of \<open>update_state\<close> leaves
  every one of the \<open>NUM_LEV_P\<close> entries of \<open>ETA_DPDN\<close> with its prior value plus
  \<open>eta_ave_w\<close> times the vertical-flux contribution, which is the placeholder \<open>0\<close>: each
  entry keeps its prior value. (kokkos_scratch runs the read-modify-write at the
  levels \<open>0 .. NUM_LEV - 1\<close>, \<open>update_state_eta_dpdn_levels\<close>, and leaves the last
  entry alone, which is the value that adding \<open>eta_ave_w * 0\<close> gives.) The loop of
  kokkos_basic leaves every one of the \<open>NUM_LEV_P\<close> entries with its prior value
  plus \<open>eta_ave_w\<close> times the entry of the view \<open>eta_dot_dpdn_ie\<close>, which the kernel
  never writes; where that entry is \<open>0\<close>, the entry of \<open>ETA_DPDN\<close> keeps its prior value.
\<close>

theorem eta_dpdn_accumulation:
  assumes "i < NP e" "j < NP e"
  shows "(\<forall>l<NUM_LEV_P e. load (update_state e s) ETA_DPDN l i j
                            = load s ETA_DPDN l i j + eta_ave_w e * 0)
       \<and> (\<forall>l<NUM_LEV_P e. load (update_state e s) ETA_DPDN l i j = load s ETA_DPDN l i j)
       \<and> (\<forall>l<NUM_LEV_P e. load (basic_eta_omega e s) ETA_DPDN l i j
                            = load s ETA_DPDN l i j + eta_ave_w e * load s eta_dot_dpdn_ie l i j)
       \<and> (\<forall>l<NUM_LEV_P e. load s eta_dot_dpdn_ie l i j = 0 \<longrightarrow>
             load (basic_eta_omega e s) ETA_DPDN l i j = load s ETA_DPDN l i j)"
proof -
  have v: "load (update_state e s) ETA_DPDN l i j = load s ETA_DPDN l i j" for l
    using update_state_eta_dpdn_levels[OF assms, of s] by blast
  have b: "load (basic_eta_omega e s) ETA_DPDN l i j
           = load s ETA_DPDN l i j + eta_ave_w e * load s eta_dot_dpdn_ie l i j"
    if "l < NUM_LEV_P e" for l
    by (rule basic_eta_omega_values[OF assms that])
  show ?thesis by (simp add: v b)
qed

theorem eta_dpdn_accumulation_witness:
  "NP wide_params = 4 \<and> NUM_LEV_P wide_params = 4
   \<and> load example_state ETA_DPDN 3 2 3 = 2
   \<and> load (update_state wide_params example_state) ETA_DPDN 0 2 3 = 2
   \<and> load (update_state wide_params example_state) ETA_DPDN 3 2 3 = 2
   \<and> load (basic_eta_omega wide_params (store eta_dot_dpdn_ie 3 2 3 0 example_state)) ETA_DPDN 3 2 3 = 2"
proof -
  have p: "NP wide_params = 4" "NUM_LEV_P wide_params = 4"
    by (simp_all add: wide_params_def example_params_def NUM_LEV_P_def)
  have h: "(2::nat) < NP wide_params" "(3::nat) < NP wide_params"
      "(0::nat) < NUM_LEV_P wide_params" "(3::nat) < NUM_LEV_P wide_params"
    by (simp_all add: p)
  have ld: "load example_state ETA_DPDN l 2 3 = 2" for l
    by (simp add: example_state_def load_def)
  have z: "load (store eta_dot_dpdn_ie 3 2 3 0 example_state) eta_dot_dpdn_ie 3 2 3 = 0"
      "load (store eta_dot_dpdn_ie 3 2 3 0 example_state) ETA_DPDN 3 2 3 = 2"
    by (simp_all add: load_store ld)
  have u0: "load (update_state wide_params example_state) ETA_DPDN 0 2 3 = 2"
    using eta_dpdn_accumulation[OF h(1,2), of example_state] h(3) ld by simp
  have u3: "load (update_state wide_params example_state) ETA_DPDN 3 2 3 = 2"
    using eta_dpdn_accumulation[OF h(1,2), of example_state] h(4) ld by simp
  have b3: "load (basic_eta_omega wide_params (store eta_dot_dpdn_ie 3 2 3 0 example_state))
              ETA_DPDN 3 2 3 = 2"
    using eta_dpdn_accumulation[OF h(1,2), of "store eta_dot_dpdn_ie 3 2 3 0 example_state"]
      h(4) z
    by simp
  show ?thesis using p ld[of 3] u0 u3 b3 by simp
qed

end
